(* ===== verification/VK_Prelude.thy ===== *)
theory VK_Prelude
  imports Main "HOL-Library.Sublist"
begin

text \<open>
  The prelude of the development: the collections of facts the component theories fill and
  use, and the generic lemmas on lists, maps and order that more than one of them needs.
  Nothing here mentions the program.

  The collections are: \<open>go_defs\<close>, the definitions of the modelled Go library functions;
  \<open>op_defs\<close>, the definitions of the operations a component's proofs unfold together;
  \<open>inv_intros\<close>, the facts "this operation keeps the invariant".
\<close>

named_theorems go_defs "definitions of the modelled Go runtime functions"
named_theorems op_defs "definitions of component operations"
named_theorems inv_intros "operations preserve invariants"

section \<open>Lists\<close>

lemma takeWhile_neq_append [simp]:
  "a \<notin> set xs \<Longrightarrow> takeWhile (\<lambda>x. x \<noteq> a) (xs @ a # ys) = xs"
  by (induction xs) auto

lemma dropWhile_neq_append [simp]:
  "a \<notin> set xs \<Longrightarrow> dropWhile (\<lambda>x. x \<noteq> a) (xs @ a # ys) = a # ys"
  by (induction xs) auto

lemma remove1_split [simp]: "a \<notin> set xs \<Longrightarrow> remove1 a (xs @ a # ys) = xs @ ys"
  by (induction xs) auto

lemma sorted_wrt_remove1: "sorted_wrt P xs \<Longrightarrow> sorted_wrt P (remove1 a xs)"
  by (induction xs) (auto dest: notin_set_remove1 in_set_remove1 [THEN iffD1, rotated]
      set_remove1_subset [THEN subsetD])

lemma sorted_map_cong:
  "sorted (map f xs) \<Longrightarrow> (\<And>x. x \<in> set xs \<Longrightarrow> f x = g x) \<Longrightarrow> sorted (map g xs)"
  by (metis map_cong)

lemma filter_partition_length:
  "length (filter P xs) + length (filter (\<lambda>x. \<not> P x) xs) = length xs"
  by (rule sum_length_filter_compl)

lemma fold_preserves:
  "(\<And>x s. x \<in> set xs \<Longrightarrow> I s \<Longrightarrow> I (f x s)) \<Longrightarrow> I s \<Longrightarrow> I (fold f xs s)"
  by (induction xs arbitrary: s) auto

section \<open>Maps\<close>

text \<open>The length of a Go map; the maps of the models have finite domains.\<close>

definition map_len :: "('k \<rightharpoonup> 'v) \<Rightarrow> nat" where
  "map_len m = card (dom m)"

lemma map_len_empty [simp]: "map_len Map.empty = 0"
  by (simp add: map_len_def)

lemma map_len_upd:
  "finite (dom m) \<Longrightarrow> map_len (m(k \<mapsto> v)) = (if k \<in> dom m then map_len m else Suc (map_len m))"
  by (auto simp: map_len_def insert_absorb)

lemma map_len_del:
  "finite (dom m) \<Longrightarrow> map_len (m(k := None)) = (if k \<in> dom m then map_len m - 1 else map_len m)"
  by (auto simp: map_len_def)

text \<open>
  A Go \<open>range\<close> over a map visits every key once, in an order the runtime chooses. A
  function that ranges over a map takes that order as an argument; \<open>range_order\<close> says
  that the argument is such an order.
\<close>

definition range_order :: "('k \<rightharpoonup> 'v) \<Rightarrow> 'k list \<Rightarrow> bool" where
  "range_order m ks \<longleftrightarrow> distinct ks \<and> set ks = dom m"

definition range_values :: "('k \<rightharpoonup> 'v) \<Rightarrow> 'k list \<Rightarrow> 'v list" where
  "range_values m ks = List.map_filter m ks"

lemma range_values_Nil [simp]: "range_values m [] = []"
  by (simp add: range_values_def)

lemma range_values_Cons:
  "range_values m (k # ks) =
     (case m k of None \<Rightarrow> range_values m ks | Some v \<Rightarrow> v # range_values m ks)"
  by (simp add: range_values_def map_filter_simps split: option.split)

lemma set_range_values:
  "set ks = dom m \<Longrightarrow> set (range_values m ks) = ran m"
  by (force simp: range_values_def List.map_filter_def ran_def dom_def)

lemma in_range_values:
  "v \<in> set (range_values m ks) \<longleftrightarrow> (\<exists>k\<in>set ks. m k = Some v)"
  by (force simp: range_values_def List.map_filter_def)

lemma length_range_values:
  "set ks \<subseteq> dom m \<Longrightarrow> length (range_values m ks) = length ks"
  by (induction ks) (auto simp: range_values_Cons)

lemma range_order_length: "range_order m ks \<Longrightarrow> length (range_values m ks) = map_len m"
  by (simp add: range_order_def length_range_values map_len_def distinct_card [symmetric])

section \<open>Loops whose body may not return\<close>

text \<open>A loop over a list that threads a state and stops returning when its body does.\<close>

fun foldOpt :: "('a \<Rightarrow> 's \<Rightarrow> 's option) \<Rightarrow> 'a list \<Rightarrow> 's \<Rightarrow> 's option" where
  "foldOpt f [] s = Some s"
| "foldOpt f (x # xs) s = (case f x s of None \<Rightarrow> None | Some s' \<Rightarrow> foldOpt f xs s')"

lemma foldOpt_append:
  "foldOpt f (xs @ ys) s = (case foldOpt f xs s of None \<Rightarrow> None | Some s' \<Rightarrow> foldOpt f ys s')"
  by (induction xs arbitrary: s) (auto split: option.split)

lemma foldOpt_total: "(\<And>x s. f x s = Some (g x s)) \<Longrightarrow> foldOpt f xs s = Some (fold g xs s)"
  by (induction xs arbitrary: s) auto

lemma foldOpt_returns:
  "(\<And>x s. x \<in> set xs \<Longrightarrow> f x s \<noteq> None) \<Longrightarrow> foldOpt f xs s \<noteq> None"
  by (induction xs arbitrary: s) (auto split: option.split)

lemma foldOpt_preserves:
  assumes "foldOpt f xs s = Some s'" "I s"
    "\<And>x t t'. x \<in> set xs \<Longrightarrow> I t \<Longrightarrow> f x t = Some t' \<Longrightarrow> I t'"
  shows "I s'"
  using assms
proof (induction xs arbitrary: s)
  case (Cons x xs)
  then obtain t where t: "f x s = Some t" "foldOpt f xs t = Some s'"
    by (auto split: option.splits)
  show ?case
  proof (rule Cons.IH [OF t(2)])
    show "I t" by (rule Cons.prems(3) [OF _ Cons.prems(2) t(1)]) simp
    show "I u'" if "y \<in> set xs" "I u" "f y u = Some u'" for y u u'
      by (rule Cons.prems(3) [OF _ that(2,3)]) (simp add: that(1))
  qed
qed simp

section \<open>Indexing a list\<close>

lemma in_map_filter: "y \<in> set (List.map_filter f xs) \<longleftrightarrow> (\<exists>x\<in>set xs. f x = Some y)"
  by (force simp: List.map_filter_def)

text \<open>A loop that files each element under its key keeps the last one of each key.\<close>

lemma fold_upd_find:
  "fold (\<lambda>c m. m(f c \<mapsto> c)) cs m k =
     (case find (\<lambda>c. f c = k) (rev cs) of Some c \<Rightarrow> Some c | None \<Rightarrow> m k)"
proof (induction cs rule: rev_induct)
  case (snoc c cs)
  then show ?case by simp
qed simp

lemma find_rev_Some: "find P (rev xs) = Some x \<Longrightarrow> P x \<and> x \<in> set xs"
  by (metis find_Some_iff in_set_conv_nth set_rev)

end
