(* ===== verification/Go_Runtime.thy ===== *)
theory Go_Runtime
  imports VK_Prelude
begin

text \<open>
  The slice of the Go language and of its standard library that the modelled code uses:
  outcomes with errors and panics, nilable slices and maps, \<open>strings\<close>, \<open>time\<close>.
  Strings are lists of bytes, as in Go. Every function is executable.
\<close>

section \<open>Errors, panics and nilable containers\<close>

text \<open>
  An error value. The Kubernetes API errors carry a reason, which
  \<open>apierrors.IsNotFound\<close> and \<open>IsConflict\<close> find through any number of wrappers
  (\<open>errors.As\<close>). A message keeps the constant part of its format string only: the
  arguments are printed and never inspected.
\<close>

datatype api_reason = NotFound | Conflict | OtherReason

datatype goerror =
    ErrText string
  | ErrWrap string goerror
  | ErrAPI api_reason
  | CtxCanceled
  | CtxDeadline

fun errReason :: "goerror \<Rightarrow> api_reason option" where
  "errReason (ErrAPI r) = Some r"
| "errReason (ErrWrap _ e) = errReason e"
| "errReason _ = None"

definition IsNotFound :: "goerror \<Rightarrow> bool" where
  "IsNotFound e \<longleftrightarrow> errReason e = Some NotFound"

definition IsConflict :: "goerror \<Rightarrow> bool" where
  "IsConflict e \<longleftrightarrow> errReason e = Some Conflict"

lemma IsNotFound_simps [simp]:
  "IsNotFound (ErrAPI r) \<longleftrightarrow> r = NotFound" "IsNotFound (ErrWrap m e) = IsNotFound e"
  "\<not> IsNotFound (ErrText m)" "\<not> IsNotFound CtxCanceled" "\<not> IsNotFound CtxDeadline"
  by (auto simp: IsNotFound_def)

lemma IsConflict_simps [simp]:
  "IsConflict (ErrAPI r) \<longleftrightarrow> r = Conflict" "IsConflict (ErrWrap m e) = IsConflict e"
  "\<not> IsConflict (ErrText m)" "\<not> IsConflict CtxCanceled" "\<not> IsConflict CtxDeadline"
  by (auto simp: IsConflict_def)

text \<open>A call returns a value, returns an error, or panics.\<close>

datatype 'a outcome = Ok 'a | Err goerror | Panic

text \<open>
  A slice is nil or holds elements, and ranging over nil visits nothing; \<open>cmp.Equal\<close> tells
  a nil slice from an empty one, and equality of options does too. A map is nil or a finite
  partial function; reading a nil map finds nothing.
\<close>

type_synonym 'a slice = "'a list option"
type_synonym ('k, 'v) gomap = "('k \<rightharpoonup> 'v) option"

definition elems :: "'a slice \<Rightarrow> 'a list" where
  "elems s = (case s of None \<Rightarrow> [] | Some xs \<Rightarrow> xs)"

lemma elems_simps [simp]: "elems None = []" "elems (Some xs) = xs"
  by (simp_all add: elems_def)

definition mapGet :: "('k, 'v) gomap \<Rightarrow> 'k \<Rightarrow> 'v option" where
  "mapGet m k = (case m of None \<Rightarrow> None | Some f \<Rightarrow> f k)"

lemma mapGet_simps [simp]: "mapGet None k = None" "mapGet (Some f) k = f k"
  by (simp_all add: mapGet_def)

text \<open>Reading a string map with a missing key gives the zero value, the empty string.\<close>

definition mapGetStr :: "('k, string) gomap \<Rightarrow> 'k \<Rightarrow> string" where
  "mapGetStr m k = (case mapGet m k of None \<Rightarrow> '''' | Some v \<Rightarrow> v)"

text \<open>
  The content of object fields that the program never reads one by one, and that only
  whole-object comparison and copying see. 0 is the zero value of such fields.
\<close>

type_synonym opaque = nat

section \<open>strings\<close>

text \<open>\<open>strings.Split\<close> and \<open>strings.Join\<close> with a separator of one byte.\<close>

fun Split :: "char \<Rightarrow> string \<Rightarrow> string list" where
  "Split c [] = [[]]"
| "Split c (x # xs) =
     (if x = c then [] # Split c xs
      else (case Split c xs of [] \<Rightarrow> [[x]] | p # ps \<Rightarrow> (x # p) # ps))"

fun Join :: "char \<Rightarrow> string list \<Rightarrow> string" where
  "Join c [] = []"
| "Join c [p] = p"
| "Join c (p # q # ps) = p @ c # Join c (q # ps)"

lemma Split_not_Nil [simp]: "Split c s \<noteq> []"
  by (induction s) (auto split: list.splits)

lemma Split_no_sep [simp]: "c \<notin> set p \<Longrightarrow> Split c p = [p]"
  by (induction p) auto

lemma Split_append [simp]: "c \<notin> set p \<Longrightarrow> Split c (p @ c # s) = p # Split c s"
  by (induction p) auto

lemma Join_Cons: "ps \<noteq> [] \<Longrightarrow> Join c (p # ps) = p @ c # Join c ps"
  by (cases ps) auto

lemma Join_first_char: "Join c ((x # p) # ps) = x # Join c (p # ps)"
  by (cases ps) auto

lemma Join_Split [simp]: "Join c (Split c s) = s"
proof (induction s)
  case (Cons x xs)
  then show ?case
    by (cases "Split c xs") (auto simp: Join_Cons Join_first_char)
qed simp

lemma Split_Join:
  "ps \<noteq> [] \<Longrightarrow> \<forall>p\<in>set ps. c \<notin> set p \<Longrightarrow> Split c (Join c ps) = ps"
  by (induction c ps rule: Join.induct) auto

lemma length_Split: "length (Split c s) = Suc (count_list s c)"
proof (induction s)
  case (Cons x xs)
  then show ?case by (cases "Split c xs") auto
qed simp

lemma Split_parts: "p \<in> set (Split c s) \<Longrightarrow> c \<notin> set p"
proof (induction s arbitrary: p)
  case (Cons x xs)
  then show ?case by (cases "Split c xs") (auto split: if_splits)
qed simp

text \<open>Splitting a concatenation cuts the piece that holds the seam.\<close>

lemma Split_snoc: "c \<notin> set p \<Longrightarrow> Split c (s @ c # p) = Split c s @ [p]"
proof (induction s)
  case (Cons x xs)
  then show ?case by (cases "Split c xs") auto
qed simp

text \<open>\<open>strings.LastIndex\<close> for a separator of one byte: -1 when there is none.\<close>

fun LastIndex :: "string \<Rightarrow> char \<Rightarrow> int" where
  "LastIndex [] c = -1"
| "LastIndex (x # xs) c =
     (let r = LastIndex xs c in if 0 \<le> r then r + 1 else if x = c then 0 else -1)"

lemma LastIndex_none [simp]: "c \<notin> set s \<Longrightarrow> LastIndex s c = -1"
  by (induction s) auto

lemma LastIndex_ge: "-1 \<le> LastIndex s c"
  by (induction s) (auto simp: Let_def)

lemma LastIndex_last [simp]: "c \<notin> set p \<Longrightarrow> LastIndex (s @ c # p) c = int (length s)"
  by (induction s) (auto simp: Let_def)

lemma LastIndex_neg_iff: "LastIndex s c < 0 \<longleftrightarrow> c \<notin> set s"
  by (induction s) (auto simp: Let_def split: if_splits)

text \<open>\<open>strings.Contains\<close> and \<open>strings.HasSuffix\<close>.\<close>

fun Contains :: "string \<Rightarrow> string \<Rightarrow> bool" where
  "Contains [] sub = (sub = [])"
| "Contains (c # cs) sub = (prefix sub (c # cs) \<or> Contains cs sub)"

lemma Contains_sublist: "Contains s sub \<longleftrightarrow> sublist sub s"
  by (induction s) (auto simp: sublist_Cons_right)

definition HasSuffix :: "string \<Rightarrow> string \<Rightarrow> bool" where
  "HasSuffix s suf = suffix suf s"

text \<open>
  \<open>strings.EqualFold\<close> against a constant made of ASCII letters, the only use in the
  program. Two code points outside ASCII fold to an ASCII letter, the Kelvin sign (bytes
  E2 84 AA, to k) and the long s (bytes C5 BF, to s); no other code point does.
\<close>

definition foldAscii :: "char \<Rightarrow> char" where
  "foldAscii c =
     (let n = (of_char c :: nat) in if 65 \<le> n \<and> n \<le> 90 then char_of (n + 32) else c)"

fun foldString :: "string \<Rightarrow> string" where
  "foldString [] = []"
| "foldString [a] = [foldAscii a]"
| "foldString [a, b] =
     (if a = CHR 0xC5 \<and> b = CHR 0xBF then [CHR ''s'']
      else foldAscii a # foldString [b])"
| "foldString (a # b # c # cs) =
     (if a = CHR 0xC5 \<and> b = CHR 0xBF
      then CHR ''s'' # foldString (c # cs)
      else if a = CHR 0xE2 \<and> b = CHR 0x84 \<and> c = CHR 0xAA
      then CHR ''k'' # foldString cs
      else foldAscii a # foldString (b # c # cs))"

definition EqualFold :: "string \<Rightarrow> string \<Rightarrow> bool" where
  "EqualFold s t \<longleftrightarrow> foldString s = foldString t"

lemma EqualFold_refl [simp]: "EqualFold s s"
  by (simp add: EqualFold_def)

section \<open>time\<close>

text \<open>
  An instant in nanoseconds since the zero \<open>time.Time\<close>, and a duration in nanoseconds.
  Subtracting instants saturates at the range of an \<open>int64\<close>, as \<open>Time.Sub\<close> does. The
  wall clock and the monotonic clock are not told apart.
\<close>

datatype gotime = GoTime (nanos: int)

type_synonym duration = int

instantiation gotime :: linorder
begin

definition less_eq_gotime :: "gotime \<Rightarrow> gotime \<Rightarrow> bool" where
  "less_eq_gotime s t \<longleftrightarrow> nanos s \<le> nanos t"

definition less_gotime :: "gotime \<Rightarrow> gotime \<Rightarrow> bool" where
  "less_gotime s t \<longleftrightarrow> nanos s < nanos t"

instance
proof
  fix x y z :: gotime
  show "x < y \<longleftrightarrow> x \<le> y \<and> \<not> y \<le> x"
    by (auto simp: less_eq_gotime_def less_gotime_def)
  show "x \<le> x" by (simp add: less_eq_gotime_def)
  show "x \<le> y \<Longrightarrow> y \<le> z \<Longrightarrow> x \<le> z" by (simp add: less_eq_gotime_def)
  show "x \<le> y \<Longrightarrow> y \<le> x \<Longrightarrow> x = y" by (simp add: less_eq_gotime_def gotime.expand)
  show "x \<le> y \<or> y \<le> x" by (auto simp: less_eq_gotime_def)
qed

end

lemmas gotime_order = less_eq_gotime_def less_gotime_def

lemma GoTime_le [simp]: "GoTime a \<le> GoTime b \<longleftrightarrow> a \<le> b"
  by (simp add: gotime_order)

lemma GoTime_less [simp]: "GoTime a < GoTime b \<longleftrightarrow> a < b"
  by (simp add: gotime_order)

definition zeroTime :: gotime where
  "zeroTime = GoTime 0"

definition IsZero :: "gotime \<Rightarrow> bool" where
  "IsZero t \<longleftrightarrow> t = zeroTime"

definition maxDuration :: duration where
  "maxDuration = 2 ^ 63 - 1"

definition minDuration :: duration where
  "minDuration = - (2 ^ 63)"

definition Add :: "gotime \<Rightarrow> duration \<Rightarrow> gotime" where
  "Add t d = GoTime (nanos t + d)"

definition Sub :: "gotime \<Rightarrow> gotime \<Rightarrow> duration" where
  "Sub t u = max minDuration (min maxDuration (nanos t - nanos u))"

definition Before :: "gotime \<Rightarrow> gotime \<Rightarrow> bool" where
  "Before t u \<longleftrightarrow> t < u"

definition After :: "gotime \<Rightarrow> gotime \<Rightarrow> bool" where
  "After t u \<longleftrightarrow> u < t"

definition nanosecond :: duration where
  "nanosecond = 1"

definition millisecond :: duration where
  "millisecond = 1000000"

definition second :: duration where
  "second = 1000000000"

text \<open>
  \<open>Time.Second\<close> is the second within the minute, from 0 to 59 (the offset of a time zone is
  a whole number of minutes). \<open>Time.UnixMilli\<close> counts from 1970.
\<close>

definition Second :: "gotime \<Rightarrow> int" where
  "Second t = (nanos t div second) mod 60"

definition UnixMilli :: "gotime \<Rightarrow> int" where
  "UnixMilli t = (nanos t - 62135596800 * second) div millisecond"

declare zeroTime_def [go_defs] IsZero_def [go_defs] maxDuration_def [go_defs]
  minDuration_def [go_defs] Add_def [go_defs] Sub_def [go_defs] Before_def [go_defs]
  After_def [go_defs] nanosecond_def [go_defs] millisecond_def [go_defs] second_def [go_defs]
  Second_def [go_defs] UnixMilli_def [go_defs] HasSuffix_def [go_defs]

lemma nanos_Add [simp]: "nanos (Add t d) = nanos t + d"
  by (simp add: Add_def)

lemma Add_0 [simp]: "Add t 0 = t"
  by (simp add: Add_def)

lemma Add_mono: "Add t d \<le> Add t e \<longleftrightarrow> d \<le> e"
  by (simp add: gotime_order)

text \<open>Inside the range of a duration, subtracting and adding back is the identity.\<close>

lemma Add_Sub:
  "minDuration \<le> nanos t - nanos u \<Longrightarrow> nanos t - nanos u \<le> maxDuration \<Longrightarrow> Add u (Sub t u) = t"
  by (simp add: Add_def Sub_def)

lemma Sub_le_0_iff: "Sub t u \<le> 0 \<longleftrightarrow> t \<le> u"
  by (auto simp: Sub_def minDuration_def maxDuration_def gotime_order)

lemma Second_range: "0 \<le> Second t \<and> Second t < 60"
  by (simp add: Second_def)

end
