(* ===== verification/WorkQueue.thy ===== *)
theory WorkQueue
  imports Go_Runtime
begin

text \<open>
  virtual_kubelet/internal/queue/queue.go: the rate-limited, delaying work queue that drives
  the three loops of the pod controller.

  The queue items are objects that the list, the two maps and the running workers share, so
  they live in an explicit store \<open>heap\<close>, and \<open>items\<close>, \<open>itemsInQueue\<close> and
  \<open>itemsBeingProcessed\<close> hold their addresses. A list element and its value are created
  together and never exchanged, so one address stands for both. Each operation is the code
  between \<open>lock.Lock\<close> and \<open>lock.Unlock\<close>, which is atomic; \<open>now\<close> is what the
  clock reads there. Logging and tracing are left out.
\<close>

section \<open>State\<close>

type_synonym addr = nat

record queueItem =
  key :: string
  plannedToStartWorkAt :: gotime
  redirtiedAt :: gotime
  redirtiedWithRatelimit :: bool
  forget :: bool
  requeues :: nat
  originallyAdded :: gotime
  addedViaRedirty :: bool
  delayedViaRateLimit :: "duration option"

text \<open>
  The rate limiter is an interface of the workqueue package: a state of any type with
  \<open>When\<close>, which may change it, and \<open>Forget\<close>.
\<close>

record 'r rateLimiter =
  When :: "string \<Rightarrow> 'r \<Rightarrow> duration \<times> 'r"
  rlForget :: "string \<Rightarrow> 'r \<Rightarrow> 'r"

record 'r queue =
  heap :: "addr \<Rightarrow> queueItem"
  fresh :: addr
  items :: "addr list"
  itemsInQueue :: "string \<rightharpoonup> addr"
  itemsBeingProcessed :: "string \<rightharpoonup> addr"
  limiter :: 'r
  wakeupCh :: bool \<comment> \<open>whether the channel of capacity one holds a token\<close>
  q_running :: bool

type_synonym retryFunc =
  "string \<Rightarrow> nat \<Rightarrow> gotime \<Rightarrow> goerror \<Rightarrow> duration option \<times> goerror option"

definition MaxRetries :: nat where
  "MaxRetries = 20"

definition DefaultRetryFunc :: retryFunc where
  "DefaultRetryFunc k timesTried originally err =
     (if timesTried < MaxRetries then (None, None)
      else (None, Some (ErrWrap ''maximum retries (20) reached'' err)))"

definition newItem :: "string \<Rightarrow> gotime \<Rightarrow> queueItem" where
  "newItem k now =
     \<lparr>key = k, plannedToStartWorkAt = now, redirtiedAt = zeroTime,
      redirtiedWithRatelimit = False, forget = False, requeues = 0, originallyAdded = now,
      addedViaRedirty = False, delayedViaRateLimit = None\<rparr>"

text \<open>The argument is the state of the rate limiter passed to the constructor.\<close>

definition New :: "'r \<Rightarrow> 'r queue" where
  "New rl =
     \<lparr>heap = (\<lambda>_. newItem '''' zeroTime), fresh = 0, items = [], itemsInQueue = Map.empty,
      itemsBeingProcessed = Map.empty, limiter = rl, wakeupCh = False, q_running = False\<rparr>"

section \<open>Inserting\<close>

definition durationDeref :: "duration option \<Rightarrow> duration \<Rightarrow> duration" where
  "durationDeref d def = (case d of None \<Rightarrow> def | Some x \<Rightarrow> x)"

text \<open>
  The search for the place of an item, from an element towards the front: the first argument
  list runs backwards. The item goes right behind the first one found that starts strictly
  earlier, or to the front.
\<close>

fun placeBehind :: "(addr \<Rightarrow> gotime) \<Rightarrow> gotime \<Rightarrow> addr \<Rightarrow> addr list \<Rightarrow> addr list" where
  "placeBehind planned t a [] = [a]"
| "placeBehind planned t a (x # xs) =
     (if Before (planned x) t then a # x # xs else x # placeBehind planned t a xs)"

text \<open>\<open>adjustPosition\<close> moves an element of the list forward.\<close>

definition adjustPosition :: "addr \<Rightarrow> gotime \<Rightarrow> 'r queue \<Rightarrow> 'r queue" where
  "adjustPosition a t q =
     (if After t (plannedToStartWorkAt (heap q a)) then q
      else
        (let h = (heap q)(a := (heap q a)\<lparr>plannedToStartWorkAt := t\<rparr>);
             prev = takeWhile (\<lambda>x. x \<noteq> a) (items q);
             next = tl (dropWhile (\<lambda>x. x \<noteq> a) (items q))
         in q\<lparr>heap := h,
              items := rev (placeBehind (plannedToStartWorkAt \<circ> h) t a (rev prev)) @ next\<rparr>))"

text \<open>
  The three branches of \<open>insert\<close> (the item is processed, it is in the list, it is new), then
  \<open>insert\<close> itself with its deferred wake-up. \<open>scheduleNew\<close> makes the new item and asks
  the rate limiter.
\<close>

definition insertProcessing ::
  "gotime \<Rightarrow> addr \<Rightarrow> bool \<Rightarrow> duration option \<Rightarrow> 'r queue \<Rightarrow> 'r queue" where
  "insertProcessing now a ratelimit delay q =
     (let item = heap q a;
          t = Add now (durationDeref delay 0);
          item' = (if IsZero (redirtiedAt item)
                   then item\<lparr>redirtiedAt := t, redirtiedWithRatelimit := ratelimit\<rparr>
                   else if Before t (redirtiedAt item)
                   then item\<lparr>redirtiedAt := t, redirtiedWithRatelimit := ratelimit\<rparr>
                   else item)
      in q\<lparr>heap := (heap q)(a := item'\<lparr>forget := False\<rparr>)\<rparr>)"

definition scheduleNew ::
  "'r rateLimiter \<Rightarrow> gotime \<Rightarrow> string \<Rightarrow> bool \<Rightarrow> duration option \<Rightarrow> 'r \<Rightarrow> queueItem \<times> 'r" where
  "scheduleNew rl now k ratelimit delay l =
     (let val = newItem k now
      in if ratelimit
         then (let (w, l') = When rl k l;
                   actualDelay = (case delay of None \<Rightarrow> w | Some d \<Rightarrow> d)
               in (val\<lparr>plannedToStartWorkAt := Add (plannedToStartWorkAt val) actualDelay,
                       delayedViaRateLimit := Some actualDelay\<rparr>, l'))
         else (val\<lparr>plannedToStartWorkAt :=
                     Add (plannedToStartWorkAt val) (durationDeref delay 0)\<rparr>, l))"

definition insertNew ::
  "'r rateLimiter \<Rightarrow> gotime \<Rightarrow> string \<Rightarrow> bool \<Rightarrow> duration option \<Rightarrow> 'r queue \<Rightarrow> addr \<times> 'r queue" where
  "insertNew rl now k ratelimit delay q =
     (let (val, l) = scheduleNew rl now k ratelimit delay (limiter q);
          a = fresh q;
          h = (heap q)(a := val)
      in (a, q\<lparr>heap := h, fresh := Suc a, limiter := l,
               items := rev (placeBehind (plannedToStartWorkAt \<circ> h)
                               (plannedToStartWorkAt val) a (rev (items q))),
               itemsInQueue := (itemsInQueue q)(k \<mapsto> a)\<rparr>))"

definition insertItem ::
  "'r rateLimiter \<Rightarrow> gotime \<Rightarrow> string \<Rightarrow> bool \<Rightarrow> duration option \<Rightarrow> 'r queue \<Rightarrow> addr \<times> 'r queue" where
  "insertItem rl now k ratelimit delay q =
     (let (a, q') =
        (case itemsBeingProcessed q k of
           Some a \<Rightarrow> (a, insertProcessing now a ratelimit delay q)
         | None \<Rightarrow>
             (case itemsInQueue q k of
                Some a \<Rightarrow> (a, adjustPosition a (Add now (durationDeref delay 0)) q)
              | None \<Rightarrow> insertNew rl now k ratelimit delay q))
      in (a, q'\<lparr>wakeupCh := True\<rparr>))"

definition Enqueue :: "'r rateLimiter \<Rightarrow> gotime \<Rightarrow> string \<Rightarrow> 'r queue \<Rightarrow> 'r queue" where
  "Enqueue rl now k q = snd (insertItem rl now k True None q)"

definition EnqueueWithoutRateLimit ::
  "'r rateLimiter \<Rightarrow> gotime \<Rightarrow> string \<Rightarrow> 'r queue \<Rightarrow> 'r queue" where
  "EnqueueWithoutRateLimit rl now k q = snd (insertItem rl now k False None q)"

definition EnqueueWithoutRateLimitWithDelay ::
  "'r rateLimiter \<Rightarrow> gotime \<Rightarrow> string \<Rightarrow> duration \<Rightarrow> 'r queue \<Rightarrow> 'r queue" where
  "EnqueueWithoutRateLimitWithDelay rl now k after q = snd (insertItem rl now k False (Some after) q)"

definition Forget :: "string \<Rightarrow> 'r queue \<Rightarrow> 'r queue" where
  "Forget k q =
     (case itemsInQueue q k of
        Some a \<Rightarrow> q\<lparr>itemsInQueue := (itemsInQueue q)(k := None), items := remove1 a (items q)\<rparr>
      | None \<Rightarrow>
          (case itemsBeingProcessed q k of
             Some a \<Rightarrow> q\<lparr>heap := (heap q)(a := (heap q a)\<lparr>forget := True\<rparr>)\<rparr>
           | None \<Rightarrow> q))"

section \<open>Counting\<close>

text \<open>The two counts panic when the list and the map disagree.\<close>

definition Len :: "'r queue \<Rightarrow> nat outcome" where
  "Len q =
     (if length (items q) \<noteq> map_len (itemsInQueue q) then Panic
      else Ok (length (items q) + map_len (itemsBeingProcessed q)))"

definition UnprocessedLen :: "'r queue \<Rightarrow> nat outcome" where
  "UnprocessedLen q =
     (if length (items q) \<noteq> map_len (itemsInQueue q) then Panic
      else Ok (map_len (itemsInQueue q)))"

definition ItemsBeingProcessedLen :: "'r queue \<Rightarrow> nat" where
  "ItemsBeingProcessedLen q = map_len (itemsBeingProcessed q)"

definition Empty :: "'r queue \<Rightarrow> bool outcome" where
  "Empty q = (case Len q of Ok n \<Rightarrow> Ok (n = 0) | Err e \<Rightarrow> Err e | Panic \<Rightarrow> Panic)"

section \<open>Processing\<close>

text \<open>
  One round of the loop of \<open>getNextItem\<close>, under the lock: the list is empty (wait for a
  token), its front is not due (wait for a token or a timer), or its front is taken. The
  duration until the front is due is \<open>time.Until\<close>, read at \<open>now\<close>.
\<close>

datatype nextItem = WaitToken | WaitTimer duration | Take addr

definition getNextItem :: "gotime \<Rightarrow> 'r queue \<Rightarrow> nextItem \<times> 'r queue" where
  "getNextItem now q =
     (case items q of
        [] \<Rightarrow> (WaitToken, q)
      | a # rest \<Rightarrow>
          (let qi = heap q a;
               timeUntilProcessing = Sub (plannedToStartWorkAt qi) now
           in if timeUntilProcessing \<le> 0
              then (Take a, q\<lparr>itemsBeingProcessed := (itemsBeingProcessed q)(key qi \<mapsto> a),
                              items := rest,
                              itemsInQueue := (itemsInQueue q)(key qi := None)\<rparr>)
              else (WaitTimer timeUntilProcessing, q)))"

text \<open>
  \<open>handleQueueItemObject\<close> after the handler returned \<open>err\<close> for the item at \<open>a\<close>:
  the part under the lock. The result is the error it returns. \<open>nowUntil\<close> and \<open>now\<close>
  are the two readings of the clock, in \<open>time.Until\<close> and in \<open>insert\<close>.
\<close>

definition finishRedirty ::
  "'r rateLimiter \<Rightarrow> gotime \<Rightarrow> gotime \<Rightarrow> queueItem \<Rightarrow> 'r queue \<Rightarrow> 'r queue" where
  "finishRedirty rl nowUntil now qi q =
     (let q = q\<lparr>limiter := rlForget rl (key qi) (limiter q)\<rparr>
      in if \<not> IsZero (redirtiedAt qi)
         then (let delay = Sub (redirtiedAt qi) nowUntil;
                   (a', q') = insertItem rl now (key qi) (redirtiedWithRatelimit qi) (Some delay) q
               in q'\<lparr>heap := (heap q')(a' := (heap q' a')\<lparr>addedViaRedirty := True\<rparr>)\<rparr>)
         else q)"

definition handleQueueItemObject ::
  "'r rateLimiter \<Rightarrow> retryFunc \<Rightarrow> gotime \<Rightarrow> gotime \<Rightarrow> goerror option \<Rightarrow> addr \<Rightarrow> 'r queue \<Rightarrow>
   goerror option \<times> 'r queue" where
  "handleQueueItemObject rl retry nowUntil now err a q =
     (let qi = heap q a;
          q = q\<lparr>itemsBeingProcessed := (itemsBeingProcessed q)(key qi := None)\<rparr>
      in if forget qi
         then (None, q\<lparr>limiter := rlForget rl (key qi) (limiter q)\<rparr>)
         else case err of
           None \<Rightarrow> (None, finishRedirty rl nowUntil now qi q)
         | Some e \<Rightarrow>
             (case retry (key qi) (requeues qi + 1) (originallyAdded qi) e of
                (delay, None) \<Rightarrow>
                  (let (a', q') = insertItem rl now (key qi) True delay q
                   in (None, q'\<lparr>heap := (heap q')(a' := (heap q' a')
                               \<lparr>requeues := requeues qi + 1,
                                originallyAdded := originallyAdded qi\<rparr>)\<rparr>))
              | (_, Some e') \<Rightarrow>
                  (Some (ErrWrap (if \<not> IsZero (redirtiedAt qi)
                                  then ''temporarily (requeued) forgetting'' else ''forgetting'') e'),
                   finishRedirty rl nowUntil now qi q)))"

text \<open>
  \<open>Run\<close>: the checks before the workers start, and what its deferred function does after
  they have stopped.
\<close>

definition RunStart :: "int \<Rightarrow> 'r queue \<Rightarrow> 'r queue outcome" where
  "RunStart workers q =
     (if workers \<le> 0 then Panic
      else if q_running q then Panic
      else Ok (q\<lparr>q_running := True\<rparr>))"

definition RunEnd :: "'r queue \<Rightarrow> 'r queue" where
  "RunEnd q = q\<lparr>q_running := False\<rparr>"

section \<open>The invariant\<close>

abbreviation planned :: "'r queue \<Rightarrow> addr \<Rightarrow> gotime" where
  "planned q a \<equiv> plannedToStartWorkAt (heap q a)"

text \<open>
  The list is ordered by planned start and free of repetitions, the index of the list maps
  exactly the keys of its elements, every key under processing is out of the list, all
  addresses in use are allocated, and an item in the list has no redirty request and no
  forget mark.
\<close>

definition queue_inv :: "'r queue \<Rightarrow> bool" where
  "queue_inv q \<longleftrightarrow>
     distinct (items q) \<and>
     sorted (map (planned q) (items q)) \<and>
     (\<forall>k a. itemsInQueue q k = Some a \<longleftrightarrow> a \<in> set (items q) \<and> key (heap q a) = k) \<and>
     (\<forall>k a. itemsBeingProcessed q k = Some a \<longrightarrow>
        key (heap q a) = k \<and> a < fresh q \<and> a \<notin> set (items q) \<and> itemsInQueue q k = None) \<and>
     (\<forall>a\<in>set (items q).
        a < fresh q \<and> redirtiedAt (heap q a) = zeroTime \<and> \<not> forget (heap q a)) \<and>
     finite (dom (itemsBeingProcessed q))"

lemma queue_invD:
  assumes "queue_inv q"
  shows inv_distinct: "distinct (items q)"
    and inv_sorted: "sorted (map (planned q) (items q))"
    and inv_index: "itemsInQueue q k = Some a \<longleftrightarrow> a \<in> set (items q) \<and> key (heap q a) = k"
    and inv_processing: "itemsBeingProcessed q k = Some a \<Longrightarrow>
          key (heap q a) = k \<and> a < fresh q \<and> a \<notin> set (items q) \<and> itemsInQueue q k = None"
    and inv_item: "a \<in> set (items q) \<Longrightarrow>
          a < fresh q \<and> redirtiedAt (heap q a) = zeroTime \<and> \<not> forget (heap q a)"
    and inv_finite: "finite (dom (itemsBeingProcessed q))"
  using assms unfolding queue_inv_def by blast+

lemma queue_invI:
  assumes "distinct (items q)" "sorted (map (planned q) (items q))"
    "\<And>k a. itemsInQueue q k = Some a \<Longrightarrow> a \<in> set (items q) \<and> key (heap q a) = k"
    "\<And>a. a \<in> set (items q) \<Longrightarrow> itemsInQueue q (key (heap q a)) = Some a"
    "\<And>k a. itemsBeingProcessed q k = Some a \<Longrightarrow>
       key (heap q a) = k \<and> a < fresh q \<and> a \<notin> set (items q) \<and> itemsInQueue q k = None"
    "\<And>a. a \<in> set (items q) \<Longrightarrow>
       a < fresh q \<and> redirtiedAt (heap q a) = zeroTime \<and> \<not> forget (heap q a)"
    "finite (dom (itemsBeingProcessed q))"
  shows "queue_inv q"
  unfolding queue_inv_def using assms by blast

lemma set_placeBehind [simp]: "set (placeBehind pl t a xs) = insert a (set xs)"
  by (induction xs) auto

lemma distinct_placeBehind [simp]:
  "distinct (placeBehind pl t a xs) \<longleftrightarrow> a \<notin> set xs \<and> distinct xs"
  by (induction xs) auto

lemma length_placeBehind [simp]: "length (placeBehind pl t a xs) = Suc (length xs)"
  by (induction xs) auto

lemma placeBehind_sorted:
  assumes "sorted_wrt (\<lambda>x y. pl y \<le> pl x) xs"
  shows "sorted_wrt (\<lambda>x y. pl y \<le> pl x) (placeBehind pl (pl a) a xs)"
  using assms by (induction xs) (auto simp: Before_def not_less)

lemma placeBehind_cong:
  "(\<And>x. x \<in> set xs \<Longrightarrow> f x = g x) \<Longrightarrow> placeBehind f t a xs = placeBehind g t a xs"
  by (induction xs) auto

lemma place_sorted:
  assumes "sorted (map pl xs)"
  shows "sorted (map pl (rev (placeBehind pl (pl a) a (rev xs))))"
  using assms placeBehind_sorted [of pl "rev xs" a]
  by (simp add: sorted_map sorted_wrt_rev)

text \<open>The wake-up token and the state of the limiter are not part of the invariant.\<close>

lemma queue_inv_token [simp]: "queue_inv (q\<lparr>wakeupCh := w\<rparr>) = queue_inv q"
  by (simp add: queue_inv_def)

lemma queue_inv_limiter [simp]: "queue_inv (q\<lparr>limiter := l\<rparr>) = queue_inv q"
  by (simp add: queue_inv_def)

lemma queue_inv_running [simp]: "queue_inv (q\<lparr>q_running := w\<rparr>) = queue_inv q"
  by (simp add: queue_inv_def)

lemma queue_inv_heap:
  assumes "queue_inv q" "key v = key (heap q a)"
    "plannedToStartWorkAt v = plannedToStartWorkAt (heap q a)"
    "a \<in> set (items q) \<Longrightarrow> redirtiedAt v = zeroTime \<and> \<not> forget v"
  shows "queue_inv (q\<lparr>heap := (heap q)(a := v)\<rparr>)"
proof -
  have "sorted (map (planned (q\<lparr>heap := (heap q)(a := v)\<rparr>)) (items q))"
    by (rule sorted_map_cong [OF inv_sorted [OF assms(1)]]) (simp add: assms)
  with assms show ?thesis by (auto simp: queue_inv_def)
qed

lemma queue_inv_New: "queue_inv (New rl)"
  by (simp add: queue_inv_def New_def)

lemma insertProcessing_inv:
  assumes "queue_inv q" "itemsBeingProcessed q k = Some a"
  shows "queue_inv (insertProcessing now a ratelimit delay q)"
  unfolding insertProcessing_def Let_def
  by (rule queue_inv_heap [OF assms(1)]) (use inv_processing [OF assms] in auto)

text \<open>Where \<open>adjustPosition\<close> cuts the list.\<close>

lemma adjustPosition_split:
  assumes "distinct (pre @ a # post)" "items q = pre @ a # post"
    "\<not> After t (planned q a)"
  defines "h \<equiv> (heap q)(a := (heap q a)\<lparr>plannedToStartWorkAt := t\<rparr>)"
  shows "adjustPosition a t q =
    q\<lparr>heap := h,
      items := rev (placeBehind (plannedToStartWorkAt \<circ> heap q) t a (rev pre)) @ post\<rparr>"
proof -
  have "placeBehind (plannedToStartWorkAt \<circ> h) t a (rev pre) =
      placeBehind (plannedToStartWorkAt \<circ> heap q) t a (rev pre)"
    using assms(1) by (intro placeBehind_cong) (auto simp: h_def)
  with assms show ?thesis by (simp add: adjustPosition_def Let_def)
qed

lemma adjustPosition_inv:
  assumes inv: "queue_inv q" and a: "a \<in> set (items q)"
  shows "queue_inv (adjustPosition a t q)"
proof (cases "After t (planned q a)")
  case False
  from a obtain pre post where split: "items q = pre @ a # post" by (auto simp: in_set_conv_decomp)
  note dist = inv_distinct [OF inv, unfolded split]
  let ?h = "(heap q)(a := (heap q a)\<lparr>plannedToStartWorkAt := t\<rparr>)"
  let ?pl = "plannedToStartWorkAt \<circ> ?h"
  let ?front = "rev (placeBehind (plannedToStartWorkAt \<circ> heap q) t a (rev pre))"
  have eq: "adjustPosition a t q = q\<lparr>heap := ?h, items := ?front @ post\<rparr>"
    by (rule adjustPosition_split [OF dist split False])
  have srt: "sorted (map (planned q) pre @ planned q a # map (planned q) post)"
    using inv_sorted [OF inv] by (simp add: split)
  have same: "sorted (map ?pl pre)" "sorted (map ?pl post)"
    using dist srt by (auto simp: sorted_append intro: sorted_map_cong)
  have front: "placeBehind (plannedToStartWorkAt \<circ> heap q) t a (rev pre) = placeBehind ?pl (?pl a) a (rev pre)"
    using dist by (auto intro!: placeBehind_cong)
  have "sorted (map ?pl ?front)"
    unfolding front by (rule place_sorted) (rule same(1))
  moreover have "\<forall>x\<in>set ?front. \<forall>y\<in>set post. ?pl x \<le> ?pl y"
    using srt False dist by (fastforce simp: sorted_append After_def)
  ultimately have "sorted (map ?pl (?front @ post))" using same(2) by (auto simp: sorted_append)
  then show ?thesis
    using inv dist unfolding eq queue_inv_def split by (auto simp: comp_def)
qed (simp add: adjustPosition_def inv)


lemma scheduleNew_fields [simp]:
  assumes "scheduleNew rl now k ratelimit delay l = (val, l')"
  shows "key val = k" "forget val = False" "redirtiedAt val = zeroTime" "requeues val = 0"
    "originallyAdded val = now" "addedViaRedirty val = False"
  using assms by (auto simp: scheduleNew_def newItem_def Let_def split: if_splits prod.splits)

lemma insertNew_inv:
  assumes inv: "queue_inv q" and new: "itemsInQueue q k = None" "itemsBeingProcessed q k = None"
    and ret: "insertNew rl now k ratelimit delay q = (a, q')"
  shows "queue_inv q' \<and> a = fresh q \<and> key (heap q' a) = k"
proof -
  obtain val l where sched: "scheduleNew rl now k ratelimit delay (limiter q) = (val, l)" by fastforce
  from sched have k: "key val = k" by simp
  have a: "a = fresh q" and q': "q' = q\<lparr>heap := (heap q)(fresh q := val), fresh := Suc (fresh q),
      limiter := l,
      items := rev (placeBehind (plannedToStartWorkAt \<circ> (heap q)(fresh q := val))
                 (plannedToStartWorkAt val) (fresh q) (rev (items q))),
      itemsInQueue := (itemsInQueue q)(k \<mapsto> fresh q)\<rparr>"
    using ret sched by (auto simp: insertNew_def Let_def)
  have old: "fresh q \<notin> set (items q)" using inv_item [OF inv] by blast
  let ?pl = "plannedToStartWorkAt \<circ> (heap q)(fresh q := val)"
  have "sorted (map ?pl (items q))"
    by (rule sorted_map_cong [OF inv_sorted [OF inv]]) (use old in auto)
  from place_sorted [OF this, of "fresh q"]
  have "sorted (map ?pl (rev (placeBehind ?pl (plannedToStartWorkAt val) (fresh q) (rev (items q)))))"
    by simp
  then have sorted: "sorted (map (planned q') (items q'))" by (simp add: q' comp_def)
  have keys: "key (heap q x) \<noteq> k" if "x \<in> set (items q)" for x
    using that inv_index [OF inv, of k x] new(1) by auto
  have mem: "set (items q') = Set.insert (fresh q) (set (items q))" by (simp add: q')
  have heap: "heap q' = (heap q)(fresh q := val)" and index: "itemsInQueue q' = (itemsInQueue q)(k \<mapsto> fresh q)"
    and proc: "itemsBeingProcessed q' = itemsBeingProcessed q" and fr: "fresh q' = Suc (fresh q)"
    by (simp_all add: q')
  have "queue_inv q'"
  proof (rule queue_invI)
    show "distinct (items q')" using inv_distinct [OF inv] old by (simp add: q')
    show "sorted (map (planned q') (items q'))" by (rule sorted)
    show "b \<in> set (items q') \<and> key (heap q' b) = j" if "itemsInQueue q' j = Some b" for j b
      using that inv_index [OF inv, of j b] old k by (auto simp: mem heap index split: if_splits)
    show "itemsInQueue q' (key (heap q' b)) = Some b" if "b \<in> set (items q')" for b
      using that inv_index [OF inv, of "key (heap q b)" b] old k keys [of b]
      by (auto simp: mem heap index)
    show "key (heap q' b) = j \<and> b < fresh q' \<and> b \<notin> set (items q') \<and> itemsInQueue q' j = None"
      if "itemsBeingProcessed q' j = Some b" for j b
      using that inv_processing [OF inv, of j b] new(2) by (auto simp: mem heap index proc fr)
    show "b < fresh q' \<and> redirtiedAt (heap q' b) = zeroTime \<and> \<not> forget (heap q' b)"
      if "b \<in> set (items q')" for b
      using that inv_item [OF inv, of b] sched by (auto simp: mem fr heap)
    show "finite (dom (itemsBeingProcessed q'))" using inv_finite [OF inv] by (simp add: proc)
  qed
  with a k show ?thesis by (simp add: heap)
qed

lemma insertItem_inv:
  assumes inv: "queue_inv q" and ret: "insertItem rl now k ratelimit delay q = (a, q')"
  shows "queue_inv q' \<and> key (heap q' a) = k"
proof (cases "itemsBeingProcessed q k")
  case (Some b)
  with ret inv_processing [OF inv Some] insertProcessing_inv [OF inv Some, of now ratelimit delay]
  show ?thesis by (auto simp: insertItem_def insertProcessing_def Let_def)
next
  case None
  show ?thesis
  proof (cases "itemsInQueue q k")
    case (Some b)
    then have "b \<in> set (items q)" "key (heap q b) = k" by (simp_all add: inv_index [OF inv])
    with None Some ret adjustPosition_inv [OF inv, of b] show ?thesis
      by (auto simp: insertItem_def adjustPosition_def Let_def)
  next
    case new: None
    obtain r where r: "insertNew rl now k ratelimit delay q = (a, r)" "q' = r\<lparr>wakeupCh := True\<rparr>"
      using ret None new by (auto simp: insertItem_def split: prod.splits)
    from insertNew_inv [OF inv new None r(1)] r(2) show ?thesis by auto
  qed
qed

lemma Enqueue_inv [inv_intros]: "queue_inv q \<Longrightarrow> queue_inv (Enqueue rl now k q)"
  and EnqueueWithoutRateLimit_inv [inv_intros]:
    "queue_inv q \<Longrightarrow> queue_inv (EnqueueWithoutRateLimit rl now k q)"
  and EnqueueWithoutRateLimitWithDelay_inv [inv_intros]:
    "queue_inv q \<Longrightarrow> queue_inv (EnqueueWithoutRateLimitWithDelay rl now k d q)"
  by (metis Enqueue_def EnqueueWithoutRateLimit_def EnqueueWithoutRateLimitWithDelay_def
      insertItem_inv prod.collapse)+

lemma Forget_inv [inv_intros]:
  assumes inv: "queue_inv q"
  shows "queue_inv (Forget k q)"
proof (cases "itemsInQueue q k")
  case (Some a)
  then have a: "a \<in> set (items q)" "key (heap q a) = k" by (simp_all add: inv_index [OF inv])
  have "sorted (map (planned q) (remove1 a (items q)))"
    using inv_sorted [OF inv] by (auto simp: sorted_map intro: sorted_wrt_remove1)
  moreover have "Forget k q =
      q\<lparr>itemsInQueue := (itemsInQueue q)(k := None), items := remove1 a (items q)\<rparr>"
    by (simp add: Forget_def Some)
  moreover have "x = a" if "x \<in> set (items q)" "key (heap q x) = k" for x
    using that Some inv_index [OF inv, of k x] by simp
  ultimately show ?thesis
    using inv inv_distinct [OF inv] a(2) unfolding queue_inv_def
    by (auto simp: set_remove1_eq)
next
  case None
  then show ?thesis
    using inv inv_processing [OF inv]
    by (auto simp: Forget_def split: option.split intro!: queue_inv_heap)
qed

lemma getNextItem_inv [inv_intros]:
  assumes inv: "queue_inv q"
  shows "queue_inv (snd (getNextItem now q))"
proof (cases "items q")
  case (Cons a rest)
  have a: "a \<notin> set rest" using inv_distinct [OF inv] Cons by simp
  have "key (heap q a) \<noteq> key (heap q x)" if "x \<in> set rest" for x
    using that a Cons inv_index [OF inv, of "key (heap q a)" a]
      inv_index [OF inv, of "key (heap q a)" x] by auto
  with a inv Cons show ?thesis
    unfolding queue_inv_def by (auto simp: getNextItem_def Let_def) (metis)
qed (simp add: getNextItem_def inv)

text \<open>What \<open>getNextItem\<close> takes is processed under its own key.\<close>

lemma getNextItem_Take:
  assumes inv: "queue_inv q" and ret: "getNextItem now q = (Take a, q')"
  shows "items q = a # items q'" "itemsBeingProcessed q' = (itemsBeingProcessed q)(key (heap q a) \<mapsto> a)"
    "itemsInQueue q' = (itemsInQueue q)(key (heap q a) := None)" "heap q' = heap q"
    "planned q a \<le> now"
  using ret by (auto simp: getNextItem_def Let_def Sub_le_0_iff split: list.splits if_splits)

definition isProcessing :: "'r queue \<Rightarrow> addr \<Rightarrow> bool" where
  "isProcessing q a \<longleftrightarrow> itemsBeingProcessed q (key (heap q a)) = Some a"

lemma drop_processing_inv:
  assumes "queue_inv q"
  shows "queue_inv (q\<lparr>itemsBeingProcessed := (itemsBeingProcessed q)(k := None)\<rparr>)"
  using assms unfolding queue_inv_def
  by (auto elim!: finite_subset [rotated] split: if_splits)

lemma finishRedirty_inv:
  assumes "queue_inv q"
  shows "queue_inv (finishRedirty rl nowUntil now qi q)"
proof -
  let ?q = "q\<lparr>limiter := rlForget rl (key qi) (limiter q)\<rparr>"
  obtain a' q' where ins: "insertItem rl now (key qi) (redirtiedWithRatelimit qi)
      (Some (Sub (redirtiedAt qi) nowUntil)) ?q = (a', q')" by fastforce
  have "queue_inv q'" using insertItem_inv [OF _ ins] assms by simp
  with assms ins show ?thesis
    by (auto simp: finishRedirty_def Let_def intro!: queue_inv_heap dest: inv_item)
qed

lemma handleQueueItemObject_inv [inv_intros]:
  assumes inv: "queue_inv q"
  shows "queue_inv (snd (handleQueueItemObject rl retry nowUntil now err a q))"
proof -
  let ?q = "q\<lparr>itemsBeingProcessed := (itemsBeingProcessed q)(key (heap q a) := None)\<rparr>"
  have q: "queue_inv ?q" by (rule drop_processing_inv [OF inv])
  have requeue: "queue_inv (r\<lparr>heap := (heap r)(b := (heap r b)\<lparr>requeues := n, originallyAdded := t\<rparr>)\<rparr>)"
    if "insertItem rl now (key (heap q a)) True delay ?q = (b, r)" for b r n t delay
    using insertItem_inv [OF q that] by (intro queue_inv_heap) (auto dest: inv_item)
  show ?thesis
    using q requeue finishRedirty_inv [OF q]
    by (auto simp: handleQueueItemObject_def Let_def split: option.split prod.split)
qed

text \<open>The consistency check of the two counts never fails.\<close>

lemma map_len_itemsInQueue:
  assumes inv: "queue_inv q"
  shows "map_len (itemsInQueue q) = length (items q)"
proof -
  have "dom (itemsInQueue q) = (\<lambda>a. key (heap q a)) ` set (items q)"
    using inv_index [OF inv] by (auto simp: dom_def)
  moreover have "inj_on (\<lambda>a. key (heap q a)) (set (items q))"
    by (rule inj_onI) (metis inv_index [OF inv] option.inject)
  ultimately show ?thesis
    by (simp add: map_len_def card_image distinct_card inv_distinct [OF inv])
qed

lemma Len_inv:
  "queue_inv q \<Longrightarrow> Len q = Ok (length (items q) + map_len (itemsBeingProcessed q))"
  "queue_inv q \<Longrightarrow> UnprocessedLen q = Ok (length (items q))"
  by (simp_all add: Len_def UnprocessedLen_def map_len_itemsInQueue)

section \<open>Texts\<close>

text \<open>The texts of an item and of a queue; \<open>timeString\<close> formats an instant. A list of strings is printed
  in brackets, with blanks between.\<close>

definition itemString :: "(gotime \<Rightarrow> string) \<Rightarrow> queueItem \<Rightarrow> string" where
  "itemString timeString item =
     ''<plannedToStartWorkAt:'' @ timeString (plannedToStartWorkAt item) @ '' key: '' @ key item @ ''>''"

fun bracketed :: "string list \<Rightarrow> string" where
  "bracketed [] = ''''"
| "bracketed [s] = s"
| "bracketed (s # t # ss) = s @ '' '' @ bracketed (t # ss)"

definition queueString :: "(gotime \<Rightarrow> string) \<Rightarrow> 'r queue \<Rightarrow> string" where
  "queueString timeString q =
     ''<items:['' @ bracketed (map (\<lambda>a. itemString timeString (heap q a)) (items q)) @ '']>''"

end
