(* ===== verification/WorkQueue_Spec.thy ===== *)
theory WorkQueue_Spec
  imports WorkQueue
begin

text \<open>
  The contract of the work queue, as the client sees it: which keys wait and from when, which
  are being processed, and what each operation does to that. The list, its order, the index
  and the addresses are gone; the operations of theory WorkQueue refine the abstract ones.
\<close>

section \<open>The abstract queue\<close>

text \<open>
  A key is processed with an optional request to run it again (from when, and whether through
  the rate limiter) and a mark to forget it.
\<close>

record timedKeys =
  pending :: "string \<rightharpoonup> gotime"
  working :: "string \<rightharpoonup> (gotime \<times> bool) option \<times> bool"

definition redirty :: "queueItem \<Rightarrow> (gotime \<times> bool) option" where
  "redirty qi =
     (if IsZero (redirtiedAt qi) then None else Some (redirtiedAt qi, redirtiedWithRatelimit qi))"

definition absQueue :: "'r queue \<Rightarrow> timedKeys" where
  "absQueue q =
     \<lparr>pending = (\<lambda>k. map_option (planned q) (itemsInQueue q k)),
      working = (\<lambda>k. map_option (\<lambda>a. (redirty (heap q a), forget (heap q a)))
                       (itemsBeingProcessed q k))\<rparr>"

text \<open>
  Scheduling a key: a key under processing records the earliest request and is not forgotten
  any more; a waiting key only moves forward, to \<open>soon\<close>; an unknown key waits until
  \<open>start\<close>.
\<close>

definition schedule :: "string \<Rightarrow> bool \<Rightarrow> gotime \<Rightarrow> gotime \<Rightarrow> timedKeys \<Rightarrow> timedKeys" where
  "schedule k ratelimit soon start s =
     (case working s k of
        Some (r, _) \<Rightarrow>
          s\<lparr>working := (working s)(k \<mapsto>
            (Some (case r of None \<Rightarrow> (soon, ratelimit)
                   | Some (t, b) \<Rightarrow> if soon < t then (soon, ratelimit) else (t, b)), False))\<rparr>
      | None \<Rightarrow>
          s\<lparr>pending := (pending s)(k \<mapsto>
            (case pending s k of None \<Rightarrow> start | Some t \<Rightarrow> min soon t))\<rparr>)"

definition unschedule :: "string \<Rightarrow> timedKeys \<Rightarrow> timedKeys" where
  "unschedule k s =
     (case pending s k of
        Some _ \<Rightarrow> s\<lparr>pending := (pending s)(k := None)\<rparr>
      | None \<Rightarrow>
          (case working s k of
             Some (r, _) \<Rightarrow> s\<lparr>working := (working s)(k \<mapsto> (r, True))\<rparr>
           | None \<Rightarrow> s))"

definition start :: "string \<Rightarrow> timedKeys \<Rightarrow> timedKeys" where
  "start k s =
     s\<lparr>pending := (pending s)(k := None), working := (working s)(k \<mapsto> (None, False))\<rparr>"

text \<open>
  Finishing a key: forgotten, or back in the queue from \<open>again\<close>, or dropped.
\<close>

definition finish :: "string \<Rightarrow> gotime option \<Rightarrow> timedKeys \<Rightarrow> timedKeys" where
  "finish k again s =
     s\<lparr>working := (working s)(k := None),
       pending := (case again of None \<Rightarrow> pending s | Some t \<Rightarrow> (pending s)(k \<mapsto> t))\<rparr>"

text \<open>When a new item of the concrete queue starts.\<close>

definition startTime ::
  "'r rateLimiter \<Rightarrow> gotime \<Rightarrow> string \<Rightarrow> bool \<Rightarrow> duration option \<Rightarrow> 'r \<Rightarrow> gotime" where
  "startTime rl now k ratelimit delay l =
     plannedToStartWorkAt (fst (scheduleNew rl now k ratelimit delay l))"

lemma startTime_cases:
  "startTime rl now k ratelimit delay l =
     Add now (case delay of Some d \<Rightarrow> d | None \<Rightarrow> if ratelimit then fst (When rl k l) else 0)"
  by (auto simp: startTime_def scheduleNew_def newItem_def durationDeref_def Let_def
      split: option.split prod.split)

section \<open>The refinement\<close>

lemma absQueue_token [simp]:
  "absQueue (q\<lparr>wakeupCh := w\<rparr>) = absQueue q" "absQueue (q\<lparr>limiter := l\<rparr>) = absQueue q"
  by (simp_all add: absQueue_def)

lemma absQueue_simps [simp]:
  "pending (absQueue q) k = map_option (planned q) (itemsInQueue q k)"
  "working (absQueue q) k = map_option (\<lambda>a. (redirty (heap q a), forget (heap q a))) (itemsBeingProcessed q k)"
  by (simp_all add: absQueue_def)

lemma timedKeys_eqI:
  "(\<And>k. pending s k = pending t k) \<Longrightarrow> (\<And>k. working s k = working t k) \<Longrightarrow> s = (t :: timedKeys)"
  by (cases s; cases t) (auto simp: fun_eq_iff)

text \<open>Changing an item that is not in the list changes no waiting key.\<close>

lemma absQueue_heap:
  assumes "queue_inv q" "itemsBeingProcessed q k = Some a" "key v = key (heap q a)"
  shows "absQueue (q\<lparr>heap := (heap q)(a := v)\<rparr>) =
    (absQueue q)\<lparr>working := (working (absQueue q))(k \<mapsto> (redirty v, forget v))\<rparr>"
proof (rule timedKeys_eqI)
  have "b \<noteq> a" if "itemsInQueue q j = Some b" for j b
    using that inv_processing [OF assms(1,2)] inv_index [OF assms(1)] by auto
  then show "pending (absQueue (q\<lparr>heap := (heap q)(a := v)\<rparr>)) j = pending ((absQueue q)\<lparr>working :=
      (working (absQueue q))(k \<mapsto> (redirty v, forget v))\<rparr>) j" for j
    by (cases "itemsInQueue q j") auto
  have "b \<noteq> a" if "itemsBeingProcessed q j = Some b" "j \<noteq> k" for j b
    using inv_processing [OF assms(1) that(1)] inv_processing [OF assms(1,2)] that(2) by auto
  then show "working (absQueue (q\<lparr>heap := (heap q)(a := v)\<rparr>)) j = working ((absQueue q)\<lparr>working :=
      (working (absQueue q))(k \<mapsto> (redirty v, forget v))\<rparr>) j" for j
    using assms(2) by (cases "itemsBeingProcessed q j") auto
qed

lemma insertProcessing_abs:
  assumes inv: "queue_inv q" and k: "itemsBeingProcessed q k = Some a"
    and t: "\<not> IsZero (Add now (durationDeref delay 0))"
  shows "absQueue (insertProcessing now a ratelimit delay q) =
    schedule k ratelimit (Add now (durationDeref delay 0)) s (absQueue q)"
  unfolding insertProcessing_def Let_def
  by (subst absQueue_heap [OF inv k])
    (use k t in \<open>auto simp: schedule_def redirty_def Before_def\<close>)

text \<open>Changing an item of the list, and its place there, changes no key under processing.\<close>

lemma absQueue_move:
  assumes inv: "queue_inv q" and k: "itemsInQueue q k = Some a"
  shows "absQueue (q\<lparr>heap := (heap q)(a := v), items := xs\<rparr>) =
    (absQueue q)\<lparr>pending := (pending (absQueue q))(k \<mapsto> plannedToStartWorkAt v)\<rparr>"
    (is "?l = ?r")
proof (rule timedKeys_eqI)
  have "b \<noteq> a" if "itemsInQueue q j = Some b" "j \<noteq> k" for j b
    using that k inv_index [OF inv] by auto
  with k show "pending ?l j = pending ?r j" for j
    by (cases "itemsInQueue q j") auto
  have "b \<noteq> a" if "itemsBeingProcessed q j = Some b" for j b
    using inv_processing [OF inv that] k inv_index [OF inv, of k a] by auto
  then show "working ?l j = working ?r j" for j
    by (cases "itemsBeingProcessed q j") auto
qed

lemma adjustPosition_abs:
  assumes inv: "queue_inv q" and k: "itemsInQueue q k = Some a"
    and idle: "itemsBeingProcessed q k = None"
  shows "absQueue (adjustPosition a t q) = schedule k ratelimit t s (absQueue q)"
proof (cases "After t (planned q a)")
  case True
  then have "min t (planned q a) = planned q a" by (simp add: After_def)
  then have "schedule k ratelimit t s (absQueue q) = absQueue q"
    using k idle by (intro timedKeys_eqI) (auto simp: schedule_def)
  with True show ?thesis by (simp add: adjustPosition_def)
next
  case False
  then have "min t (planned q a) = t" by (simp add: After_def)
  with False k idle show ?thesis
    by (simp add: adjustPosition_def Let_def absQueue_move [OF inv k] schedule_def)
qed

lemma insertNew_abs:
  assumes inv: "queue_inv q" and new: "itemsInQueue q k = None" "itemsBeingProcessed q k = None"
  shows "absQueue (snd (insertNew rl now k ratelimit delay q)) =
    schedule k ratelimit t (startTime rl now k ratelimit delay (limiter q)) (absQueue q)"
    (is "?l = ?r")
proof -
  obtain val l where sched: "scheduleNew rl now k ratelimit delay (limiter q) = (val, l)" by fastforce
  have old: "b \<noteq> fresh q" if "itemsInQueue q j = Some b \<or> itemsBeingProcessed q j = Some b" for j b
    using that inv_index [OF inv, of j b] inv_item [OF inv, of b] inv_processing [OF inv, of j b] by auto
  have "pending ?l j = pending ?r j" for j
    using new old [of j] sched
    by (cases "itemsInQueue q j") (auto simp: insertNew_def schedule_def startTime_def Let_def)
  moreover have "working ?l j = working ?r j" for j
    using new old [of j] sched
    by (cases "itemsBeingProcessed q j") (auto simp: insertNew_def schedule_def Let_def)
  ultimately show ?thesis by (rule timedKeys_eqI)
qed

lemma insertItem_abs:
  assumes inv: "queue_inv q" and t: "\<not> IsZero (Add now (durationDeref delay 0))"
  shows "absQueue (snd (insertItem rl now k ratelimit delay q)) =
    schedule k ratelimit (Add now (durationDeref delay 0))
      (startTime rl now k ratelimit delay (limiter q)) (absQueue q)"
  using insertProcessing_abs [OF inv _ t] adjustPosition_abs [OF inv] insertNew_abs [OF inv]
  by (auto simp: insertItem_def split: option.split prod.split)

lemma Forget_abs:
  assumes inv: "queue_inv q"
  shows "absQueue (Forget k q) = unschedule k (absQueue q)"
proof (cases "itemsInQueue q k")
  case (Some a)
  then show ?thesis
    by (intro timedKeys_eqI) (auto simp: Forget_def unschedule_def)
next
  case None
  then show ?thesis
    using absQueue_heap [OF inv, of k]
    by (auto simp: Forget_def unschedule_def redirty_def split: option.split)
qed

text \<open>Taking an item: the earliest waiting key, and it is due.\<close>

lemma getNextItem_abs:
  assumes inv: "queue_inv q" and ret: "getNextItem now q = (Take a, q')"
  defines "k \<equiv> key (heap q a)"
  shows "absQueue q' = start k (absQueue q)"
    and "\<exists>t\<le>now. pending (absQueue q) k = Some t \<and>
           (\<forall>j u. pending (absQueue q) j = Some u \<longrightarrow> t \<le> u)"
proof -
  note take = getNextItem_Take [OF inv ret]
  have a: "a \<in> set (items q)" using take(1) by simp
  then have idx: "itemsInQueue q k = Some a" using inv_index [OF inv] by (simp add: k_def)
  show "absQueue q' = start k (absQueue q)"
    using take inv_item [OF inv a]
    by (intro timedKeys_eqI) (auto simp: start_def k_def redirty_def IsZero_def)
  have "planned q a \<le> u" if "pending (absQueue q) j = Some u" for j u
  proof -
    from that obtain b where "itemsInQueue q j = Some b" "u = planned q b" by auto
    then have "b \<in> set (a # items q')" "u = planned q b" using inv_index [OF inv] take(1) by auto
    then show ?thesis using inv_sorted [OF inv] take(1) by auto
  qed
  with idx take(5) show "\<exists>t\<le>now. pending (absQueue q) k = Some t \<and>
           (\<forall>j u. pending (absQueue q) j = Some u \<longrightarrow> t \<le> u)"
    by auto
qed


lemma getNextItem_wait:
  assumes inv: "queue_inv q"
  shows "getNextItem now q = (WaitToken, q') \<Longrightarrow> q' = q \<and> pending (absQueue q) = Map.empty"
    and "getNextItem now q = (WaitTimer d, q') \<Longrightarrow> q' = q \<and> 0 < d \<and>
           (\<exists>k t. pending (absQueue q) k = Some t \<and> d = Sub t now \<and> now < t \<and>
              (\<forall>j u. pending (absQueue q) j = Some u \<longrightarrow> t \<le> u))"
proof -
  show "q' = q \<and> pending (absQueue q) = Map.empty" if "getNextItem now q = (WaitToken, q')"
  proof -
    from that have "items q = []" "q' = q"
      by (auto simp: getNextItem_def Let_def split: list.splits if_splits)
    moreover have "itemsInQueue q k = None" for k
      using inv_index [OF inv, of k] \<open>items q = []\<close> by (cases "itemsInQueue q k") auto
    ultimately show ?thesis by (simp add: fun_eq_iff)
  qed
  assume wait: "getNextItem now q = (WaitTimer d, q')"
  then obtain a rest where front: "items q = a # rest"
    by (cases "items q") (simp_all add: getNextItem_def)
  have d: "d = Sub (planned q a) now" "0 < d" and "q' = q"
    using wait unfolding getNextItem_def front by (auto simp: Let_def not_le split: if_splits)
  have "planned q a \<le> u" if "pending (absQueue q) j = Some u" for j u
  proof -
    from that obtain b where "itemsInQueue q j = Some b" "u = planned q b" by auto
    then have "b \<in> set (a # rest)" "u = planned q b" using inv_index [OF inv] front by auto
    then show ?thesis using inv_sorted [OF inv] front by auto
  qed
  moreover have "pending (absQueue q) (key (heap q a)) = Some (planned q a)"
    using inv_index [OF inv, of "key (heap q a)" a] front by simp
  moreover have "now < planned q a" using d Sub_le_0_iff [of "planned q a" now] by simp
  ultimately show "q' = q \<and> 0 < d \<and>
      (\<exists>k t. pending (absQueue q) k = Some t \<and> d = Sub t now \<and> now < t \<and>
         (\<forall>j u. pending (absQueue q) j = Some u \<longrightarrow> t \<le> u))"
    using d \<open>q' = q\<close> by blast
qed

section \<open>Finishing an item\<close>

text \<open>When the key of a finished item starts again, if it does.\<close>

definition redirtyStart :: "gotime \<Rightarrow> gotime \<Rightarrow> queueItem \<Rightarrow> gotime option" where
  "redirtyStart nowUntil now qi =
     (if IsZero (redirtiedAt qi) then None else Some (Add now (Sub (redirtiedAt qi) nowUntil)))"

definition nextStart ::
  "'r rateLimiter \<Rightarrow> retryFunc \<Rightarrow> gotime \<Rightarrow> gotime \<Rightarrow> goerror option \<Rightarrow> queueItem \<Rightarrow> 'r \<Rightarrow>
   gotime option" where
  "nextStart rl retry nowUntil now err qi l =
     (if forget qi then None
      else case err of
        None \<Rightarrow> redirtyStart nowUntil now qi
      | Some e \<Rightarrow>
          (case retry (key qi) (requeues qi + 1) (originallyAdded qi) e of
             (delay, None) \<Rightarrow> Some (startTime rl now (key qi) True delay l)
           | (_, Some _) \<Rightarrow> redirtyStart nowUntil now qi))"

text \<open>Re-inserting a key that is neither waiting nor processed, then touching the new item.\<close>

lemma reinsert_abs:
  assumes inv: "queue_inv q" and idle: "itemsInQueue q k = None" "itemsBeingProcessed q k = None"
    and ins: "insertItem rl now k ratelimit delay q = (a, q')"
    and v: "plannedToStartWorkAt (f (heap q' a)) = planned q' a"
  shows "absQueue (q'\<lparr>heap := (heap q')(a := f (heap q' a))\<rparr>) =
    (absQueue q)\<lparr>pending := (pending (absQueue q))
       (k \<mapsto> startTime rl now k ratelimit delay (limiter q))\<rparr>"
proof -
  obtain r where r: "insertNew rl now k ratelimit delay q = (a, r)" "q' = r\<lparr>wakeupCh := True\<rparr>"
    using ins idle by (auto simp: insertItem_def split: prod.splits)
  have abs: "absQueue r = (absQueue q)\<lparr>pending := (pending (absQueue q))
       (k \<mapsto> startTime rl now k ratelimit delay (limiter q))\<rparr>"
    using insertNew_abs [OF inv idle, of rl now ratelimit delay] r(1) idle
    by (simp add: schedule_def)
  have rinv: "queue_inv r" and fr: "a = fresh q" and "key (heap r a) = k"
    using insertNew_inv [OF inv idle r(1)] by auto
  have k: "itemsInQueue r k = Some a"
    using r(1) by (auto simp: insertNew_def Let_def split: prod.splits)
  have "absQueue (r\<lparr>heap := (heap r)(a := f (heap r a)), items := items r\<rparr>) = absQueue r"
    unfolding absQueue_move [OF rinv k] using v r(2) k
    by (intro timedKeys_eqI) auto
  moreover have "q'\<lparr>heap := (heap q')(a := f (heap q' a))\<rparr> =
      r\<lparr>heap := (heap r)(a := f (heap r a)), items := items r\<rparr>\<lparr>wakeupCh := True\<rparr>"
    using r(2) by simp
  ultimately show ?thesis using abs by (simp only: absQueue_token)
qed

lemma finish_drop:
  assumes inv: "queue_inv q" and a: "isProcessing q a"
  defines "k \<equiv> key (heap q a)"
  shows "queue_inv (q\<lparr>itemsBeingProcessed := (itemsBeingProcessed q)(k := None)\<rparr>)"
    and "itemsInQueue q k = None"
    and "absQueue (q\<lparr>itemsBeingProcessed := (itemsBeingProcessed q)(k := None)\<rparr>) =
      (absQueue q)\<lparr>working := (working (absQueue q))(k := None)\<rparr>"
proof -
  let ?r = "q\<lparr>itemsBeingProcessed := (itemsBeingProcessed q)(k := None)\<rparr>"
  show "queue_inv ?r" by (rule drop_processing_inv [OF inv])
  show "itemsInQueue q k = None"
    using inv_processing [OF inv, of k a] a by (simp add: k_def isProcessing_def)
  show "absQueue ?r = (absQueue q)\<lparr>working := (working (absQueue q))(k := None)\<rparr>"
    by (rule timedKeys_eqI) simp_all
qed

lemma finishRedirty_abs:
  assumes inv: "queue_inv q" and idle: "itemsInQueue q (key qi) = None" "itemsBeingProcessed q (key qi) = None"
  shows "absQueue (finishRedirty rl nowUntil now qi q) =
    (case redirtyStart nowUntil now qi of None \<Rightarrow> absQueue q
     | Some t \<Rightarrow> (absQueue q)\<lparr>pending := (pending (absQueue q))(key qi \<mapsto> t)\<rparr>)"
proof -
  let ?q = "q\<lparr>limiter := rlForget rl (key qi) (limiter q)\<rparr>"
  obtain a' q' where ins: "insertItem rl now (key qi) (redirtiedWithRatelimit qi)
      (Some (Sub (redirtiedAt qi) nowUntil)) ?q = (a', q')" by fastforce
  have "absQueue (q'\<lparr>heap := (heap q')(a' := (heap q' a')\<lparr>addedViaRedirty := True\<rparr>)\<rparr>) =
      (absQueue q)\<lparr>pending := (pending (absQueue q))
         (key qi \<mapsto> Add now (Sub (redirtiedAt qi) nowUntil))\<rparr>"
    using reinsert_abs [OF _ _ _ ins, of "\<lambda>v. v\<lparr>addedViaRedirty := True\<rparr>"] inv idle
    by (simp add: startTime_cases)
  with ins show ?thesis by (simp add: finishRedirty_def redirtyStart_def Let_def)
qed

lemma handleQueueItemObject_abs:
  assumes inv: "queue_inv q" and a: "isProcessing q a"
  shows "absQueue (snd (handleQueueItemObject rl retry nowUntil now err a q)) =
    finish (key (heap q a)) (nextStart rl retry nowUntil now err (heap q a) (limiter q)) (absQueue q)"
proof -
  let ?k = "key (heap q a)"
  let ?q = "q\<lparr>itemsBeingProcessed := (itemsBeingProcessed q)(?k := None)\<rparr>"
  note drop = finish_drop [OF inv a]
  have idle: "itemsInQueue ?q ?k = None" "itemsBeingProcessed ?q ?k = None" using drop(2) by auto
  have redirty: "absQueue (finishRedirty rl nowUntil now (heap q a) ?q) =
      finish ?k (redirtyStart nowUntil now (heap q a)) (absQueue q)"
    using finishRedirty_abs [OF drop(1), of "heap q a"] idle
    by (auto simp: drop(3) finish_def split: option.split)
  have requeue: "absQueue (q'\<lparr>heap := (heap q')(a' := (heap q' a')
        \<lparr>requeues := n, originallyAdded := t\<rparr>)\<rparr>) =
      finish ?k (Some (startTime rl now ?k True delay (limiter q))) (absQueue q)"
    if "insertItem rl now ?k True delay ?q = (a', q')" for a' q' delay n t
    using reinsert_abs [OF drop(1) idle that, of "\<lambda>v. v\<lparr>requeues := n, originallyAdded := t\<rparr>"]
    by (simp add: drop(3) finish_def)
  show ?thesis
    using redirty requeue drop(3)
    by (auto simp: handleQueueItemObject_def nextStart_def Let_def finish_def [of _ None]
        split: option.split prod.split)
qed


section \<open>What the queue owes its client\<close>

text \<open>
  The keys whose handler is still to be started: the waiting ones, and those under processing
  with a request to run again that was not forgotten.
\<close>

definition owed :: "'r queue \<Rightarrow> string set" where
  "owed q = {k. pending (absQueue q) k \<noteq> None \<or>
                (\<exists>r. working (absQueue q) k = Some (Some r, False))}"

lemma owed_schedule:
  "absQueue q' = schedule k ratelimit soon t (absQueue q) \<Longrightarrow> owed q' = Set.insert k (owed q)"
  by (auto simp: owed_def schedule_def split: option.splits if_splits)

lemma owed_insertItem:
  assumes "queue_inv q" "\<not> IsZero (Add now (durationDeref delay 0))"
  shows "owed (snd (insertItem rl now k ratelimit delay q)) = Set.insert k (owed q)"
  by (rule owed_schedule) (rule insertItem_abs [OF assms])

text \<open>
  An error the retry function turns into a retry leaves the key owed; so does a request made
  meanwhile. This is the level-triggered promise of the queue.
\<close>

lemma redirty_owed:
  assumes inv: "queue_inv q" and a: "isProcessing q a"
    and r: "\<not> IsZero (redirtiedAt (heap q a))" "\<not> forget (heap q a)"
  shows "itemsInQueue (snd (handleQueueItemObject rl retry nowUntil now err a q)) (key (heap q a)) \<noteq> None"
proof -
  have "pending (absQueue (snd (handleQueueItemObject rl retry nowUntil now err a q))) (key (heap q a)) \<noteq> None"
    unfolding handleQueueItemObject_abs [OF inv a] using r
    by (auto simp: finish_def nextStart_def redirtyStart_def split: option.split prod.split)
  then show ?thesis by simp
qed

text \<open>Another key is not affected by the end of a handler.\<close>

lemma handle_frame:
  assumes inv: "queue_inv q" and a: "isProcessing q a" and k: "k \<noteq> key (heap q a)"
    and q': "q' = snd (handleQueueItemObject rl retry nowUntil now err a q)"
  shows "pending (absQueue q') k = pending (absQueue q) k" "working (absQueue q') k = working (absQueue q) k"
  unfolding q' handleQueueItemObject_abs [OF inv a] using k
  by (simp_all add: finish_def split: option.split del: absQueue_simps)

section \<open>The interface of the queue\<close>

text \<open>
  What the components that feed a queue rely on: enqueueing a key, at a time that is not the
  zero value of the clock, makes it owed and leaves the rest as it was.
\<close>

locale work_queue =
  fixes enq :: "gotime \<Rightarrow> string \<Rightarrow> 'q \<Rightarrow> 'q"
    and due :: "'q \<Rightarrow> string set"
    and ok :: "'q \<Rightarrow> bool"
    and valid :: "gotime \<Rightarrow> bool"
  assumes enq_ok: "ok q \<Longrightarrow> ok (enq t k q)"
    and enq_due: "ok q \<Longrightarrow> valid t \<Longrightarrow> due (enq t k q) = Set.insert k (due q)"
begin

lemma enq_all_ok: "ok q \<Longrightarrow> ok (fold (enq t) ks q)"
  by (induction ks arbitrary: q) (auto intro: enq_ok)

lemma enq_all_due:
  "ok q \<Longrightarrow> valid t \<Longrightarrow> due (fold (enq t) ks q) = set ks \<union> due q"
  by (induction ks arbitrary: q) (auto simp: enq_ok enq_due)

lemma enq_again: "ok q \<Longrightarrow> valid t \<Longrightarrow> valid u \<Longrightarrow> due (enq u k (enq t k q)) = due (enq t k q)"
  by (simp add: enq_ok enq_due)

lemma enq_filter_due:
  "ok q \<Longrightarrow> valid t \<Longrightarrow>
   due (fold (\<lambda>x s. if P x then enq t (f x) s else s) xs q) = f ` {x \<in> set xs. P x} \<union> due q"
  by (induction xs arbitrary: q) (auto simp: enq_ok enq_due)

end

lemma insertItem_snd_inv: "queue_inv q \<Longrightarrow> queue_inv (snd (insertItem rl now k ratelimit delay q))"
  by (metis insertItem_inv prod.collapse)

interpretation rated: work_queue "Enqueue rl" owed queue_inv "\<lambda>t. \<not> IsZero (Add t 0)" for rl
  by unfold_locales (auto intro: insertItem_snd_inv simp: Enqueue_def owed_insertItem durationDeref_def)

interpretation prompt: work_queue "EnqueueWithoutRateLimit rl" owed queue_inv
  "\<lambda>t. \<not> IsZero (Add t 0)" for rl
  by unfold_locales
    (auto intro: insertItem_snd_inv simp: EnqueueWithoutRateLimit_def owed_insertItem durationDeref_def)

interpretation delayed: work_queue "\<lambda>t k. EnqueueWithoutRateLimitWithDelay rl t k d" owed queue_inv
  "\<lambda>t. \<not> IsZero (Add t d)" for rl d
  by unfold_locales
    (auto intro: insertItem_snd_inv simp: EnqueueWithoutRateLimitWithDelay_def owed_insertItem durationDeref_def)

section \<open>The operations as a client and the workers call them\<close>

text \<open>A sequence of operations on one queue, in any order, with the clock readings they make.\<close>

datatype queueOp =
    OpEnqueue gotime string
  | OpEnqueueNow gotime string
  | OpEnqueueAfter gotime string duration
  | OpForget string
  | OpNext gotime
  | OpFinish gotime gotime "goerror option" addr

fun runOp :: "'r rateLimiter \<Rightarrow> retryFunc \<Rightarrow> queueOp \<Rightarrow> 'r queue \<Rightarrow> 'r queue" where
  "runOp rl retry (OpEnqueue now k) q = Enqueue rl now k q"
| "runOp rl retry (OpEnqueueNow now k) q = EnqueueWithoutRateLimit rl now k q"
| "runOp rl retry (OpEnqueueAfter now k d) q = EnqueueWithoutRateLimitWithDelay rl now k d q"
| "runOp rl retry (OpForget k) q = Forget k q"
| "runOp rl retry (OpNext now) q = snd (getNextItem now q)"
| "runOp rl retry (OpFinish nowUntil now err a) q =
     snd (handleQueueItemObject rl retry nowUntil now err a q)"

lemma runOp_inv [inv_intros]: "queue_inv q \<Longrightarrow> queue_inv (runOp rl retry op q)"
  by (cases op) (auto intro: inv_intros)

lemma runOps_inv: "queue_inv q \<Longrightarrow> queue_inv (fold (runOp rl retry) ops q)"
  by (induction ops arbitrary: q) (auto intro: inv_intros)

text \<open>After any sequence of queue operations the list is sorted by planned start and free of
  repetitions, and the consistency check of \<open>Len\<close> and \<open>UnprocessedLen\<close> never
  panics: they return the numbers of waiting and of processed keys.\<close>

theorem queue_consistent:
  "let q = fold (runOp rl retry) ops (New l)
   in sorted (map (planned q) (items q)) \<and> distinct (items q) \<and>
      UnprocessedLen q = Ok (length (items q)) \<and>
      Len q = Ok (length (items q) + ItemsBeingProcessedLen q)"
  using runOps_inv [OF queue_inv_New, of rl retry ops l]
  by (simp add: Let_def inv_sorted inv_distinct Len_inv ItemsBeingProcessedLen_def)

text \<open>
  Operations whose times are real: an enqueued key never starts at the zero value of the clock,
  which the items use for "no request".
\<close>

fun timely :: "queueOp \<Rightarrow> bool" where
  "timely (OpEnqueue now k) \<longleftrightarrow> \<not> IsZero now"
| "timely (OpEnqueueNow now k) \<longleftrightarrow> \<not> IsZero now"
| "timely (OpEnqueueAfter now k d) \<longleftrightarrow> \<not> IsZero (Add now d)"
| "timely _ \<longleftrightarrow> True"

text \<open>The abstract counterpart of an operation, with what the concrete queue supplies.\<close>

fun absOp :: "'r rateLimiter \<Rightarrow> retryFunc \<Rightarrow> queueOp \<Rightarrow> 'r queue \<Rightarrow> timedKeys \<Rightarrow> timedKeys" where
  "absOp rl retry (OpEnqueue now k) q s =
     schedule k True now (startTime rl now k True None (limiter q)) s"
| "absOp rl retry (OpEnqueueNow now k) q s = schedule k False now now s"
| "absOp rl retry (OpEnqueueAfter now k d) q s = schedule k False (Add now d) (Add now d) s"
| "absOp rl retry (OpForget k) q s = unschedule k s"
| "absOp rl retry (OpNext now) q s =
     (case fst (getNextItem now q) of Take a \<Rightarrow> start (key (heap q a)) s | _ \<Rightarrow> s)"
| "absOp rl retry (OpFinish nowUntil now err a) q s =
     finish (key (heap q a)) (nextStart rl retry nowUntil now err (heap q a) (limiter q)) s"

fun enabled :: "queueOp \<Rightarrow> 'r queue \<Rightarrow> bool" where
  "enabled (OpFinish nowUntil now err a) q \<longleftrightarrow> isProcessing q a"
| "enabled _ q \<longleftrightarrow> True"

text \<open>C19. Every operation of the queue refines the abstract one: enqueueing keeps the earliest start
  of a waiting key and records the earliest request for a key in process, \<open>Forget\<close> cancels,
  \<open>getNextItem\<close> moves one key from waiting to processing, and the end of a handler
  returns, drops or re-schedules its key.\<close>

theorem queue_refines_timedKeys:
  assumes "queue_inv q" "timely op" "enabled op q"
  shows "absQueue (runOp rl retry op q) = absOp rl retry op q (absQueue q)"
proof (cases op)
  case (OpNext now)
  show ?thesis
  proof (cases "getNextItem now q")
    case (Pair n q')
    show ?thesis
    proof (cases n)
      case (Take a)
      with getNextItem_abs(1) [OF assms(1)] OpNext Pair show ?thesis by simp
    next
      case WaitToken
      with getNextItem_wait(1) [OF assms(1)] OpNext Pair show ?thesis by auto
    next
      case (WaitTimer d)
      with getNextItem_wait(2) [OF assms(1)] OpNext Pair show ?thesis by auto
    qed
  qed
qed (use assms in \<open>simp_all add: Enqueue_def EnqueueWithoutRateLimit_def
    EnqueueWithoutRateLimitWithDelay_def insertItem_abs startTime_cases durationDeref_def
    Forget_abs handleQueueItemObject_abs\<close>)

lemma limiter_New [simp]: "limiter (New l) = l"
  by (simp add: New_def)

definition sampleLimiter :: "nat rateLimiter" where
  "sampleLimiter = \<lparr>When = (\<lambda>_ n. (int n, Suc n)), rlForget = (\<lambda>_ _. 0)\<rparr>"

lemma queue_refines_timedKeys_witness:
  "absQueue (runOp sampleLimiter DefaultRetryFunc (OpEnqueue (GoTime 7) ''k'') (New (3::nat))) =
    schedule ''k'' True (GoTime 7) (GoTime 10) (absQueue (New (3::nat)))"
  by (subst queue_refines_timedKeys)
    (simp_all add: queue_inv_New IsZero_def zeroTime_def startTime_cases sampleLimiter_def limiter_New go_defs)

text \<open>What a worker takes is due and the earliest of all waiting keys; it waits for a token only
  when no key waits, and sets its timer to the earliest key otherwise.\<close>

theorem getNextItem_earliest:
  assumes inv: "queue_inv q"
  shows "case fst (getNextItem now q) of
      Take a \<Rightarrow> (\<exists>t\<le>now. pending (absQueue q) (key (heap q a)) = Some t \<and>
                  (\<forall>j u. pending (absQueue q) j = Some u \<longrightarrow> t \<le> u))
    | WaitToken \<Rightarrow> pending (absQueue q) = Map.empty
    | WaitTimer d \<Rightarrow> 0 < d \<and> (\<exists>k t. pending (absQueue q) k = Some t \<and> d = Sub t now \<and> now < t \<and>
                  (\<forall>j u. pending (absQueue q) j = Some u \<longrightarrow> t \<le> u))"
proof (cases "getNextItem now q")
  case (Pair n q')
  with getNextItem_abs(2) [OF inv] getNextItem_wait [OF inv] show ?thesis
    by (cases n) (simp_all del: absQueue_simps)
qed

lemma getNextItem_earliest_witness:
  "case fst (getNextItem (GoTime 5) (New (0::nat))) of
      Take a \<Rightarrow> (\<exists>t\<le>GoTime 5. pending (absQueue (New (0::nat))) (key (heap (New (0::nat)) a)) = Some t \<and>
                  (\<forall>j u. pending (absQueue (New (0::nat))) j = Some u \<longrightarrow> t \<le> u))
    | WaitToken \<Rightarrow> pending (absQueue (New (0::nat))) = Map.empty
    | WaitTimer d \<Rightarrow> 0 < d \<and> (\<exists>k t. pending (absQueue (New (0::nat))) k = Some t \<and> d = Sub t (GoTime 5) \<and> GoTime 5 < t \<and>
                  (\<forall>j u. pending (absQueue (New (0::nat))) j = Some u \<longrightarrow> t \<le> u))"
  by (rule getNextItem_earliest) (rule queue_inv_New)

end
