(* ===== verification/WorkQueue_Workers.thy ===== *)
theory WorkQueue_Workers
  imports WorkQueue_Spec
begin

text \<open>
  The worker pool of queue.go: any number of workers run \<open>handleQueueItem\<close> against one
  queue while clients enqueue and forget keys and time passes. Each rule is one atomic action:
  a section under \<open>lock\<close>, an operation on the weighted semaphore, a branch of a
  \<open>select\<close>. The theorems are rule inductions over all interleavings: no key is processed
  twice at the same time, a token is never missed by a sleeping worker, an owed key stays owed
  until it is started or forgotten, and no key is retried more than \<open>MaxRetries\<close> times.
\<close>

section \<open>States and steps\<close>

text \<open>
  Where a worker is: before \<open>Acquire\<close>, in front of the lock inside the loop of
  \<open>getNextItem\<close>, in one of its two selects (the second with the deadline of its timer), in
  the handler, or returned.
\<close>

datatype phase = Idle | Looking | AwaitToken | AwaitTimer gotime | Processing addr | Stopped

record 'r pool =
  workQueue :: "'r queue"
  worker :: "nat \<Rightarrow> phase"
  waitForNextItemSemaphore :: "nat option" \<comment> \<open>the worker that holds it\<close>
  clock :: gotime
  ctxDone :: bool

datatype action =
    Acquire nat
  | Look nat
  | WakeToken nat
  | WakeTimer nat
  | Quit nat
  | Finish nat "goerror option" gotime
  | Insert string bool "duration option"
  | Drop string
  | Tick gotime
  | Cancel

text \<open>What \<open>getNextItem\<close> does with one look at the queue.\<close>

definition afterLook :: "nat \<Rightarrow> nextItem \<Rightarrow> 'r queue \<Rightarrow> 'r pool \<Rightarrow> 'r pool" where
  "afterLook i n q p =
     (case n of
        WaitToken \<Rightarrow> p\<lparr>workQueue := q, worker := (worker p)(i := AwaitToken)\<rparr>
      | WaitTimer d \<Rightarrow>
          p\<lparr>workQueue := q, worker := (worker p)(i := AwaitTimer (Add (clock p) d))\<rparr>
      | Take a \<Rightarrow>
          p\<lparr>workQueue := q, worker := (worker p)(i := Processing a),
            waitForNextItemSemaphore := None\<rparr>)"

definition sleeping :: "phase \<Rightarrow> bool" where
  "sleeping w \<longleftrightarrow> (case w of AwaitToken \<Rightarrow> True | AwaitTimer _ \<Rightarrow> True | _ \<Rightarrow> False)"

lemma sleeping_simps [simp]:
  "sleeping AwaitToken" "sleeping (AwaitTimer t)" "\<not> sleeping Idle" "\<not> sleeping Looking"
  "\<not> sleeping (Processing a)" "\<not> sleeping Stopped"
  by (simp_all add: sleeping_def)

inductive step ::
  "'r rateLimiter \<Rightarrow> retryFunc \<Rightarrow> 'r pool \<Rightarrow> action \<Rightarrow> 'r pool \<Rightarrow> bool"
  for rl :: "'r rateLimiter" and retry :: retryFunc
where
  acquire: "worker p i = Idle \<Longrightarrow> waitForNextItemSemaphore p = None \<Longrightarrow>
    step rl retry p (Acquire i)
      (p\<lparr>worker := (worker p)(i := Looking), waitForNextItemSemaphore := Some i\<rparr>)"
| acquireFails: "worker p i = Idle \<Longrightarrow> ctxDone p \<Longrightarrow>
    step rl retry p (Quit i) (p\<lparr>worker := (worker p)(i := Stopped)\<rparr>)"
| look: "worker p i = Looking \<Longrightarrow> getNextItem (clock p) (workQueue p) = (n, q) \<Longrightarrow>
    step rl retry p (Look i) (afterLook i n q p)"
| token: "sleeping (worker p i) \<Longrightarrow> wakeupCh (workQueue p) \<Longrightarrow>
    step rl retry p (WakeToken i)
      (p\<lparr>worker := (worker p)(i := Looking),
         workQueue := (workQueue p)\<lparr>wakeupCh := False\<rparr>\<rparr>)"
| timer: "worker p i = AwaitTimer t \<Longrightarrow> t \<le> clock p \<Longrightarrow>
    step rl retry p (WakeTimer i) (p\<lparr>worker := (worker p)(i := Looking)\<rparr>)"
| cancelled: "sleeping (worker p i) \<Longrightarrow> ctxDone p \<Longrightarrow>
    step rl retry p (Quit i)
      (p\<lparr>worker := (worker p)(i := Stopped), waitForNextItemSemaphore := None\<rparr>)"
| finish: "worker p i = Processing a \<Longrightarrow>
    step rl retry p (Finish i err nowUntil)
      (p\<lparr>worker := (worker p)(i := Idle),
         workQueue := snd (handleQueueItemObject rl retry nowUntil (clock p) err a (workQueue p))\<rparr>)"
| insertKey: "step rl retry p (Insert k ratelimit delay)
      (p\<lparr>workQueue := snd (insertItem rl (clock p) k ratelimit delay (workQueue p))\<rparr>)"
| dropKey: "step rl retry p (Drop k) (p\<lparr>workQueue := Forget k (workQueue p)\<rparr>)"
| tick: "clock p \<le> t \<Longrightarrow> step rl retry p (Tick t) (p\<lparr>clock := t\<rparr>)"
| cancel: "step rl retry p Cancel (p\<lparr>ctxDone := True\<rparr>)"

inductive_cases stepE: "step rl retry p ev p'"

inductive_simps step_Acquire: "step rl retry p (Acquire i) p'"
inductive_simps step_Look: "step rl retry p (Look i) p'"
inductive_simps step_WakeToken: "step rl retry p (WakeToken i) p'"

text \<open>\<open>Run\<close> with the given number of workers on a fresh queue.\<close>

definition initialPool :: "'r \<Rightarrow> nat \<Rightarrow> gotime \<Rightarrow> 'r pool" where
  "initialPool r n now =
     \<lparr>workQueue = New r, worker = (\<lambda>i. if i < n then Idle else Stopped),
      waitForNextItemSemaphore = None, clock = now, ctxDone = False\<rparr>"

inductive reachable :: "'r rateLimiter \<Rightarrow> retryFunc \<Rightarrow> 'r pool \<Rightarrow> bool"
  for rl :: "'r rateLimiter" and retry :: retryFunc
where
  start: "reachable rl retry (initialPool r n now)"
| step: "reachable rl retry p \<Longrightarrow> step rl retry p ev p' \<Longrightarrow> reachable rl retry p'"

section \<open>What the operations leave alone\<close>

text \<open>
  Existing items keep their keys and, unless a finished item is put back, their number of
  retries.
\<close>

definition keepsItems :: "'r queue \<Rightarrow> 'r queue \<Rightarrow> bool" where
  "keepsItems q q' \<longleftrightarrow> fresh q \<le> fresh q' \<and>
     (\<forall>b<fresh q. key (heap q' b) = key (heap q b)) \<and>
     (\<forall>b. requeues (heap q' b) = requeues (heap q b) \<or> requeues (heap q' b) = 0)"

lemma keepsItems_refl [simp]: "keepsItems q q"
  by (simp add: keepsItems_def)

lemma insertItem_keeps:
  "keepsItems q (snd (insertItem rl now k ratelimit delay q))"
  by (auto simp: insertItem_def insertProcessing_def adjustPosition_def insertNew_def
      keepsItems_def Let_def split: option.split prod.split)

lemma insertItem_frame:
  "itemsBeingProcessed (snd (insertItem rl now k ratelimit delay q)) = itemsBeingProcessed q"
  "wakeupCh (snd (insertItem rl now k ratelimit delay q))"
  by (auto simp: insertItem_def insertProcessing_def adjustPosition_def insertNew_def
      Let_def split: option.split prod.split)

lemma Forget_frame:
  "itemsBeingProcessed (Forget k q) = itemsBeingProcessed q"
  "wakeupCh (Forget k q) = wakeupCh q" "keepsItems q (Forget k q)"
  by (auto simp: Forget_def keepsItems_def split: option.split)

lemma getNextItem_frame:
  "keepsItems q (snd (getNextItem now q))" "wakeupCh (snd (getNextItem now q)) = wakeupCh q"
  by (auto simp: getNextItem_def keepsItems_def Let_def split: list.split)

lemma finishRedirty_frame:
  "itemsBeingProcessed (finishRedirty rl nowUntil now qi q) = itemsBeingProcessed q"
  "keepsItems q (finishRedirty rl nowUntil now qi q)"
  "wakeupCh (finishRedirty rl nowUntil now qi q) \<or>
   finishRedirty rl nowUntil now qi q = q\<lparr>limiter := rlForget rl (key qi) (limiter q)\<rparr>"
proof -
  let ?q = "q\<lparr>limiter := rlForget rl (key qi) (limiter q)\<rparr>"
  let ?ins = "insertItem rl now (key qi) (redirtiedWithRatelimit qi)
      (Some (Sub (redirtiedAt qi) nowUntil)) ?q"
  obtain a' q' where ins: "?ins = (a', q')" by fastforce
  note facts = insertItem_frame [of rl now "key qi" "redirtiedWithRatelimit qi"
      "Some (Sub (redirtiedAt qi) nowUntil)" ?q, unfolded ins]
    insertItem_keeps [of ?q rl now "key qi" "redirtiedWithRatelimit qi"
      "Some (Sub (redirtiedAt qi) nowUntil)", unfolded ins]
  show "itemsBeingProcessed (finishRedirty rl nowUntil now qi q) = itemsBeingProcessed q"
    and "wakeupCh (finishRedirty rl nowUntil now qi q) \<or>
      finishRedirty rl nowUntil now qi q = ?q"
    using facts ins by (simp_all add: finishRedirty_def Let_def)
  show "keepsItems q (finishRedirty rl nowUntil now qi q)"
    using facts ins by (auto simp: finishRedirty_def keepsItems_def Let_def)
qed


lemma handle_frame_proc:
  "itemsBeingProcessed (snd (handleQueueItemObject rl retry nowUntil now err a q)) =
     (itemsBeingProcessed q)(key (heap q a) := None)"
  by (auto simp: handleQueueItemObject_def Let_def finishRedirty_frame
      insertItem_frame [of rl _ _ _ _ "q\<lparr>itemsBeingProcessed := _\<rparr>", simplified]
      prod.case_eq_if split: option.split)

lemma handle_frame_key:
  "fresh q \<le> fresh (snd (handleQueueItemObject rl retry nowUntil now err a q))"
  "b < fresh q \<Longrightarrow>
     key (heap (snd (handleQueueItemObject rl retry nowUntil now err a q)) b) = key (heap q b)"
proof -
  let ?q = "q\<lparr>itemsBeingProcessed := (itemsBeingProcessed q)(key (heap q a) := None)\<rparr>"
  have "keepsItems q r \<longleftrightarrow> keepsItems ?q r" for r by (simp add: keepsItems_def)
  then have *: "keepsItems q (finishRedirty rl nowUntil now qi ?q)"
    "keepsItems q (snd (insertItem rl now k ratelimit delay ?q))" for k ratelimit delay qi
    by (simp_all add: finishRedirty_frame insertItem_keeps)
  show "fresh q \<le> fresh (snd (handleQueueItemObject rl retry nowUntil now err a q))"
    "b < fresh q \<Longrightarrow>
     key (heap (snd (handleQueueItemObject rl retry nowUntil now err a q)) b) = key (heap q b)"
    using * unfolding keepsItems_def
    by (auto simp: handleQueueItemObject_def Let_def prod.case_eq_if split: option.split)
qed

text \<open>A finished handler signals the sleeping worker whenever it puts a key back.\<close>

lemma handle_frame_wakeup:
  fixes q :: "'r queue"
  defines "q' \<equiv> \<lambda>rl retry nowUntil now err a.
    snd (handleQueueItemObject rl retry nowUntil now err a q)"
  shows "wakeupCh (q' rl retry nowUntil now err a) \<or>
    (items (q' rl retry nowUntil now err a) = items q \<and>
     heap (q' rl retry nowUntil now err a) = heap q \<and>
     wakeupCh (q' rl retry nowUntil now err a) = wakeupCh q)"
proof -
  let ?q = "q\<lparr>itemsBeingProcessed := (itemsBeingProcessed q)(key (heap q a) := None)\<rparr>"
  have "wakeupCh (finishRedirty rl nowUntil now qi ?q) \<or>
     (items (finishRedirty rl nowUntil now qi ?q) = items q \<and>
      heap (finishRedirty rl nowUntil now qi ?q) = heap q \<and>
      wakeupCh (finishRedirty rl nowUntil now qi ?q) = wakeupCh q)" for qi
    using finishRedirty_frame(3) [of rl nowUntil now qi ?q] by auto
  moreover have "wakeupCh (snd (insertItem rl now k ratelimit delay ?q))" for k ratelimit delay
    by (rule insertItem_frame)
  ultimately show ?thesis
    by (auto simp: q'_def handleQueueItemObject_def Let_def prod.case_eq_if split: option.split)
qed

section \<open>The invariant of the pool\<close>

definition holds :: "phase \<Rightarrow> bool" where
  "holds w \<longleftrightarrow> w = Looking \<or> sleeping w"

text \<open>
  A sleeping worker will wake in time for the front of the list: there is a token, or the list
  is empty, or its timer fires no later than the front is due.
\<close>

definition willWake :: "phase \<Rightarrow> 'r queue \<Rightarrow> bool" where
  "willWake w q \<longleftrightarrow> wakeupCh q \<or>
     (case w of
        AwaitToken \<Rightarrow> items q = []
      | AwaitTimer t \<Rightarrow> (\<forall>a\<in>set (items q). t \<le> planned q a)
      | _ \<Rightarrow> True)"

definition pool_inv :: "'r pool \<Rightarrow> bool" where
  "pool_inv p \<longleftrightarrow>
     queue_inv (workQueue p) \<and>
     (\<forall>i a. worker p i = Processing a \<longrightarrow>
        isProcessing (workQueue p) a \<and> a < fresh (workQueue p)) \<and>
     (\<forall>i j a. worker p i = Processing a \<longrightarrow> worker p j = Processing a \<longrightarrow> i = j) \<and>
     (\<forall>k a. itemsBeingProcessed (workQueue p) k = Some a \<longrightarrow> (\<exists>i. worker p i = Processing a)) \<and>
     (\<forall>i. waitForNextItemSemaphore p = Some i \<longleftrightarrow> holds (worker p i)) \<and>
     (\<forall>i. willWake (worker p i) (workQueue p))"

lemma pool_invD:
  assumes "pool_inv p"
  shows pool_queue: "queue_inv (workQueue p)"
    and pool_processing: "worker p i = Processing a \<Longrightarrow>
          isProcessing (workQueue p) a \<and> a < fresh (workQueue p)"
    and pool_unique: "worker p i = Processing a \<Longrightarrow> worker p j = Processing a \<Longrightarrow> i = j"
    and pool_owner: "itemsBeingProcessed (workQueue p) k = Some a \<Longrightarrow> \<exists>i. worker p i = Processing a"
    and pool_semaphore: "waitForNextItemSemaphore p = Some i \<longleftrightarrow> holds (worker p i)"
    and pool_wakes: "willWake (worker p i) (workQueue p)"
  using assms unfolding pool_inv_def by blast+

lemma pool_invI:
  assumes "queue_inv (workQueue p)"
    "\<And>i a. worker p i = Processing a \<Longrightarrow>
        isProcessing (workQueue p) a \<and> a < fresh (workQueue p)"
    "\<And>i j a. worker p i = Processing a \<Longrightarrow> worker p j = Processing a \<Longrightarrow> i = j"
    "\<And>k a. itemsBeingProcessed (workQueue p) k = Some a \<Longrightarrow> \<exists>i. worker p i = Processing a"
    "\<And>i. waitForNextItemSemaphore p = Some i \<longleftrightarrow> holds (worker p i)"
    "\<And>i. willWake (worker p i) (workQueue p)"
  shows "pool_inv p"
  unfolding pool_inv_def using assms by blast

lemma holds_simps [simp]:
  "holds Looking" "holds AwaitToken" "holds (AwaitTimer t)" "\<not> holds Idle"
  "\<not> holds (Processing a)" "\<not> holds Stopped"
  by (simp_all add: holds_def)

lemma holds_sleeping: "sleeping w \<Longrightarrow> holds w"
  by (simp add: holds_def)

lemma willWake_awake [simp]: "\<not> sleeping w \<Longrightarrow> willWake w q"
  by (cases w) (simp_all add: willWake_def)

lemma willWake_token: "wakeupCh q \<Longrightarrow> willWake w q"
  by (simp add: willWake_def)

text \<open>Two workers never hold the semaphore at once.\<close>

lemma holds_unique: "pool_inv p \<Longrightarrow> holds (worker p i) \<Longrightarrow> holds (worker p j) \<Longrightarrow> i = j"
  using pool_semaphore [of p i] pool_semaphore [of p j] by simp

text \<open>
  Operations on the queue that take no item: the workers do not move, and those that sleep
  still wake in time.
\<close>

lemma pool_inv_queue:
  assumes inv: "pool_inv p" and q: "queue_inv q"
    and proc: "itemsBeingProcessed q = itemsBeingProcessed (workQueue p)"
    and keeps: "keepsItems (workQueue p) q"
    and wakes: "\<And>w. willWake w (workQueue p) \<Longrightarrow> willWake w q"
  shows "pool_inv (p\<lparr>workQueue := q\<rparr>)"
proof (rule pool_invI)
  fix i a assume "worker (p\<lparr>workQueue := q\<rparr>) i = Processing a"
  then have "isProcessing (workQueue p) a \<and> a < fresh (workQueue p)"
    using pool_processing [OF inv] by simp
  with proc keeps show "isProcessing (workQueue (p\<lparr>workQueue := q\<rparr>)) a \<and>
      a < fresh (workQueue (p\<lparr>workQueue := q\<rparr>))"
    by (auto simp: isProcessing_def keepsItems_def)
qed (use inv q proc wakes in \<open>auto dest: pool_invD\<close>)


text \<open>A worker that changes its place without touching the queue.\<close>

lemma pool_inv_move:
  assumes inv: "pool_inv p" and w: "\<And>a. w \<noteq> Processing a" "\<And>a. worker p i \<noteq> Processing a"
    and sem: "s = (if holds w then Some i else if holds (worker p i) then None
                   else waitForNextItemSemaphore p)"
    and free: "holds w \<Longrightarrow> holds (worker p i) \<or> waitForNextItemSemaphore p = None"
    and wakes: "willWake w (workQueue p)"
  shows "pool_inv (p\<lparr>worker := (worker p)(i := w), waitForNextItemSemaphore := s\<rparr>)"
proof (rule pool_invI)
  let ?p = "p\<lparr>worker := (worker p)(i := w), waitForNextItemSemaphore := s\<rparr>"
  show "waitForNextItemSemaphore ?p = Some j \<longleftrightarrow> holds (worker ?p j)" for j
    using sem free holds_unique [OF inv, of i j] pool_semaphore [OF inv, of j]
      pool_semaphore [OF inv, of i] by auto
  show "\<exists>j. worker ?p j = Processing a"
    if proc: "itemsBeingProcessed (workQueue ?p) k = Some a" for k a
  proof -
    from proc obtain j where "worker p j = Processing a" using pool_owner [OF inv, of k a] by auto
    with w(2) show ?thesis by (intro exI [of _ j]) auto
  qed
  show "j = j'" if "worker ?p j = Processing a" "worker ?p j' = Processing a" for j j' a
    using that w pool_unique [OF inv] by (auto split: if_splits)
qed (use inv w wakes in \<open>auto dest: pool_invD split: if_splits\<close>)

lemma pool_inv_acquire:
  assumes "pool_inv p" "worker p i = Idle" "waitForNextItemSemaphore p = None"
  shows "pool_inv (p\<lparr>worker := (worker p)(i := Looking), waitForNextItemSemaphore := Some i\<rparr>)"
  by (rule pool_inv_move) (use assms in auto)

lemma pool_inv_quit:
  assumes "pool_inv p" "worker p i = Idle"
  shows "pool_inv (p\<lparr>worker := (worker p)(i := Stopped)\<rparr>)"
  using pool_inv_move [OF assms(1), of Stopped i "waitForNextItemSemaphore p"] assms by simp

lemma pool_inv_cancelled:
  assumes "pool_inv p" "sleeping (worker p i)"
  shows "pool_inv (p\<lparr>worker := (worker p)(i := Stopped), waitForNextItemSemaphore := None\<rparr>)"
  by (rule pool_inv_move) (use assms holds_sleeping in auto)

lemma holds_not_processing: "holds w \<Longrightarrow> w \<noteq> Processing a"
  by auto

lemma pool_inv_stay:
  assumes "pool_inv p" "holds (worker p i)" "holds w" "willWake w (workQueue p)"
  shows "pool_inv (p\<lparr>worker := (worker p)(i := w)\<rparr>)"
  using pool_inv_move [OF assms(1), of w i "waitForNextItemSemaphore p"] assms
    pool_semaphore [OF assms(1), of i] by (simp add: holds_not_processing)

lemma pool_inv_wake:
  assumes "pool_inv p" "sleeping (worker p i)"
  shows "pool_inv (p\<lparr>worker := (worker p)(i := Looking)\<rparr>)"
  by (rule pool_inv_stay [OF assms(1)]) (simp_all add: holds_sleeping assms)

lemma only_sleeper:
  assumes inv: "pool_inv p" and i: "holds (worker p i)" and j: "j \<noteq> i"
  shows "\<not> sleeping (worker p j)"
  using holds_unique [OF inv i, of j] j holds_sleeping by blast

lemma pool_inv_token:
  assumes inv: "pool_inv p" and i: "sleeping (worker p i)"
  shows "pool_inv (p\<lparr>worker := (worker p)(i := Looking),
         workQueue := (workQueue p)\<lparr>wakeupCh := False\<rparr>\<rparr>)"
proof (rule pool_invI)
  let ?p = "p\<lparr>worker := (worker p)(i := Looking)\<rparr>"
  let ?r = "p\<lparr>worker := (worker p)(i := Looking),
         workQueue := (workQueue p)\<lparr>wakeupCh := False\<rparr>\<rparr>"
  note q = pool_inv_wake [OF inv i]
  show "queue_inv (workQueue ?r)" using pool_queue [OF inv] by simp
  show "isProcessing (workQueue ?r) a \<and> a < fresh (workQueue ?r)"
    if "worker ?r j = Processing a" for j a
    using that pool_processing [OF q, of j a] by (simp add: isProcessing_def)
  show "j = j'" if "worker ?r j = Processing a" "worker ?r j' = Processing a" for j j' a
    using that pool_unique [OF q, of j a j'] by simp
  show "\<exists>j. worker ?r j = Processing a"
    if "itemsBeingProcessed (workQueue ?r) k = Some a" for k a
    using that pool_owner [OF q, of k a] by simp
  show "waitForNextItemSemaphore ?r = Some j \<longleftrightarrow> holds (worker ?r j)" for j
    using pool_semaphore [OF q, of j] by simp
  show "willWake (worker ?r j) (workQueue ?r)" for j
    using only_sleeper [OF inv holds_sleeping [OF i], of j] by simp
qed

text \<open>Looking at the queue, with its three outcomes.\<close>

lemma Add_Sub_le: "t \<le> u \<Longrightarrow> Add t (Sub u t) \<le> u"
  by (auto simp: gotime_order Sub_def minDuration_def maxDuration_def)

lemma look_willWake:
  assumes inv: "queue_inv q"
  shows "getNextItem now q = (WaitToken, q') \<Longrightarrow> willWake AwaitToken q"
    and "getNextItem now q = (WaitTimer d, q') \<Longrightarrow> willWake (AwaitTimer (Add now d)) q"
proof -
  show "willWake AwaitToken q" if "getNextItem now q = (WaitToken, q')"
    using that by (cases "items q") (auto simp: getNextItem_def willWake_def Let_def split: if_splits)
  assume wait: "getNextItem now q = (WaitTimer d, q')"
  then obtain a rest where front: "items q = a # rest"
    by (cases "items q") (simp_all add: getNextItem_def)
  then have d: "d = Sub (planned q a) now" and "now < planned q a"
    using wait Sub_le_0_iff [of "planned q a" now]
    by (auto simp: getNextItem_def Let_def not_le split: if_splits)
  then have "Add now d \<le> planned q a" by (simp add: Add_Sub_le)
  moreover have "planned q a \<le> planned q b" if "b \<in> set (items q)" for b
    using inv_sorted [OF inv] that by (auto simp: front)
  ultimately show "willWake (AwaitTimer (Add now d)) q"
    by (auto simp: willWake_def intro: order_trans)
qed

lemma getNextItem_same:
  "getNextItem now q = (WaitToken, q') \<Longrightarrow> q' = q"
  "getNextItem now q = (WaitTimer d, q') \<Longrightarrow> q' = q"
  by (cases "items q"; auto simp: getNextItem_def Let_def split: if_splits)+

lemma pool_inv_take:
  assumes inv: "pool_inv p" and i: "worker p i = Looking"
    and take: "getNextItem (clock p) (workQueue p) = (Take a, q)"
  shows "pool_inv (p\<lparr>workQueue := q, worker := (worker p)(i := Processing a),
            waitForNextItemSemaphore := None\<rparr>)" (is "pool_inv ?p")
proof (rule pool_invI)
  note Q = pool_queue [OF inv] and T = getNextItem_Take [OF pool_queue [OF inv] take]
  let ?k = "key (heap (workQueue p) a)"
  have a: "a \<in> set (items (workQueue p))" using T(1) by simp
  have idle: "itemsBeingProcessed (workQueue p) ?k = None"
  proof (cases "itemsBeingProcessed (workQueue p) ?k")
    case (Some b)
    then show ?thesis using inv_processing [OF Q Some] inv_index [OF Q, of ?k a] a by simp
  qed simp
  have fr: "fresh q = fresh (workQueue p)"
    using take by (auto simp: getNextItem_def Let_def split: list.splits if_splits)
  show "queue_inv (workQueue ?p)"
    using getNextItem_inv [OF Q, of "clock p"] take by simp
  show "isProcessing (workQueue ?p) b \<and> b < fresh (workQueue ?p)"
    if "worker ?p j = Processing b" for j b
    using that T inv_item [OF Q a] pool_processing [OF inv, of j b] idle
    by (auto simp: isProcessing_def fr split: if_splits)
  have "worker p j \<noteq> Processing a" for j
    using pool_processing [OF inv, of j a] idle by (auto simp: isProcessing_def)
  then show "j = j'" if "worker ?p j = Processing b" "worker ?p j' = Processing b" for j j' b
    using that pool_unique [OF inv] by (auto split: if_splits)
  show "\<exists>j. worker ?p j = Processing b" if "itemsBeingProcessed (workQueue ?p) k = Some b" for k b
  proof (cases "b = a")
    case False
    then have "itemsBeingProcessed (workQueue p) k = Some b" using that T(2) by (auto split: if_splits)
    then obtain j where "worker p j = Processing b" using pool_owner [OF inv] by blast
    with i show ?thesis by (intro exI [of _ j]) auto
  qed (auto intro: exI [of _ i])
  show "waitForNextItemSemaphore ?p = Some j \<longleftrightarrow> holds (worker ?p j)" for j
    using holds_unique [OF inv, of i j] i by auto
  show "willWake (worker ?p j) (workQueue ?p)" for j
    using only_sleeper [OF inv, of i j] i by (cases "j = i") simp_all
qed

lemma pool_inv_look:
  assumes inv: "pool_inv p" and i: "worker p i = Looking"
    and look: "getNextItem (clock p) (workQueue p) = (n, q)"
  shows "pool_inv (afterLook i n q p)"
proof (cases n)
  case WaitToken
  have "q = workQueue p" "willWake AwaitToken (workQueue p)"
    using getNextItem_same(1) look_willWake(1) [OF pool_queue [OF inv]] look WaitToken by blast+
  then show ?thesis
    using pool_inv_stay [OF inv, of i AwaitToken] i WaitToken by (simp add: afterLook_def)
next
  case (WaitTimer d)
  have "q = workQueue p" "willWake (AwaitTimer (Add (clock p) d)) (workQueue p)"
    using getNextItem_same(2) look_willWake(2) [OF pool_queue [OF inv]] look WaitTimer by blast+
  then show ?thesis
    using pool_inv_stay [OF inv, of i "AwaitTimer (Add (clock p) d)"] i WaitTimer
    by (simp add: afterLook_def)
next
  case (Take a)
  then show ?thesis using pool_inv_take [OF inv i] look by (simp add: afterLook_def)
qed

lemma pool_inv_finish:
  assumes inv: "pool_inv p" and i: "worker p i = Processing a"
    and q: "q = snd (handleQueueItemObject rl retry nowUntil now err a (workQueue p))"
  shows "pool_inv (p\<lparr>worker := (worker p)(i := Idle), workQueue := q\<rparr>)" (is "pool_inv ?p")
proof (rule pool_invI)
  note Q = pool_queue [OF inv]
  have mine: "itemsBeingProcessed (workQueue p) (key (heap (workQueue p) a)) = Some a"
    using pool_processing [OF inv i] by (simp add: isProcessing_def)
  have proc: "itemsBeingProcessed q = (itemsBeingProcessed (workQueue p))(key (heap (workQueue p) a) := None)"
    unfolding q by (rule handle_frame_proc)
  show "queue_inv (workQueue ?p)" using handleQueueItemObject_inv [OF Q] by (simp add: q)
  show "isProcessing (workQueue ?p) b \<and> b < fresh (workQueue ?p)"
    if w: "worker ?p j = Processing b" for j b
  proof -
    have ji: "j \<noteq> i" and j: "worker p j = Processing b" using w by (auto split: if_splits)
    have b: "isProcessing (workQueue p) b" "b < fresh (workQueue p)" "b \<noteq> a"
      using pool_processing [OF inv j] pool_unique [OF inv j, of i] ji i by blast+
    have "key (heap (workQueue p) b) \<noteq> key (heap (workQueue p) a)"
      using mine b unfolding isProcessing_def by (metis option.inject)
    moreover have "key (heap q b) = key (heap (workQueue p) b)" "b < fresh q"
      using handle_frame_key(1) [of "workQueue p" rl retry nowUntil now err a]
        handle_frame_key(2) [OF b(2), of rl retry nowUntil now err a] b(2) by (simp_all add: q)
    ultimately show ?thesis using b(1) by (simp add: isProcessing_def proc)
  qed
  show "j = j'" if "worker ?p j = Processing b" "worker ?p j' = Processing b" for j j' b
    using that pool_unique [OF inv] by (auto split: if_splits)
  show "\<exists>j. worker ?p j = Processing b" if "itemsBeingProcessed (workQueue ?p) k = Some b" for k b
  proof -
    from that have k: "itemsBeingProcessed (workQueue p) k = Some b" "k \<noteq> key (heap (workQueue p) a)"
      by (auto simp: proc split: if_splits)
    then obtain j where "worker p j = Processing b" using pool_owner [OF inv] by blast
    moreover have "b \<noteq> a" using k inv_processing [OF Q k(1)] by auto
    ultimately show ?thesis using i by (intro exI [of _ j]) auto
  qed
  show "waitForNextItemSemaphore ?p = Some j \<longleftrightarrow> holds (worker ?p j)" for j
    using pool_semaphore [OF inv, of j] i by auto
  show "willWake (worker ?p j) (workQueue ?p)" for j
    using handle_frame_wakeup [of rl retry nowUntil now err a "workQueue p"] pool_wakes [OF inv, of j]
    by (auto simp: q willWake_def split: phase.splits)
qed

lemma pool_inv_insert:
  assumes inv: "pool_inv p"
  shows "pool_inv (p\<lparr>workQueue := snd (insertItem rl now k ratelimit delay (workQueue p))\<rparr>)"
  by (rule pool_inv_queue [OF inv])
    (simp_all add: insertItem_snd_inv pool_queue [OF inv] insertItem_frame insertItem_keeps willWake_token)

lemma pool_inv_drop:
  assumes inv: "pool_inv p"
  shows "pool_inv (p\<lparr>workQueue := Forget k (workQueue p)\<rparr>)"
proof (rule pool_inv_queue [OF inv])
  show "willWake w (Forget k (workQueue p))" if "willWake w (workQueue p)" for w
    using that set_remove1_subset
    by (fastforce simp: willWake_def Forget_def split: option.splits phase.splits)
qed (simp_all add: Forget_inv pool_queue [OF inv] Forget_frame)

lemma pool_inv_step:
  assumes inv: "pool_inv p" and step: "step rl retry p ev p'"
  shows "pool_inv p'"
  using step
proof cases
  case tick
  with inv show ?thesis by (simp add: pool_inv_def)
next
  case cancel
  with inv show ?thesis by (simp add: pool_inv_def)
next
  case (timer i t)
  then show ?thesis using pool_inv_wake [OF inv, of i] by simp
next
  case (finish i a err nowUntil)
  then show ?thesis using pool_inv_finish [OF inv finish(3) refl] by blast
next
  case (look i n q)
  then show ?thesis using pool_inv_look [OF inv] by blast
qed (simp_all add: inv pool_inv_acquire pool_inv_quit pool_inv_token
    pool_inv_cancelled pool_inv_insert pool_inv_drop)

lemma pool_inv_initial: "pool_inv (initialPool r n now)"
  by (simp add: pool_inv_def initialPool_def queue_inv_New) (simp add: New_def)

lemma reachable_inv: "reachable rl retry p \<Longrightarrow> pool_inv p"
  by (induction rule: reachable.induct) (auto intro: pool_inv_initial pool_inv_step)


section \<open>Safety\<close>

text \<open>C15. In every reachable state of the worker pool, two workers that are in a handler work on
  different keys: a key is never processed concurrently.\<close>

theorem processing_is_exclusive:
  assumes "reachable rl retry p" "worker p i = Processing a" "worker p j = Processing b"
    "key (heap (workQueue p) a) = key (heap (workQueue p) b)"
  shows "i = j"
proof -
  note inv = reachable_inv [OF assms(1)]
  have "a = b"
    using pool_processing [OF inv assms(2)] pool_processing [OF inv assms(3)] assms(4)
    by (simp add: isProcessing_def)
  with pool_unique [OF inv] assms(2,3) show ?thesis by blast
qed

text \<open>
  A concrete pool of two workers: \<open>demo2\<close> is reached by enqueueing a key and letting the
  first worker take it.
\<close>

definition demoLimiter :: "nat rateLimiter" where
  "demoLimiter = \<lparr>When = (\<lambda>_ n. (0, Suc n)), rlForget = (\<lambda>_ _. 0)\<rparr>"

definition demo1 :: "nat pool" where
  "demo1 = (initialPool 0 2 (GoTime 5))\<lparr>workQueue :=
     snd (insertItem demoLimiter (GoTime 5) ''p'' True None (New 0))\<rparr>"

definition demo2 :: "nat pool" where
  "demo2 = demo1\<lparr>worker := (worker demo1)(0 := Looking), waitForNextItemSemaphore := Some 0\<rparr>"

definition demo3 :: "nat pool" where
  "demo3 = afterLook 0 (fst (getNextItem (clock demo2) (workQueue demo2)))
     (snd (getNextItem (clock demo2) (workQueue demo2))) demo2"

lemmas demo_defs = demo1_def demo2_def demo3_def demoLimiter_def initialPool_def afterLook_def
  New_def insertItem_def insertNew_def scheduleNew_def newItem_def getNextItem_def go_defs

lemma demo_reachable:
  "reachable demoLimiter retry demo1" "reachable demoLimiter retry demo2"
  "reachable demoLimiter retry demo3"
proof -
  show 1: "reachable demoLimiter retry demo1"
    using reachable.step [OF reachable.start insertKey, of demoLimiter retry 0 2 "GoTime 5" "''p''" True None]
    by (simp add: demo1_def initialPool_def)
  show 2: "reachable demoLimiter retry demo2"
    unfolding demo2_def
    by (rule reachable.step [OF 1]) (rule acquire; simp add: demo1_def initialPool_def)
  show "reachable demoLimiter retry demo3"
    unfolding demo3_def
    by (rule reachable.step [OF 2]) (rule look; simp add: demo2_def)
qed

lemma demo_values:
  "items (workQueue demo2) = [0]" "planned (workQueue demo2) 0 = GoTime 5"
  "clock demo2 = GoTime 5" "worker demo2 0 = Looking"
  "worker demo3 0 = Processing 0" "key (heap (workQueue demo3) 0) = ''p''"
  "itemsInQueue (workQueue demo2) ''p'' = Some 0"
  "itemsInQueue (workQueue demo3) ''p'' = None"
  "itemsBeingProcessed (workQueue demo2) = Map.empty"
  by (simp_all add: demo_defs Let_def)

lemma processing_is_exclusive_witness:
  "worker demo3 0 = Processing 0 \<and> (0::nat) = 0"
  using processing_is_exclusive [OF demo_reachable(3) [where retry = DefaultRetryFunc]
      demo_values(5) demo_values(5) refl] demo_values(5) by simp

section \<open>Progress\<close>

fun steps ::
  "'r rateLimiter \<Rightarrow> retryFunc \<Rightarrow> 'r pool \<Rightarrow> action list \<Rightarrow> 'r pool \<Rightarrow> bool" where
  "steps rl retry p [] p' \<longleftrightarrow> p = p'"
| "steps rl retry p (ev # evs) p' \<longleftrightarrow> (\<exists>m. step rl retry p ev m \<and> steps rl retry m evs p')"

definition ownActions :: "nat \<Rightarrow> action set" where
  "ownActions i = {Acquire i, Look i, WakeToken i, WakeTimer i}"

lemma look_takes:
  assumes "worker p i = Looking" "items (workQueue p) = a # rest"
    "planned (workQueue p) a \<le> clock p"
  shows "\<exists>p'. step rl retry p (Look i) p' \<and> worker p' i = Processing a"
  using assms by (auto simp: step_Look getNextItem_def afterLook_def Sub_le_0_iff Let_def)

lemma sleeper_can_wake:
  assumes inv: "pool_inv p" and i: "sleeping (worker p i)"
    and due: "items (workQueue p) = a # rest" "planned (workQueue p) a \<le> clock p"
  shows "\<exists>ev\<in>ownActions i. \<exists>q. step rl retry p ev (p\<lparr>worker := (worker p)(i := Looking), workQueue := q\<rparr>) \<and>
    items q = items (workQueue p) \<and> heap q = heap (workQueue p)"
proof (cases "wakeupCh (workQueue p)")
  case True
  from token [OF i True, of rl retry] show ?thesis by (force simp: ownActions_def)
next
  case False
  then obtain t where t: "worker p i = AwaitTimer t" "t \<le> clock p"
    using pool_wakes [OF inv, of i] i due
    by (cases "worker p i") (auto simp: willWake_def intro: order_trans)
  have "step rl retry p (WakeTimer i)
     (p\<lparr>worker := (worker p)(i := Looking), workQueue := workQueue p\<rparr>)"
    using timer [OF t, of rl retry] by simp
  then show ?thesis unfolding ownActions_def by blast
qed

lemma sleeper_takes:
  assumes inv: "pool_inv p" and i: "sleeping (worker p i)"
    and due: "items (workQueue p) = a # rest" "planned (workQueue p) a \<le> clock p"
  shows "\<exists>evs p'. set evs \<subseteq> ownActions i \<and> length evs \<le> 3 \<and>
    steps rl retry p evs p' \<and> worker p' i = Processing a"
proof -
  obtain ev q where ev: "ev \<in> ownActions i"
    "step rl retry p ev (p\<lparr>worker := (worker p)(i := Looking), workQueue := q\<rparr>)"
    and q: "items q = items (workQueue p)" "heap q = heap (workQueue p)"
    using sleeper_can_wake [OF assms] by blast
  obtain p' where "step rl retry (p\<lparr>worker := (worker p)(i := Looking), workQueue := q\<rparr>) (Look i) p'"
    "worker p' i = Processing a"
    using look_takes [of "p\<lparr>worker := (worker p)(i := Looking), workQueue := q\<rparr>" i a rest rl retry]
      due q by auto
  with ev show ?thesis
    by (intro exI [of _ "[ev, Look i]"] exI [of _ p']) (auto simp: ownActions_def)
qed

lemma looker_takes:
  assumes i: "worker p i = Looking"
    and due: "items (workQueue p) = a # rest" "planned (workQueue p) a \<le> clock p"
  shows "\<exists>evs p'. set evs \<subseteq> ownActions i \<and> length evs \<le> 3 \<and>
    steps rl retry p evs p' \<and> worker p' i = Processing a"
proof -
  obtain p' where "step rl retry p (Look i) p'" "worker p' i = Processing a"
    using look_takes [OF assms, of rl retry] by blast
  then show ?thesis
    by (intro exI [of _ "[Look i]"] exI [of _ p']) (auto simp: ownActions_def)
qed

lemma idler_takes:
  assumes i: "worker p i = Idle" "waitForNextItemSemaphore p = None"
    and due: "items (workQueue p) = a # rest" "planned (workQueue p) a \<le> clock p"
  shows "\<exists>evs p'. set evs \<subseteq> ownActions i \<and> length evs \<le> 3 \<and>
    steps rl retry p evs p' \<and> worker p' i = Processing a"
proof -
  let ?m = "p\<lparr>worker := (worker p)(i := Looking), waitForNextItemSemaphore := Some i\<rparr>"
  have "step rl retry p (Acquire i) ?m" by (rule acquire [OF i])
  moreover obtain p' where "step rl retry ?m (Look i) p'" "worker p' i = Processing a"
    using look_takes [of ?m i a rest rl retry] due by auto
  ultimately show ?thesis
    by (intro exI [of _ "[Acquire i, Look i]"] exI [of _ p']) (auto simp: ownActions_def)
qed

text \<open>C17. No wake-up is lost: whenever the front of the list is due and some worker is neither in
  a handler nor stopped, one worker can take that item within three actions of its own, without
  any further enqueue, timer or other worker.\<close>

theorem due_item_is_taken:
  assumes reach: "reachable rl retry p"
    and due: "items (workQueue p) = a # rest" "planned (workQueue p) a \<le> clock p"
    and free: "worker p j = Idle \<or> holds (worker p j)"
  shows "\<exists>i evs p'. set evs \<subseteq> ownActions i \<and> length evs \<le> 3 \<and>
    steps rl retry p evs p' \<and> worker p' i = Processing a"
proof (cases "waitForNextItemSemaphore p")
  case None
  then have "worker p j = Idle" using free pool_semaphore [OF reachable_inv [OF reach], of j] by simp
  with idler_takes [OF _ None due] show ?thesis by blast
next
  case (Some i)
  then have "holds (worker p i)" using pool_semaphore [OF reachable_inv [OF reach], of i] by simp
  then consider "worker p i = Looking" | "sleeping (worker p i)" by (auto simp: holds_def)
  then show ?thesis
    using looker_takes [OF _ due] sleeper_takes [OF reachable_inv [OF reach] _ due] by cases blast+
qed

lemma due_item_is_taken_witness:
  "\<exists>i evs p'. set evs \<subseteq> ownActions i \<and> length evs \<le> 3 \<and>
    steps demoLimiter DefaultRetryFunc demo2 evs p' \<and> worker p' i = Processing 0"
  by (rule due_item_is_taken [OF demo_reachable(2), of 0 "[]" 0]) (simp_all add: demo_values)


section \<open>No key is lost\<close>

lemma owed_unschedule: "k \<noteq> j \<Longrightarrow> k \<in> owed q \<Longrightarrow> absQueue q' = unschedule j (absQueue q) \<Longrightarrow> k \<in> owed q'"
  by (auto simp: owed_def unschedule_def split: option.splits simp del: absQueue_simps)

lemma owed_cong: "absQueue q = absQueue q' \<Longrightarrow> owed q = owed q'"
  by (simp add: owed_def del: absQueue_simps)

lemma owed_finish:
  assumes inv: "queue_inv q" and a: "isProcessing q a" and k: "k \<in> owed q"
  shows "k \<in> owed (snd (handleQueueItemObject rl retry nowUntil now err a q))"
proof (cases "k = key (heap q a)")
  case True
  have "itemsBeingProcessed q k = Some a" "itemsInQueue q k = None"
    using a finish_drop(2) [OF inv a] True by (auto simp: isProcessing_def)
  then have "\<not> IsZero (redirtiedAt (heap q a))" "\<not> forget (heap q a)"
    using k by (auto simp: owed_def redirty_def split: if_splits)
  from redirty_owed [OF inv a this, of rl retry nowUntil now err] show ?thesis
    by (auto simp: owed_def True)
next
  case False
  with handle_frame [OF inv a False refl, of rl retry nowUntil now err] k show ?thesis
    unfolding owed_def by (simp del: absQueue_simps)
qed

lemma owed_look:
  assumes inv: "queue_inv q" and ret: "getNextItem now q = (n, q')" and k: "k \<in> owed q"
  shows "k \<in> owed q' \<or> (\<exists>a. n = Take a \<and> key (heap q' a) = k)"
proof (cases n)
  case (Take a)
  have "k \<in> owed q'" if "k \<noteq> key (heap q a)"
    using getNextItem_abs(1) [OF inv ret [unfolded Take]] k that
    by (auto simp: owed_def start_def simp del: absQueue_simps)
  then show ?thesis using getNextItem_Take(4) [OF inv ret [unfolded Take]] Take by auto
qed (use getNextItem_same ret k in blast)+

text \<open>C16. A key that is owed to the client (waiting, or enqueued again while its handler runs)
  stays owed under every action of every worker and client, whether handlers succeed or fail,
  until its handler is started or the key is forgotten.\<close>

theorem owed_until_started:
  assumes reach: "reachable rl retry p" and step: "step rl retry p ev p'"
    and k: "k \<in> owed (workQueue p)"
    and time: "\<And>j r d. ev = Insert j r d \<Longrightarrow> \<not> IsZero (Add (clock p) (durationDeref d 0))"
  shows "k \<in> owed (workQueue p') \<or> ev = Drop k \<or>
    (\<exists>i a. ev = Look i \<and> worker p' i = Processing a \<and> key (heap (workQueue p') a) = k)"
  using step
proof cases
  case (look i n q)
  then show ?thesis
    using owed_look [OF pool_queue [OF reachable_inv [OF reach]] look(4) k]
    by (auto simp: afterLook_def split: nextItem.split)
next
  case (finish i a err nowUntil)
  then show ?thesis
    using owed_finish [OF pool_queue [OF reachable_inv [OF reach]] _ k]
      pool_processing [OF reachable_inv [OF reach] finish(3)] by simp
next
  case (insertKey j ratelimit delay)
  with k show ?thesis
    using owed_insertItem [OF pool_queue [OF reachable_inv [OF reach]] time [OF insertKey(1)], of rl j ratelimit]
    by simp
next
  case (dropKey j)
  with k show ?thesis
    using owed_unschedule [of k j "workQueue p"] Forget_abs [OF pool_queue [OF reachable_inv [OF reach]], of j]
    by auto
next
  case (token i)
  have "owed ((workQueue p)\<lparr>wakeupCh := False\<rparr>) = owed (workQueue p)" by (rule owed_cong) simp
  with token k show ?thesis by simp
qed (use k in simp_all)

lemma owed_until_started_witness:
  "''p'' \<in> owed (workQueue demo3) \<or> Look 0 = Drop ''p'' \<or>
    (\<exists>i a. Look 0 = Look i \<and> worker demo3 i = Processing a \<and> key (heap (workQueue demo3) a) = ''p'')"
proof (rule owed_until_started [OF demo_reachable(2) [where retry = DefaultRetryFunc]])
  show "step demoLimiter DefaultRetryFunc demo2 (Look 0) demo3"
    unfolding demo3_def by (rule look) (simp_all add: demo_values)
  show "''p'' \<in> owed (workQueue demo2)" by (simp add: owed_def demo_values)
qed simp

section \<open>Retries are bounded\<close>

definition retries_inv :: "'r queue \<Rightarrow> bool" where
  "retries_inv q \<longleftrightarrow> (\<forall>a. requeues (heap q a) < MaxRetries)"

lemma retries_keeps: "keepsItems q q' \<Longrightarrow> retries_inv q \<Longrightarrow> retries_inv q'"
proof -
  assume *: "keepsItems q q'" "retries_inv q"
  have "requeues (heap q' a) < MaxRetries" for a
  proof (cases "requeues (heap q' a) = 0")
    case False
    then have "requeues (heap q' a) = requeues (heap q a)" using *(1) by (auto simp: keepsItems_def)
    then show ?thesis using *(2) by (simp add: retries_inv_def)
  qed (simp add: MaxRetries_def)
  then show ?thesis by (simp add: retries_inv_def)
qed

lemma retries_handle:
  assumes "retries_inv q"
  shows "retries_inv (snd (handleQueueItemObject rl DefaultRetryFunc nowUntil now err a q))"
proof -
  let ?q = "q\<lparr>itemsBeingProcessed := (itemsBeingProcessed q)(key (heap q a) := None)\<rparr>"
  have q: "retries_inv ?q" using assms by (simp add: retries_inv_def)
  have "retries_inv (finishRedirty rl nowUntil now (heap q a) ?q)"
    by (rule retries_keeps [OF finishRedirty_frame(2) q])
  moreover have "retries_inv (snd (insertItem rl now (key (heap q a)) True None ?q))"
    by (rule retries_keeps [OF insertItem_keeps q])
  moreover have "retries_inv (r\<lparr>heap := (heap r)(b := (heap r b)\<lparr>requeues := n, originallyAdded := t\<rparr>)\<rparr>)"
    if "retries_inv r" "n < MaxRetries" for r :: "'a queue" and b n t
    using that by (simp add: retries_inv_def)
  moreover have "retries_inv (?q\<lparr>limiter := l\<rparr>)" for l using q by (simp add: retries_inv_def)
  ultimately show ?thesis
    by (auto simp: handleQueueItemObject_def DefaultRetryFunc_def Let_def prod.case_eq_if
        split: option.split)
qed

text \<open>With the default retry function no item of a reachable pool has been requeued
  \<open>MaxRetries\<close> times: the twentieth failure in a row is the last.\<close>

theorem requeues_bounded:
  assumes "reachable rl DefaultRetryFunc p"
  shows "requeues (heap (workQueue p) a) < MaxRetries"
proof -
  from assms have "retries_inv (workQueue p)"
  proof induction
    case (start r n now)
    show ?case by (simp add: retries_inv_def initialPool_def New_def newItem_def MaxRetries_def)
  next
    case (step p ev p')
    from step.hyps(2) show ?case
    proof cases
      case (look i n q)
      then have "retries_inv q"
        using retries_keeps [OF getNextItem_frame(1) step.IH, of "clock p"] by simp
      with look show ?thesis by (simp add: afterLook_def split: nextItem.split)
    next
      case (token i)
      then show ?thesis using step.IH by (simp add: retries_inv_def)
    qed (simp_all add: step.IH retries_handle
        retries_keeps [OF insertItem_keeps] retries_keeps [OF Forget_frame(3)])
  qed
  then show ?thesis by (simp add: retries_inv_def)
qed

lemma requeues_bounded_witness: "requeues (heap (workQueue demo3) 0) < MaxRetries"
  by (rule requeues_bounded [OF demo_reachable(3)])


section \<open>A handler that always fails\<close>

text \<open>
  The queue with one key, run by one worker whose handler always returns the error: each round
  takes the front of the list when it is due. The result counts the runs of the handler in at
  most the given number of rounds.
\<close>

fun failingRuns :: "'r rateLimiter \<Rightarrow> goerror \<Rightarrow> nat \<Rightarrow> 'r queue \<Rightarrow> nat" where
  "failingRuns rl e 0 q = 0"
| "failingRuns rl e (Suc n) q =
     (case items q of
        [] \<Rightarrow> 0
      | x # _ \<Rightarrow>
          (case getNextItem (planned q x) q of
             (Take a, q') \<Rightarrow>
               Suc (failingRuns rl e n (snd (handleQueueItemObject rl DefaultRetryFunc
                 (planned q x) (planned q x) (Some e) a q')))
           | _ \<Rightarrow> 0))"

definition lonely :: "string \<Rightarrow> nat \<Rightarrow> 'r queue \<Rightarrow> bool" where
  "lonely k r q \<longleftrightarrow> (\<exists>a. items q = [a] \<and> key (heap q a) = k \<and> requeues (heap q a) = r \<and>
     redirtiedAt (heap q a) = zeroTime \<and> \<not> forget (heap q a)) \<and>
     itemsInQueue q = (\<lambda>j. if j = k then Some (hd (items q)) else None) \<and>
     itemsBeingProcessed q = Map.empty"

lemma failing_round:
  assumes "lonely k r q"
  defines "t \<equiv> planned q (hd (items q))"
  shows "\<exists>a q'. getNextItem t q = (Take a, q') \<and>
    (let q'' = snd (handleQueueItemObject rl DefaultRetryFunc t t (Some e) a q')
     in if Suc r < MaxRetries then lonely k (Suc r) q'' else items q'' = [])"
proof -
  from assms(1) obtain a where a: "items q = [a]" "key (heap q a) = k" "requeues (heap q a) = r"
    "redirtiedAt (heap q a) = zeroTime" "\<not> forget (heap q a)"
    "itemsInQueue q = (\<lambda>j. if j = k then Some (hd (items q)) else None)"
    "itemsBeingProcessed q = Map.empty"
    unfolding lonely_def by blast
  let ?q = "q\<lparr>itemsBeingProcessed := Map.empty(k \<mapsto> a), items := [], itemsInQueue := Map.empty\<rparr>"
  have "(\<lambda>j. if j = k then Some (hd (items q)) else None)(k := None) = Map.empty" by auto
  then have took: "getNextItem t q = (Take a, ?q)"
    using a Sub_le_0_iff [of t t] by (simp add: getNextItem_def t_def Let_def)
  show ?thesis
  proof (cases "Suc r < MaxRetries")
    case True
    obtain val l where sched: "scheduleNew rl t k True None (limiter q) = (val, l)" by fastforce
    from True show ?thesis
      unfolding took lonely_def
      by (simp add: handleQueueItemObject_def DefaultRetryFunc_def insertItem_def insertNew_def
          sched scheduleNew_fields [OF sched] Let_def a fun_eq_iff)
  next
    case False
    then show ?thesis
      unfolding took
      by (simp add: handleQueueItemObject_def DefaultRetryFunc_def finishRedirty_def Let_def a IsZero_def)
  qed
qed

lemma failingRuns_lonely:
  "lonely k r q \<Longrightarrow> r < MaxRetries \<Longrightarrow> failingRuns rl e n q = min n (MaxRetries - r)"
proof (induction n arbitrary: q r)
  case (Suc n)
  let ?t = "planned q (hd (items q))"
  obtain a q' where *: "getNextItem ?t q = (Take a, q')"
    "let q'' = snd (handleQueueItemObject rl DefaultRetryFunc ?t ?t (Some e) a q')
     in if Suc r < MaxRetries then lonely k (Suc r) q'' else items q'' = []"
    using failing_round [OF Suc.prems(1), of rl e] by blast
  let ?q'' = "snd (handleQueueItemObject rl DefaultRetryFunc ?t ?t (Some e) a q')"
  obtain b where b: "items q = [b]" using Suc.prems(1) by (auto simp: lonely_def)
  have step: "failingRuns rl e (Suc n) q = Suc (failingRuns rl e n ?q'')" using * b by simp
  show ?case
  proof (cases "Suc r < MaxRetries")
    case True
    with * have "lonely k (Suc r) ?q''" by (simp add: Let_def)
    from Suc.IH [OF this True] True show ?thesis unfolding step by simp
  next
    case False
    with * have "items ?q'' = []" by (simp add: Let_def)
    then have "failingRuns rl e n ?q'' = 0" by (cases n) simp_all
    with False Suc.prems(2) show ?thesis unfolding step by simp
  qed
qed simp

text \<open>C33. A key whose handler fails every time is run exactly twenty times after it is enqueued in
  an empty queue, whatever the rate limiter answers, and is dropped then.\<close>

theorem failing_key_runs_MaxRetries_times:
  "failingRuns rl e n (Enqueue rl now k (New l)) = min n 20"
proof -
  obtain val l' where sched: "scheduleNew rl now k True None l = (val, l')" by fastforce
  have "lonely k 0 (Enqueue rl now k (New l))"
    using sched scheduleNew_fields [OF sched]
    by (auto simp: lonely_def Enqueue_def insertItem_def insertNew_def New_def Let_def fun_eq_iff)
  from failingRuns_lonely [OF this] show ?thesis by (simp add: MaxRetries_def)
qed

end
