(* ===== verification/Model_Types.thy ===== *)
theory Model_Types
  imports Go_Runtime
begin

text \<open>
  The data of the program. The constants are those of model/consts.go and the records
  \<open>NodeInfo\<close>, \<open>NodeStatusData\<close>, \<open>BizStatusData\<close> and their parts those of
  model/models.go. The Kubernetes objects (pods, nodes, leases) come from the API packages;
  each record has the fields the program reads or writes, with their Go types, and one
  \<open>opaque\<close> field for the content of all the others.
\<close>

section \<open>model/consts.go\<close>

definition VNodePrefix :: string where "VNodePrefix = ''vnode''"

definition TrackSceneVPodDeploy :: string where "TrackSceneVPodDeploy = ''vpod_deploy''"

definition TrackEventContainerStart :: string where
  "TrackEventContainerStart = ''ContainerStart''"
definition TrackEventContainerShutdown :: string where
  "TrackEventContainerShutdown = ''ContainerShutdown''"
definition TrackEventVPodDelete :: string where "TrackEventVPodDelete = ''PodDelete''"
definition TrackEventVPodUpdate :: string where "TrackEventVPodUpdate = ''PodUpdate''"

definition LabelKeyOfTraceID :: string where "LabelKeyOfTraceID = ''trace.koupleless.io/id''"
definition LabelKeyOfComponent :: string where
  "LabelKeyOfComponent = ''virtual-kubelet.koupleless.io/component''"
definition LabelKeyOfEnv :: string where
  "LabelKeyOfEnv = ''virtual-kubelet.koupleless.io/env''"
definition LabelKeyOfBaseName :: string where "LabelKeyOfBaseName = ''base.koupleless.io/name''"
definition LabelKeyOfBaseVersion :: string where
  "LabelKeyOfBaseVersion = ''base.koupleless.io/version''"
definition LabelKeyOfBaseClusterName :: string where
  "LabelKeyOfBaseClusterName = ''base.koupleless.io/cluster-name''"
definition LabelKeyOfBaseHostName :: string where
  "LabelKeyOfBaseHostName = ''base.koupleless.io/host-name''"

definition LabelKeyOfBaseContainerName :: string where
  "LabelKeyOfBaseContainerName = ''base.koupleless.io/container-name''"

definition TaintKeyOfVnode :: string where
  "TaintKeyOfVnode = ''schedule.koupleless.io/virtual-node''"
definition TaintKeyOfEnv :: string where "TaintKeyOfEnv = ''schedule.koupleless.io/node-env''"

definition ComponentVNode :: string where "ComponentVNode = ''vnode''"
definition ComponentVNodeLease :: string where "ComponentVNodeLease = ''vnode-lease''"

definition CodeSuccess :: string where "CodeSuccess = ''00000''"
definition CodeTimeout :: string where "CodeTimeout = ''00001''"
definition CodeContainerStartTimeout :: string where "CodeContainerStartTimeout = ''00002''"
definition CodeContainerStartFailed :: string where "CodeContainerStartFailed = ''01002''"
definition CodeContainerStopFailed :: string where "CodeContainerStopFailed = ''01003''"

definition NodeStateActivated :: string where "NodeStateActivated = ''ACTIVATED''"
definition NodeStateDeactivated :: string where "NodeStateDeactivated = ''DEACTIVATED''"

definition BizStateResolved :: string where "BizStateResolved = ''RESOLVED''"
definition BizStateUnResolved :: string where "BizStateUnResolved = ''UNRESOLVED''"
definition BizStateActivated :: string where "BizStateActivated = ''ACTIVATED''"
definition BizStateDeactivated :: string where "BizStateDeactivated = ''DEACTIVATED''"
definition BizStateBroken :: string where "BizStateBroken = ''BROKEN''"
definition BizStateStopped :: string where "BizStateStopped = ''STOPPED''"

definition NodeLeaseDurationSeconds :: int where "NodeLeaseDurationSeconds = 40"
definition NodeLeaseUpdatePeriodSeconds :: int where "NodeLeaseUpdatePeriodSeconds = 10"
definition NodeLeaseMaxRetryTimes :: nat where "NodeLeaseMaxRetryTimes = 5"
definition NodeToUnreachableMaxSeconds :: int where "NodeToUnreachableMaxSeconds = 25"
definition NodeToDeadMaxSeconds :: int where "NodeToDeadMaxSeconds = 60"
definition NodeToFetchHeartBeatInterval :: int where "NodeToFetchHeartBeatInterval = 10"
definition NodeToFetchAllBizStatusInterval :: int where "NodeToFetchAllBizStatusInterval = 15"
definition NodeToCheckUnreachableAndDeadStatusInterval :: int where
  "NodeToCheckUnreachableAndDeadStatusInterval = 3"

definition ObjectMetaNameNotExistPod :: string where
  "ObjectMetaNameNotExistPod = ''not-exist-pod''"

named_theorems const_defs "the constants of model/consts.go"

declare VNodePrefix_def [const_defs] CodeSuccess_def [const_defs] CodeTimeout_def [const_defs]
  CodeContainerStartTimeout_def [const_defs] CodeContainerStartFailed_def [const_defs]
  CodeContainerStopFailed_def [const_defs] NodeStateActivated_def [const_defs]
  NodeStateDeactivated_def [const_defs] BizStateResolved_def [const_defs]
  BizStateUnResolved_def [const_defs] BizStateActivated_def [const_defs]
  BizStateDeactivated_def [const_defs] BizStateBroken_def [const_defs]
  BizStateStopped_def [const_defs] NodeLeaseDurationSeconds_def [const_defs]
  NodeLeaseUpdatePeriodSeconds_def [const_defs] NodeLeaseMaxRetryTimes_def [const_defs]
  NodeToUnreachableMaxSeconds_def [const_defs] NodeToDeadMaxSeconds_def [const_defs]
  NodeToFetchHeartBeatInterval_def [const_defs] NodeToFetchAllBizStatusInterval_def [const_defs]
  NodeToCheckUnreachableAndDeadStatusInterval_def [const_defs] ObjectMetaNameNotExistPod_def [const_defs]

section \<open>Pods\<close>

record EnvVar =
  ev_Name :: string
  ev_Value :: string
  ev_rest :: opaque

record Container =
  c_Name :: string
  c_Image :: string
  c_Env :: "EnvVar slice"
  c_rest :: opaque

record ContainerStateWaiting =
  w_Reason :: string
  w_Message :: string

record ContainerStateRunning =
  r_StartedAt :: gotime

record ContainerStateTerminated =
  t_ExitCode :: int
  t_Reason :: string
  t_Message :: string
  t_StartedAt :: gotime
  t_FinishedAt :: gotime
  t_rest :: opaque

record ContainerState =
  Waiting :: "ContainerStateWaiting option"
  Running :: "ContainerStateRunning option"
  Terminated :: "ContainerStateTerminated option"

definition emptyState :: ContainerState where
  "emptyState = \<lparr>Waiting = None, Running = None, Terminated = None\<rparr>"

record ContainerStatus =
  cs_Name :: string
  cs_ContainerID :: string
  cs_State :: ContainerState
  cs_Ready :: bool
  cs_Started :: "bool option"
  cs_Image :: string
  cs_ImageID :: string
  cs_rest :: opaque

record PodCondition =
  pc_Type :: string
  pc_Status :: string
  pc_LastProbeTime :: gotime
  pc_LastTransitionTime :: gotime
  pc_rest :: opaque

text \<open>The phase of a pod, a string type of the API.\<close>

definition PodPending :: string where "PodPending = ''Pending''"
definition PodRunning :: string where "PodRunning = ''Running''"
definition PodSucceeded :: string where "PodSucceeded = ''Succeeded''"
definition PodFailed :: string where "PodFailed = ''Failed''"
definition ConditionTrue :: string where "ConditionTrue = ''True''"
definition ConditionFalse :: string where "ConditionFalse = ''False''"
definition RestartPolicyNever :: string where "RestartPolicyNever = ''Never''"

lemmas phase_defs = PodPending_def PodRunning_def PodSucceeded_def PodFailed_def
  ConditionTrue_def ConditionFalse_def RestartPolicyNever_def

record PodStatus =
  Phase :: string
  st_Reason :: string
  st_Message :: string
  PodIP :: string
  PodIPs :: "string slice"
  Conditions :: "PodCondition slice"
  ContainerStatuses :: "ContainerStatus slice"
  st_rest :: opaque

definition zeroPodStatus :: PodStatus where
  "zeroPodStatus = \<lparr>Phase = '''', st_Reason = '''', st_Message = '''', PodIP = '''',
     PodIPs = None, Conditions = None, ContainerStatuses = None, st_rest = 0\<rparr>"

record Pod =
  Namespace :: string
  Name :: string
  UID :: string
  ResourceVersion :: string
  Labels :: "(string, string) gomap"
  Annotations :: "(string, string) gomap"
  Finalizers :: "string slice"
  CreationTimestamp :: gotime
  DeletionTimestamp :: "gotime option"
  DeletionGracePeriodSeconds :: "int option"
  NodeName :: string
  Containers :: "Container slice"
  InitContainers :: "Container slice"
  ActiveDeadlineSeconds :: "int option"
  Tolerations :: "opaque slice"
  RestartPolicy :: string
  Status :: PodStatus
  pod_rest :: opaque

text \<open>The zero pod, with only the fields a Go composite literal sets changed.\<close>

definition zeroPod :: Pod where
  "zeroPod = \<lparr>Namespace = '''', Name = '''', UID = '''', ResourceVersion = '''', Labels = None,
     Annotations = None, Finalizers = None, CreationTimestamp = zeroTime,
     DeletionTimestamp = None, DeletionGracePeriodSeconds = None, NodeName = '''',
     Containers = None, InitContainers = None, ActiveDeadlineSeconds = None,
     Tolerations = None, RestartPolicy = '''', Status = zeroPodStatus, pod_rest = 0\<rparr>"

section \<open>Nodes and leases\<close>

record Taint =
  taint_Key :: string
  taint_Value :: string
  taint_Effect :: string

record NodeAddress =
  addr_Type :: string
  addr_Address :: string

record NodeCondition =
  nc_Type :: string
  nc_Status :: string
  nc_LastHeartbeatTime :: gotime
  nc_rest :: opaque

type_synonym Quantity = opaque

record NodeStatus =
  ns_Phase :: string
  ns_Addresses :: "NodeAddress slice"
  ns_Conditions :: "NodeCondition slice"
  ns_Capacity :: "(string, Quantity) gomap"
  ns_Allocatable :: "(string, Quantity) gomap"
  ns_rest :: opaque

record Node =
  n_Name :: string
  n_Namespace :: string
  n_UID :: string
  n_Labels :: "(string, string) gomap"
  n_Annotations :: "(string, string) gomap"
  n_Taints :: "Taint slice"
  n_Status :: NodeStatus
  n_rest :: opaque

definition NodeInternalIP :: string where "NodeInternalIP = ''InternalIP''"
definition NodeHostName :: string where "NodeHostName = ''Hostname''"
definition NodeRunning :: string where "NodeRunning = ''Running''"
definition NodeReady :: string where "NodeReady = ''Ready''"
definition NodeMemoryPressure :: string where "NodeMemoryPressure = ''MemoryPressure''"
definition NodeDiskPressure :: string where "NodeDiskPressure = ''DiskPressure''"
definition NodePIDPressure :: string where "NodePIDPressure = ''PIDPressure''"
definition NodeNetworkUnavailable :: string where
  "NodeNetworkUnavailable = ''NetworkUnavailable''"

lemmas node_const_defs = NodeInternalIP_def NodeHostName_def NodeRunning_def NodeReady_def
  NodeMemoryPressure_def NodeDiskPressure_def NodePIDPressure_def NodeNetworkUnavailable_def

text \<open>
  A coordination lease. The holder and the renewal time are pointers in the API; the
  modelled code dereferences both without a nil check.
\<close>

record Lease =
  l_Name :: string
  l_Namespace :: string
  l_Labels :: "(string, string) gomap"
  l_HolderIdentity :: "string option"
  l_LeaseDurationSeconds :: "int option"
  l_RenewTime :: "gotime option"
  l_ResourceVersion :: string

section \<open>model/models.go\<close>

record NetworkInfo =
  NodeIP :: string
  HostName :: string

record NodeMetadata =
  m_Name :: string
  BaseName :: string
  Version :: string
  ClusterName :: string

record NodeInfo =
  Metadata :: NodeMetadata
  NetworkInfo :: NetworkInfo
  CustomTaints :: "Taint slice"
  CustomLabels :: "(string, string) gomap"
  CustomAnnotations :: "(string, string) gomap"
  State :: string

record NodeResource =
  Capacity :: Quantity
  Allocatable :: Quantity

record NodeStatusData =
  Resources :: "(string, NodeResource) gomap"
  CustomConditions :: "NodeCondition slice"
  NodeState :: string

record BizStatusData =
  b_Key :: string
  b_Name :: string
  PodKey :: string
  b_State :: string
  ChangeTime :: gotime
  b_Reason :: string
  b_Message :: string

end
