(* ===== verification/Utils.thy ===== *)
theory Utils
  imports Model_Types "HOL-Library.Word"
begin

text \<open>
  common/utils/utils.go: the keys of pods, containers, nodes and business modules (biz), the
  comparison of pods, the conversions between the provider's status data and the objects of
  Kubernetes, and the two retry loops.
\<close>

section \<open>Retry loops\<close>

text \<open>
  \<open>DefaultRateLimiter\<close> computes in \<open>int\<close> and \<open>time.Duration\<close>, both 64 bits wide and
  wrapping.
\<close>

definition DefaultRateLimiter :: "64 word \<Rightarrow> 64 word" where
  "DefaultRateLimiter retryTimes =
     (if word_sless retryTimes 30 then retryTimes * 100 * 1000000
      else if word_sless retryTimes 100 then retryTimes * retryTimes * 100 * 1000000
      else 1000 * 1000000000)"

text \<open>
  \<open>CallWithRetry\<close>. The callback maps the retry number and the state it works on to
  whether to retry, its error and the new state. Each retry waits for a timer or for the
  context, whichever comes first; \<open>waitCtx n d\<close> is the context's error when it ends
  during the wait of duration \<open>d\<close> before retry \<open>n\<close>, and \<open>None\<close> when the timer
  fires. A nil rate limiter is \<open>None\<close>. The value \<open>None\<close> of the whole is a loop that
  never ends.
\<close>

type_synonym 's retryCall = "nat \<Rightarrow> 's \<Rightarrow> bool \<times> goerror option \<times> 's"

partial_function (option) retryLoop ::
  "'s retryCall \<Rightarrow> (64 word \<Rightarrow> 64 word) \<Rightarrow> (nat \<Rightarrow> 64 word \<Rightarrow> goerror option) \<Rightarrow> nat \<Rightarrow> bool \<Rightarrow>
   goerror option \<Rightarrow> 's \<Rightarrow> (goerror option \<times> 's) option" where
  "retryLoop call limiter waitCtx retryTimes shouldRetry err s =
     (if shouldRetry
      then case waitCtx (Suc retryTimes) (limiter (of_nat (Suc retryTimes))) of
             Some ctxErr \<Rightarrow> Some (Some ctxErr, s)
           | None \<Rightarrow>
               (case call (Suc retryTimes) s of (shouldRetry', err', s') \<Rightarrow>
                  retryLoop call limiter waitCtx (Suc retryTimes) shouldRetry' err' s')
      else Some (err, s))"

definition CallWithRetry ::
  "'s retryCall \<Rightarrow> (64 word \<Rightarrow> 64 word) option \<Rightarrow> (nat \<Rightarrow> 64 word \<Rightarrow> goerror option) \<Rightarrow> 's \<Rightarrow>
   (goerror option \<times> 's) option" where
  "CallWithRetry call retryRateLimiter waitCtx s =
     (case call 0 s of (shouldRetry, err, s') \<Rightarrow>
        retryLoop call
          (case retryRateLimiter of None \<Rightarrow> DefaultRateLimiter | Some limiter \<Rightarrow> limiter)
          waitCtx 0 shouldRetry err s')"

text \<open>
  \<open>CheckAndFinallyCall\<close>. Each round of the loop waits for the deadline or for the
  ticker; \<open>timedOut n\<close> says that round \<open>n\<close> sees the deadline. The check and the two
  callbacks work on a state; the final callback may not return.
\<close>

partial_function (option) CheckAndFinallyCall ::
  "('s \<Rightarrow> (bool \<times> goerror option) \<times> 's) \<Rightarrow> (nat \<Rightarrow> bool) \<Rightarrow> ('s \<Rightarrow> 's option) \<Rightarrow> ('s \<Rightarrow> 's) \<Rightarrow>
   nat \<Rightarrow> 's \<Rightarrow> (goerror option \<times> 's) option" where
  "CheckAndFinallyCall checkFunc timedOut finally timeoutCall n s =
     (if timedOut n then Some (Some (ErrText ''check time out''), timeoutCall s)
      else case checkFunc s of ((finished, err), s') \<Rightarrow>
        (case err of
           Some e \<Rightarrow> Some (Some (ErrWrap ''Error when checking condition'' e), s')
         | None \<Rightarrow>
             if finished then map_option (Pair None) (finally s')
             else CheckAndFinallyCall checkFunc timedOut finally timeoutCall (Suc n) s'))"

section \<open>Keys\<close>

definition GetEnv :: "(string \<rightharpoonup> string) \<Rightarrow> string \<Rightarrow> string \<Rightarrow> string" where
  "GetEnv env key defaultValue = (case env key of Some value \<Rightarrow> value | None \<Rightarrow> defaultValue)"

text \<open>The pod argument is a pointer: \<open>GetPodKey\<close> checks it for nil.\<close>

definition GetPodKey :: "Pod option \<Rightarrow> string" where
  "GetPodKey pod = (case pod of None \<Rightarrow> '''' | Some p \<Rightarrow> Namespace p @ ''/'' @ Name p)"

definition GetNameSpaceAndNameFromPodKey :: "string \<Rightarrow> string \<times> string" where
  "GetNameSpaceAndNameFromPodKey podKey =
     (case Split (CHR ''/'') podKey of [a, b] \<Rightarrow> (a, b) | _ \<Rightarrow> ('''', ''''))"

text \<open>Slicing beyond the number of parts panics.\<close>

definition GetPodKeyFromContainerKey :: "string \<Rightarrow> string outcome" where
  "GetPodKeyFromContainerKey containerKey =
     (let parts = Split (CHR ''/'') containerKey
      in if 2 \<le> length parts then Ok (Join (CHR ''/'') (take 2 parts)) else Panic)"

definition GetContainerNameFromContainerKey :: "string \<Rightarrow> string outcome" where
  "GetContainerNameFromContainerKey containerKey =
     (let parts = Split (CHR ''/'') containerKey
      in if 2 \<le> length parts then Ok (Join (CHR ''/'') (drop 2 parts)) else Panic)"

definition GetContainerKey :: "string \<Rightarrow> string \<Rightarrow> string" where
  "GetContainerKey podKey containerName = podKey @ ''/'' @ containerName"

definition FormatNodeName :: "string \<Rightarrow> string \<Rightarrow> string" where
  "FormatNodeName nodeID env = VNodePrefix @ ''.'' @ nodeID @ ''.'' @ env"

definition ExtractNodeIDFromNodeName :: "string \<Rightarrow> string" where
  "ExtractNodeIDFromNodeName nodeName =
     (let split = Split (CHR ''.'') nodeName
      in if length split = 1 then ''''
         else Join (CHR ''.'') (drop 1 (take (length split - 1) split)))"

definition SplitMetaNamespaceKey :: "string \<Rightarrow> (string \<times> string) outcome" where
  "SplitMetaNamespaceKey key =
     (case Split (CHR ''/'') key of
        [name] \<Rightarrow> Ok ('''', name)
      | [namespace, name] \<Rightarrow> Ok (namespace, name)
      | _ \<Rightarrow> Err (ErrText ''unexpected key format''))"

definition getBizVersionFromContainer :: "Container \<Rightarrow> string" where
  "getBizVersionFromContainer container =
     (case find (\<lambda>env. ev_Name env = ''BIZ_VERSION'') (elems (c_Env container)) of
        Some env \<Rightarrow> ev_Value env | None \<Rightarrow> '''')"

definition getBizIdentity :: "string \<Rightarrow> string \<Rightarrow> string" where
  "getBizIdentity bizName bizVersion = bizName @ '':'' @ bizVersion"

definition GetBizUniqueKey :: "Container \<Rightarrow> string" where
  "GetBizUniqueKey container =
     getBizIdentity (c_Name container) (getBizVersionFromContainer container)"

definition GetBizNameAndVersionFromUniqueKey :: "string \<Rightarrow> string \<times> string" where
  "GetBizNameAndVersionFromUniqueKey bizUniqueKey =
     (case Split (CHR '':'') bizUniqueKey of [a, b] \<Rightarrow> (a, b) | _ \<Rightarrow> ('''', ''''))"

section \<open>Comparing pods\<close>

definition PodsEqual :: "Pod \<Rightarrow> Pod \<Rightarrow> bool" where
  "PodsEqual pod1 pod2 \<longleftrightarrow>
     Containers pod1 = Containers pod2 \<and>
     InitContainers pod1 = InitContainers pod2 \<and>
     ActiveDeadlineSeconds pod1 = ActiveDeadlineSeconds pod2 \<and>
     Tolerations pod1 = Tolerations pod2 \<and>
     Labels pod1 = Labels pod2 \<and>
     Annotations pod1 = Annotations pod2 \<and>
     Finalizers pod1 = Finalizers pod2"

definition OrElse :: "'a \<Rightarrow> 'a \<Rightarrow> 'a \<Rightarrow> 'a" where
  \<comment> \<open>the first argument is the zero value of the type\<close>
  "OrElse zero value defaultValue = (if value = zero then defaultValue else value)"

section \<open>The status of a biz as the status of a container\<close>

text \<open>The status of a container that has no data yet.\<close>

definition pendingContainerStatus :: "Container \<Rightarrow> bool \<Rightarrow> ContainerStatus" where
  "pendingContainerStatus container started =
     \<lparr>cs_Name = c_Name container, cs_ContainerID = c_Name container, cs_State = emptyState,
      cs_Ready = started, cs_Started = Some started, cs_Image = c_Image container,
      cs_ImageID = c_Image container, cs_rest = 0\<rparr>"

text \<open>The state that the biz data reports.\<close>

definition bizContainerState :: "BizStatusData \<Rightarrow> ContainerState" where
  "bizContainerState data =
     (if EqualFold (b_State data) BizStateUnResolved then emptyState
      else if EqualFold (b_State data) BizStateResolved \<or>
              EqualFold (b_State data) BizStateBroken \<or>
              EqualFold (b_State data) BizStateDeactivated
      then emptyState\<lparr>Waiting := Some \<lparr>w_Reason = b_Reason data, w_Message = b_Message data\<rparr>\<rparr>
      else if EqualFold (b_State data) BizStateActivated
      then emptyState\<lparr>Running := Some \<lparr>r_StartedAt = ChangeTime data\<rparr>\<rparr>
      else if EqualFold (b_State data) BizStateStopped
      then emptyState\<lparr>Terminated :=
             Some \<lparr>t_ExitCode = 1, t_Reason = b_Reason data, t_Message = b_Message data,
                   t_StartedAt = ChangeTime data, t_FinishedAt = ChangeTime data, t_rest = 0\<rparr>\<rparr>
      else emptyState)"

text \<open>
  The container status and the data are pointers. The two reads of \<open>containerStatus.Name\<close>
  would panic on nil.
\<close>

definition reuseContainerStatus ::
  "Container \<Rightarrow> ContainerStatus option \<Rightarrow> ContainerStatus outcome" where
  "reuseContainerStatus container containerStatus =
     (case containerStatus of
        None \<Rightarrow> Panic
      | Some cs \<Rightarrow>
          if cs_Name cs = c_Name container then Ok cs
          else Err (ErrText
            ''convert biz status to container status but container name mismatch''))"

definition ConvertBizStatusToContainerStatus ::
  "Container \<Rightarrow> ContainerStatus option \<Rightarrow> BizStatusData option \<Rightarrow> ContainerStatus outcome" where
  "ConvertBizStatusToContainerStatus container containerStatus data =
     (if containerStatus = None \<and>
         (case data of None \<Rightarrow> True | Some d \<Rightarrow> c_Name container \<noteq> b_Name d)
      then Ok (pendingContainerStatus container False)
      else case data of
        None \<Rightarrow> reuseContainerStatus container containerStatus
      | Some d \<Rightarrow>
          if c_Name container \<noteq> b_Name d
          then reuseContainerStatus container containerStatus
          else Ok ((pendingContainerStatus container (EqualFold (b_State d) BizStateActivated))
                     \<lparr>cs_State := bizContainerState d\<rparr>))"

section \<open>Finding the pods of biz data\<close>

text \<open>A biz container is one whose image names a jar.\<close>

abbreviation isBizJar :: "Container \<Rightarrow> bool" where
  "isBizJar container \<equiv> Contains (c_Image container) ''.jar''"

definition bizKeyToPodKey :: "Pod list \<Rightarrow> (string \<rightharpoonup> string)" where
  "bizKeyToPodKey pods =
     fold (\<lambda>pod. fold (\<lambda>container m.
              if isBizJar container
              then m(GetBizUniqueKey container \<mapsto> GetPodKey (Some pod)) else m)
            (elems (Containers pod)))
       pods Map.empty"

definition fillOne :: "(string \<rightharpoonup> string) \<Rightarrow> BizStatusData \<Rightarrow> BizStatusData" where
  "fillOne m b =
     (case m (b_Key b) of
        Some podKey \<Rightarrow> if PodKey b = '''' then b\<lparr>PodKey := podKey\<rparr> else b
      | None \<Rightarrow> b)"

fun fillLoop ::
  "(string \<rightharpoonup> string) \<Rightarrow> BizStatusData list \<Rightarrow> BizStatusData list \<Rightarrow> BizStatusData list \<Rightarrow>
   BizStatusData list \<times> BizStatusData list" where
  "fillLoop m [] withPodKey withNoPodKey = (withPodKey, withNoPodKey)"
| "fillLoop m (b # bs) withPodKey withNoPodKey =
     (let b' = fillOne m b
      in if PodKey b' \<noteq> '''' then fillLoop m bs (withPodKey @ [b']) withNoPodKey
         else fillLoop m bs withPodKey (withNoPodKey @ [b']))"

definition FillPodKey ::
  "Pod list \<Rightarrow> BizStatusData list \<Rightarrow> BizStatusData list \<times> BizStatusData list" where
  "FillPodKey pods bizStatusDatas = fillLoop (bizKeyToPodKey pods) bizStatusDatas [] []"

section \<open>Nodes\<close>

definition newNodeCondition :: "string \<Rightarrow> string \<Rightarrow> NodeCondition" where
  "newNodeCondition ty st =
     \<lparr>nc_Type = ty, nc_Status = st, nc_LastHeartbeatTime = zeroTime, nc_rest = 0\<rparr>"

definition baseConditionMap :: "string \<rightharpoonup> NodeCondition" where
  "baseConditionMap =
     [NodeReady \<mapsto> newNodeCondition NodeReady ConditionTrue,
      NodeMemoryPressure \<mapsto> newNodeCondition NodeMemoryPressure ConditionFalse,
      NodeDiskPressure \<mapsto> newNodeCondition NodeDiskPressure ConditionFalse,
      NodePIDPressure \<mapsto> newNodeCondition NodePIDPressure ConditionFalse,
      NodeNetworkUnavailable \<mapsto> newNodeCondition NodeNetworkUnavailable ConditionFalse]"

definition conditionMap :: "NodeStatusData \<Rightarrow> (string \<rightharpoonup> NodeCondition)" where
  "conditionMap data =
     fold (\<lambda>c m. m(nc_Type c \<mapsto> c)) (elems (CustomConditions data)) baseConditionMap"

text \<open>
  Writing every resource of the data into a resource list; the keys of a map are distinct,
  so the order of the range does not matter.
\<close>

definition overrideResources ::
  "(NodeResource \<Rightarrow> Quantity) \<Rightarrow> NodeStatusData \<Rightarrow> (string, Quantity) gomap \<Rightarrow>
   (string, Quantity) gomap" where
  "overrideResources f data old =
     Some (\<lambda>r. case mapGet (Resources data) r of
                 Some status \<Rightarrow> Some (f status) | None \<Rightarrow> mapGet old r)"

text \<open>\<open>order\<close> is the order in which the range over the condition map runs.\<close>

definition MergeNodeFromProvider :: "string list \<Rightarrow> Node \<Rightarrow> NodeStatusData \<Rightarrow> Node" where
  "MergeNodeFromProvider order node data =
     node\<lparr>n_Status := (n_Status node)
        \<lparr>ns_Phase := NodeRunning,
         ns_Conditions := Some (range_values (conditionMap data) order),
         ns_Capacity := overrideResources Capacity data (ns_Capacity (n_Status node)),
         ns_Allocatable := overrideResources Allocatable data (ns_Allocatable (n_Status node))\<rparr>\<rparr>"

text \<open>The address loop keeps the last address of each kind.\<close>

definition nodeAddresses :: "Node \<Rightarrow> string \<times> string" where
  "nodeAddresses node =
     fold (\<lambda>addr (ip, host).
             if addr_Type addr = NodeInternalIP then (addr_Address addr, host)
             else if addr_Type addr = NodeHostName then (ip, addr_Address addr)
             else (ip, host))
       (elems (ns_Addresses (n_Status node))) (''127.0.0.1'', ''unknown'')"

definition ConvertNodeToNodeInfo :: "Node \<Rightarrow> NodeInfo" where
  "ConvertNodeToNodeInfo node =
     (case nodeAddresses node of (nodeIP, nodeHostname) \<Rightarrow>
       \<lparr>Metadata = \<lparr>m_Name = n_Name node,
                    BaseName = mapGetStr (n_Labels node) LabelKeyOfBaseName,
                    Version = mapGetStr (n_Labels node) LabelKeyOfBaseVersion,
                    ClusterName = mapGetStr (n_Labels node) LabelKeyOfBaseClusterName\<rparr>,
        NetworkInfo = \<lparr>NodeIP = nodeIP, HostName = nodeHostname\<rparr>,
        CustomTaints = n_Taints node,
        CustomLabels = n_Labels node,
        CustomAnnotations = n_Annotations node,
        State = NodeStateActivated\<rparr>)"

text \<open>
  \<open>ConvertByteNumToResourceQuantity\<close>: Go's division truncates towards zero; the parser
  of quantities belongs to the API package and is an argument.
\<close>

fun decimal :: "nat \<Rightarrow> string" where
  "decimal n = (if n < 10 then [char_of (48 + n)] else decimal (n div 10) @ [char_of (48 + n mod 10)])"

declare decimal.simps [simp del]

definition truncDiv :: "int \<Rightarrow> int \<Rightarrow> int" where
  "truncDiv a b = sgn a * sgn b * (\<bar>a\<bar> div \<bar>b\<bar>)"

definition ConvertByteNumToResourceQuantity :: "(string \<Rightarrow> 'q) \<Rightarrow> int \<Rightarrow> 'q" where
  "ConvertByteNumToResourceQuantity MustParse byteNum =
     (let k = truncDiv byteNum 1024; k' = (if k \<le> 0 then 0 else k)
      in MustParse (decimal (nat k') @ ''Ki''))"

section \<open>Lemmas: the rate limiter\<close>

text \<open>A word that holds a small integer reads as that integer.\<close>

lemma sint_word_of_int_64:
  assumes "- (2 ^ 63) \<le> k" "k < 2 ^ 63"
  shows "sint (word_of_int k :: 64 word) = k"
  using assms by (simp add: signed_of_int signed_take_bit_int_eq_self)

definition rateSpec :: "int \<Rightarrow> int" where
  "rateSpec n =
     (if n < 30 then n * 100 * millisecond
      else if n < 100 then n * n * 100 * millisecond else 1000 * second)"

lemma sint_DefaultRateLimiter:
  assumes "0 \<le> sint n"
  shows "sint (DefaultRateLimiter n) = rateSpec (sint n)"
proof -
  define k where "k = sint n"
  have n: "n = word_of_int k" by (simp add: k_def)
  have k0: "0 \<le> k" using assms by (simp add: k_def)
  have "sint (n * 100 * 1000000) = k * 100 * 1000000" if "k < 30"
  proof -
    have "n * 100 * 1000000 = word_of_int (k * 100 * 1000000)" by (simp add: n)
    then show ?thesis using that k0 by (simp only:) (rule sint_word_of_int_64; simp)
  qed
  moreover have "sint (n * n * 100 * 1000000) = k * k * 100 * 1000000" if "k < 100"
  proof -
    have "k * k \<le> 100 * 100" using that k0 by (intro mult_mono) auto
    then have "k * k * 100 * 1000000 < 2 ^ 63" by simp
    moreover have "- (2 ^ 63) \<le> k * k * 100 * 1000000"
      by (rule order_trans [of _ 0]) simp_all
    moreover have "n * n * 100 * 1000000 = word_of_int (k * k * 100 * 1000000)" by (simp add: n)
    ultimately show ?thesis by (simp only: sint_word_of_int_64)
  qed
  ultimately show ?thesis
    by (auto simp: DefaultRateLimiter_def rateSpec_def word_sless_alt k_def [symmetric] go_defs)
qed

lemma rateSpec_mono:
  assumes "0 \<le> m" "m \<le> n"
  shows "rateSpec m \<le> rateSpec n"
proof -
  have "m * m \<le> n * n" using assms by (intro mult_mono) auto
  moreover have "m \<le> n * n" if "1 \<le> n"
    using assms that mult_mono [of m n 1 n] by simp
  moreover have "m * m \<le> 100 * 100" if "m < 100" using assms that by (intro mult_mono) auto
  ultimately show ?thesis using assms by (auto simp: rateSpec_def go_defs)
qed

lemma rateSpec_bounds: "0 \<le> n \<Longrightarrow> 0 \<le> rateSpec n \<and> rateSpec n \<le> 1000 * second"
  using rateSpec_mono [of 0 n] rateSpec_mono [of n "max n 100"] by (auto simp: rateSpec_def)

section \<open>Lemmas: the retry loops\<close>

text \<open>The state after the first calls of the callback, when none is cut short.\<close>

fun stateAfter :: "'s retryCall \<Rightarrow> 's \<Rightarrow> nat \<Rightarrow> 's" where
  "stateAfter call s 0 = s"
| "stateAfter call s (Suc n) = snd (snd (call n (stateAfter call s n)))"

abbreviation wantsRetry :: "'s retryCall \<Rightarrow> 's \<Rightarrow> nat \<Rightarrow> bool" where
  "wantsRetry call s n \<equiv> fst (call n (stateAfter call s n))"

abbreviation errorAt :: "'s retryCall \<Rightarrow> 's \<Rightarrow> nat \<Rightarrow> goerror option" where
  "errorAt call s n \<equiv> fst (snd (call n (stateAfter call s n)))"

lemma retryLoop_result:
  assumes "m \<le> n" "\<forall>k. m \<le> k \<longrightarrow> k < n \<longrightarrow> wantsRetry call s k" "\<not> wantsRetry call s n"
    "\<forall>k. m < k \<longrightarrow> k \<le> n \<longrightarrow> waitCtx k (limiter (of_nat k)) = None"
  shows "retryLoop call limiter waitCtx m (wantsRetry call s m) (errorAt call s m)
           (stateAfter call s (Suc m)) = Some (errorAt call s n, stateAfter call s (Suc n))"
  using assms
proof (induction rule: inc_induct)
  case base
  then show ?case by (subst retryLoop.simps) simp
next
  case (step m)
  then have "wantsRetry call s m" "waitCtx (Suc m) (limiter (of_nat (Suc m))) = None"
    using Suc_leI by blast+
  with step show ?case
    by (subst retryLoop.simps) (auto simp: case_prod_beta Suc_le_eq)
qed

lemma retryLoop_cancelled:
  assumes "m < n" "\<forall>k. m \<le> k \<longrightarrow> k < n \<longrightarrow> wantsRetry call s k"
    "\<forall>k. m < k \<longrightarrow> k < n \<longrightarrow> waitCtx k (limiter (of_nat k)) = None"
    "waitCtx n (limiter (of_nat n)) = Some e"
  shows "retryLoop call limiter waitCtx m (wantsRetry call s m) (errorAt call s m)
           (stateAfter call s (Suc m)) = Some (Some e, stateAfter call s n)"
  using assms
proof (induction rule: strict_inc_induct)
  case (base i)
  then show ?case by (subst retryLoop.simps) simp
next
  case (step i)
  then have "wantsRetry call s i" "waitCtx (Suc i) (limiter (of_nat (Suc i))) = None"
    by auto
  with step show ?case
    by (subst retryLoop.simps) (auto simp: case_prod_beta Suc_le_eq)
qed

text \<open>The first attempt or wait that ends the loop.\<close>

definition retryEnds ::
  "'s retryCall \<Rightarrow> (64 word \<Rightarrow> 64 word) \<Rightarrow> (nat \<Rightarrow> 64 word \<Rightarrow> goerror option) \<Rightarrow> 's \<Rightarrow> nat \<Rightarrow> bool" where
  "retryEnds call limiter waitCtx s n \<longleftrightarrow>
     \<not> wantsRetry call s n \<or> waitCtx (Suc n) (limiter (of_nat (Suc n))) \<noteq> None"

lemma CallWithRetry_first_end:
  assumes "retryEnds call limiter waitCtx s n" "\<forall>k<n. \<not> retryEnds call limiter waitCtx s k"
  shows "CallWithRetry call (Some limiter) waitCtx s =
    Some (if wantsRetry call s n then waitCtx (Suc n) (limiter (of_nat (Suc n)))
          else errorAt call s n, stateAfter call s (Suc n))"
proof -
  have unfold: "CallWithRetry call (Some limiter) waitCtx s =
      retryLoop call limiter waitCtx 0 (wantsRetry call s 0) (errorAt call s 0)
        (stateAfter call s (Suc 0))"
    by (simp add: CallWithRetry_def case_prod_beta)
  have before1: "\<forall>k. 0 \<le> k \<longrightarrow> k < n \<longrightarrow> wantsRetry call s k"
    using assms(2) by (simp add: retryEnds_def)
  have before2: "\<forall>k. 0 < k \<longrightarrow> k \<le> n \<longrightarrow> waitCtx k (limiter (of_nat k)) = None"
  proof (intro allI impI)
    fix k assume "0 < k" "k \<le> n"
    then obtain j where "k = Suc j" "j < n" by (cases k) auto
    with assms(2) show "waitCtx k (limiter (of_nat k)) = None"
      by (simp only: retryEnds_def) blast
  qed
  show ?thesis
  proof (cases "wantsRetry call s n")
    case False
    with retryLoop_result [of 0 n call s waitCtx limiter] before1 before2 show ?thesis
      by (simp add: unfold)
  next
    case True
    with assms(1) obtain e where e: "waitCtx (Suc n) (limiter (of_nat (Suc n))) = Some e"
      by (auto simp: retryEnds_def)
    have "\<forall>k. 0 \<le> k \<longrightarrow> k < Suc n \<longrightarrow> wantsRetry call s k"
      using before1 True by (auto simp: less_Suc_eq)
    with retryLoop_cancelled [of 0 "Suc n" call s waitCtx limiter] before2 True e show ?thesis
      by (simp add: unfold less_Suc_eq_le)
  qed
qed

section \<open>Lemmas: keys\<close>

lemma SplitMetaNamespaceKey_GetPodKey:
  "SplitMetaNamespaceKey (GetPodKey (Some p)) = Ok (Namespace p, Name p) \<longleftrightarrow>
     CHR ''/'' \<notin> set (Namespace p) \<and> CHR ''/'' \<notin> set (Name p)"
proof -
  have len: "length (Split (CHR ''/'') (Namespace p @ CHR ''/'' # Name p)) = 2 + count_list (Namespace p) (CHR ''/'') + count_list (Name p) (CHR ''/'')"
    by (simp add: length_Split)
  show ?thesis
  proof (cases "CHR ''/'' \<in> set (Namespace p) \<or> CHR ''/'' \<in> set (Name p)")
    case True
    then have "2 < length (Split (CHR ''/'') (Namespace p @ CHR ''/'' # Name p))"
      by (auto simp: len count_list_0_iff simp flip: neq0_conv)
    with True show ?thesis
      by (auto simp: SplitMetaNamespaceKey_def GetPodKey_def split: list.splits)
  qed (simp add: SplitMetaNamespaceKey_def GetPodKey_def)
qed

lemma two_parts:
  "(case Split c (a @ c # b) of [x, y] \<Rightarrow> (x, y) | _ \<Rightarrow> ('''', '''')) =
     (if c \<in> set a \<or> c \<in> set b then ('''', '''') else (a, b))"
proof (cases "c \<in> set a \<or> c \<in> set b")
  case True
  then have "2 < length (Split c (a @ c # b))"
    by (auto simp: length_Split count_list_0_iff simp flip: neq0_conv)
  with True show ?thesis by (auto split: list.splits)
qed simp

lemma GetNameSpaceAndName_GetPodKey:
  "GetNameSpaceAndNameFromPodKey (GetPodKey (Some p)) =
     (if CHR ''/'' \<in> set (Namespace p) \<or> CHR ''/'' \<in> set (Name p) then ('''', '''')
      else (Namespace p, Name p))"
  using two_parts [of "CHR ''/''" "Namespace p" "Name p"]
  by (simp add: GetNameSpaceAndNameFromPodKey_def GetPodKey_def)

lemma GetBizNameAndVersion_identity:
  "GetBizNameAndVersionFromUniqueKey (getBizIdentity name version) =
     (if CHR '':'' \<in> set name \<or> CHR '':'' \<in> set version then ('''', '''') else (name, version))"
  using two_parts [of "CHR '':''" name version]
  by (simp add: GetBizNameAndVersionFromUniqueKey_def getBizIdentity_def)

lemma container_key_parts:
  assumes "CHR ''/'' \<notin> set ns" "CHR ''/'' \<notin> set n"
  shows "GetPodKeyFromContainerKey (GetContainerKey (ns @ ''/'' @ n) c) = Ok (ns @ ''/'' @ n)"
    and "GetContainerNameFromContainerKey (GetContainerKey (ns @ ''/'' @ n) c) = Ok c"
  using assms
  by (simp_all add: GetPodKeyFromContainerKey_def GetContainerNameFromContainerKey_def
      GetContainerKey_def Let_def)

lemma Split_Join_take:
  "1 \<le> k \<Longrightarrow> k \<le> length (Split c s) \<Longrightarrow> Split c (Join c (take k (Split c s))) = take k (Split c s)"
  by (rule Split_Join) (auto dest!: in_set_takeD dest: Split_parts)

lemma Split_append_sep: "Split c (a @ c # b) = Split c a @ Split c b"
proof (induction a)
  case (Cons x xs)
  then show ?case by (cases "Split c xs") auto
qed simp

lemma Join_append: "xs \<noteq> [] \<Longrightarrow> ys \<noteq> [] \<Longrightarrow> Join c (xs @ ys) = Join c xs @ c # Join c ys"
proof (induction xs)
  case (Cons x xs)
  then show ?case by (cases "xs = []") (auto simp: Join_Cons)
qed simp

lemma ExtractNodeID_FormatNodeName:
  "ExtractNodeIDFromNodeName (FormatNodeName nodeID env) = nodeID \<longleftrightarrow> CHR ''.'' \<notin> set env"
proof -
  let ?d = "CHR ''.''"
  have vn: "?d \<notin> set VNodePrefix" by (simp add: VNodePrefix_def)
  have split: "Split ?d (FormatNodeName nodeID env) = VNodePrefix # Split ?d nodeID @ Split ?d env"
    using vn by (simp add: FormatNodeName_def Split_append_sep)
  have "ExtractNodeIDFromNodeName (FormatNodeName nodeID env) =
      Join ?d (take (length (Split ?d nodeID) + length (Split ?d env) - 1) (Split ?d nodeID @ Split ?d env))"
    by (simp add: ExtractNodeIDFromNodeName_def split Let_def drop_take)
  also have "\<dots> = Join ?d (Split ?d nodeID @ take (length (Split ?d env) - 1) (Split ?d env))"
    by (cases "Split ?d env") auto
  also have "\<dots> = nodeID \<longleftrightarrow> ?d \<notin> set env"
  proof (cases "?d \<in> set env")
    case True
    then have "1 < length (Split ?d env)" by (simp add: length_Split count_list_0_iff flip: neq0_conv)
    then have "take (length (Split ?d env) - 1) (Split ?d env) \<noteq> []" by (cases "Split ?d env") auto
    with True show ?thesis by (simp add: Join_append)
  qed simp
  finally show ?thesis .
qed

section \<open>Lemmas: the status of a container\<close>

lemma Convert_ok:
  assumes "\<forall>cs. containerStatus = Some cs \<longrightarrow> cs_Name cs = c_Name container"
  shows "\<exists>cs. ConvertBizStatusToContainerStatus container containerStatus data = Ok cs \<and>
           cs_Name cs = c_Name container"
  using assms
  by (cases containerStatus; cases data)
    (auto simp: ConvertBizStatusToContainerStatus_def reuseContainerStatus_def
      pendingContainerStatus_def)

lemma foldString_states [simp]:
  "foldString BizStateResolved = ''resolved''" "foldString BizStateUnResolved = ''unresolved''"
  "foldString BizStateActivated = ''activated''" "foldString BizStateDeactivated = ''deactivated''"
  "foldString BizStateBroken = ''broken''" "foldString BizStateStopped = ''stopped''"
  "foldString NodeStateActivated = ''activated''"
  "foldString NodeStateDeactivated = ''deactivated''"
  unfolding const_defs by (simp_all add: foldAscii_def char_of_def bit_0)

lemma bizContainerState_parts:
  "Running (bizContainerState d) =
     (if EqualFold (b_State d) BizStateActivated then Some \<lparr>r_StartedAt = ChangeTime d\<rparr> else None)"
  "Terminated (bizContainerState d) \<noteq> None \<longleftrightarrow> EqualFold (b_State d) BizStateStopped"
  "Waiting (bizContainerState d) \<noteq> None \<longleftrightarrow>
     EqualFold (b_State d) BizStateResolved \<or> EqualFold (b_State d) BizStateBroken \<or>
     EqualFold (b_State d) BizStateDeactivated"
  by (auto simp: bizContainerState_def emptyState_def EqualFold_def)

section \<open>Lemmas: finding pods\<close>

lemma fillLoop_filter:
  "fillLoop m bs wi wo =
     (wi @ filter (\<lambda>b. PodKey b \<noteq> '''') (map (fillOne m) bs),
      wo @ filter (\<lambda>b. PodKey b = '''') (map (fillOne m) bs))"
  by (induction m bs wi wo rule: fillLoop.induct) (auto simp: Let_def)

lemma FillPodKey_filter:
  "FillPodKey pods bs =
     (filter (\<lambda>b. PodKey b \<noteq> '''') (map (fillOne (bizKeyToPodKey pods)) bs),
      filter (\<lambda>b. PodKey b = '''') (map (fillOne (bizKeyToPodKey pods)) bs))"
  by (simp add: FillPodKey_def fillLoop_filter)

definition runsBiz :: "Pod \<Rightarrow> string \<Rightarrow> bool" where
  "runsBiz pod key \<longleftrightarrow>
     (\<exists>c\<in>set (elems (Containers pod)). isBizJar c \<and> GetBizUniqueKey c = key)"

lemma inner_fold:
  "fold (\<lambda>container m. if isBizJar container then m(GetBizUniqueKey container \<mapsto> v) else m) cs m key =
     (if \<exists>c\<in>set cs. isBizJar c \<and> GetBizUniqueKey c = key then Some v else m key)"
  by (induction cs arbitrary: m) auto

lemma bizKeyToPodKey_snoc:
  "bizKeyToPodKey (pods @ [pod]) key =
     (if runsBiz pod key then Some (GetPodKey (Some pod)) else bizKeyToPodKey pods key)"
  by (auto simp: bizKeyToPodKey_def inner_fold runsBiz_def)

lemma bizKeyToPodKey_find:
  "bizKeyToPodKey pods key =
     map_option (\<lambda>pod. GetPodKey (Some pod)) (find (\<lambda>pod. runsBiz pod key) (rev pods))"
proof (induction pods rule: rev_induct)
  case Nil
  show ?case by (simp add: bizKeyToPodKey_def)
next
  case (snoc pod pods)
  then show ?case by (simp add: bizKeyToPodKey_snoc)
qed

section \<open>Properties of the retry loops\<close>

text \<open>A loop that returns has met an end of its retries.\<close>

lemma retryLoop_only_if:
  assumes "retryLoop call limiter waitCtx m shouldRetry err t = Some r"
    "shouldRetry = wantsRetry call s m" "t = stateAfter call s (Suc m)"
  shows "\<exists>n. retryEnds call limiter waitCtx s n"
proof -
  have "\<forall>s. shouldRetry = wantsRetry call s m \<longrightarrow> t = stateAfter call s (Suc m) \<longrightarrow>
        (\<exists>n. retryEnds call limiter waitCtx s n)"
  proof (rule retryLoop.raw_induct [where P = "\<lambda>call limiter waitCtx m sr err t r.
        \<forall>s. sr = wantsRetry call s m \<longrightarrow> t = stateAfter call s (Suc m) \<longrightarrow>
          (\<exists>n. retryEnds call limiter waitCtx s n)", OF _ assms(1)], intro allI impI)
    fix loop call limiter waitCtx m sr and err :: "goerror option" and t r s
    assume IH: "\<And>call limiter waitCtx m sr err t r. loop call limiter waitCtx m sr err t = Some r \<Longrightarrow>
        \<forall>s. sr = wantsRetry call s m \<longrightarrow> t = stateAfter call s (Suc m) \<longrightarrow>
          (\<exists>n. retryEnds call limiter waitCtx s n)"
      and body: "(if sr
        then case waitCtx (Suc m) (limiter (of_nat (Suc m))) of
               Some ctxErr \<Rightarrow> Some (Some ctxErr, t)
             | None \<Rightarrow> (case call (Suc m) t of (sr', err', s') \<Rightarrow>
                  loop call limiter waitCtx (Suc m) sr' err' s')
        else Some (err, t)) = Some r"
      and s: "sr = wantsRetry call s m" "t = stateAfter call s (Suc m)"
    show "\<exists>n. retryEnds call limiter waitCtx s n"
    proof (cases "retryEnds call limiter waitCtx s m")
      case False
      then have "sr" "waitCtx (Suc m) (limiter (of_nat (Suc m))) = None"
        using s(1) by (auto simp: retryEnds_def)
      with body obtain sr' e t' where call: "call (Suc m) t = (sr', e, t')"
        "loop call limiter waitCtx (Suc m) sr' e t' = Some r"
        by (auto split: prod.splits)
      from IH [OF call(2), THEN spec, of s] call(1) s(2) show ?thesis by simp
    qed blast
  qed
  with assms show ?thesis by blast
qed

lemma CallWithRetry_diverges:
  assumes "\<And>n. \<not> retryEnds call limiter waitCtx s n"
  shows "CallWithRetry call (Some limiter) waitCtx s = None"
proof -
  have "retryLoop call limiter waitCtx 0 (wantsRetry call s 0) (errorAt call s 0)
      (stateAfter call s (Suc 0)) \<noteq> Some r" for r
    using retryLoop_only_if [where s = s and m = 0 and r = r, OF _ refl refl, of call limiter waitCtx] assms by blast
  then have "retryLoop call limiter waitCtx 0 (wantsRetry call s 0) (errorAt call s 0)
      (stateAfter call s (Suc 0)) = None"
    by (rule not_Some_eq [THEN iffD1, OF allI])
  then show ?thesis by (simp add: CallWithRetry_def case_prod_beta)
qed

text \<open>A call that returns leaves the state after some attempt.\<close>

lemma CallWithRetry_state:
  assumes "CallWithRetry call (Some limiter) waitCtx s = Some (e, t)"
  shows "\<exists>n. t = stateAfter call s (Suc n)"
proof -
  obtain n where "retryEnds call limiter waitCtx s n"
    using CallWithRetry_diverges [of call limiter waitCtx s] assms by fastforce
  then obtain m where m: "retryEnds call limiter waitCtx s m" "\<forall>k<m. \<not> retryEnds call limiter waitCtx s k"
    using exists_least_iff [of "retryEnds call limiter waitCtx s"] by blast
  from CallWithRetry_first_end [OF m] assms show ?thesis by auto
qed

text \<open>\<open>CallWithRetry\<close> returns exactly when some attempt does not ask for a retry or the
  context ends during some wait; it then returns the error of the first such attempt or wait and
  has called the function once for each attempt up to there, and loops forever otherwise.\<close>

theorem CallWithRetry_result:
  "CallWithRetry call (Some limiter) waitCtx s =
    (if \<exists>n. retryEnds call limiter waitCtx s n
     then let n = (LEAST n. retryEnds call limiter waitCtx s n)
          in Some (if wantsRetry call s n then waitCtx (Suc n) (limiter (of_nat (Suc n)))
                   else errorAt call s n, stateAfter call s (Suc n))
     else None)"
proof (cases "\<exists>n. retryEnds call limiter waitCtx s n")
  case True
  define m where "m = (LEAST n. retryEnds call limiter waitCtx s n)"
  have m: "retryEnds call limiter waitCtx s m" "\<forall>k<m. \<not> retryEnds call limiter waitCtx s k"
    using LeastI_ex [OF True] not_less_Least unfolding m_def by blast+
  show ?thesis
    using True CallWithRetry_first_end [OF m] unfolding m_def [symmetric] Let_def
    by (simp only: if_True)
next
  case False
  then show ?thesis by (simp add: CallWithRetry_diverges)
qed

text \<open>The delays of \<open>DefaultRateLimiter\<close> never wrap around: for every retry number they are
  between zero and a thousand seconds, and a later retry never waits less.\<close>

theorem DefaultRateLimiter_monotone:
  assumes "0 \<le> sint m" "sint m \<le> sint n"
  shows "0 \<le> sint (DefaultRateLimiter m) \<and>
    sint (DefaultRateLimiter m) \<le> sint (DefaultRateLimiter n) \<and>
    sint (DefaultRateLimiter n) \<le> 1000 * second"
  using assms rateSpec_bounds [of "sint m"] rateSpec_bounds [of "sint n"]
    rateSpec_mono [of "sint m" "sint n"]
  by (simp add: sint_DefaultRateLimiter)

lemma DefaultRateLimiter_monotone_witness:
  "0 \<le> sint (DefaultRateLimiter 29) \<and>
    sint (DefaultRateLimiter 29) \<le> sint (DefaultRateLimiter 30) \<and>
    sint (DefaultRateLimiter 30) \<le> 1000 * second"
  by (rule DefaultRateLimiter_monotone) simp_all

text \<open>\<open>CheckAndFinallyCall\<close> ends once its deadline is seen in some round, and has three
  ways to end: the deadline (only the timeout callback runs), an error of the check (no callback
  runs), a check that passed (only the final callback runs, and the call returns if that one
  does).\<close>

theorem CheckAndFinallyCall_ends:
  assumes "n \<le> m" "timedOut m"
  shows "\<exists>t. CheckAndFinallyCall checkFunc timedOut finally timeoutCall n s =
       Some (Some (ErrText ''check time out''), timeoutCall t) \<or>
     (\<exists>f e t'. checkFunc t = ((f, Some e), t') \<and>
       CheckAndFinallyCall checkFunc timedOut finally timeoutCall n s =
         Some (Some (ErrWrap ''Error when checking condition'' e), t')) \<or>
     (\<exists>t'. checkFunc t = ((True, None), t') \<and>
       CheckAndFinallyCall checkFunc timedOut finally timeoutCall n s =
         map_option (Pair None) (finally t'))"
  using assms
proof (induction arbitrary: s rule: inc_induct)
  case base
  then show ?case by (subst CheckAndFinallyCall.simps) auto
next
  case (step n)
  obtain f e t where check: "checkFunc s = ((f, e), t)" by (metis surj_pair)
  have unfold: "CheckAndFinallyCall checkFunc timedOut finally timeoutCall n s =
     (if timedOut n then Some (Some (ErrText ''check time out''), timeoutCall s)
      else case e of
        Some e' \<Rightarrow> Some (Some (ErrWrap ''Error when checking condition'' e'), t)
      | None \<Rightarrow> if f then map_option (Pair None) (finally t)
          else CheckAndFinallyCall checkFunc timedOut finally timeoutCall (Suc n) t)"
    by (subst CheckAndFinallyCall.simps) (simp add: check)
  consider "timedOut n" | e' where "\<not> timedOut n" "e = Some e'"
    | "\<not> timedOut n" "e = None" "f" | "\<not> timedOut n" "e = None" "\<not> f"
    by (cases e) auto
  then show ?case
  proof cases
    case 1
    then show ?thesis unfolding unfold by auto
  next
    case 2
    then show ?thesis unfolding unfold using check by auto
  next
    case 3
    then show ?thesis unfolding unfold using check by (intro exI [of _ s]) auto
  next
    case 4
    then show ?thesis unfolding unfold using step.IH [OF step.prems, of t] by simp
  qed
qed

lemma CheckAndFinallyCall_ends_witness:
  "\<exists>r. CheckAndFinallyCall (\<lambda>k. ((2 < k, None), Suc k)) (\<lambda>n. n = 9) (\<lambda>k. Some (10 * k)) (\<lambda>k. 0) 0 (0::nat) = Some r"
  using CheckAndFinallyCall_ends [of 0 9 "\<lambda>n. n = 9" "\<lambda>k. ((2 < k, None), Suc k)" "\<lambda>k. Some (10 * k)" "\<lambda>k. 0" 0]
  by fastforce

section \<open>Properties of keys and biz data\<close>

text \<open>C39. Keys round-trip exactly when their parts are free of separators: a pod key splits back into
  namespace and name, by the queue handlers' splitting function and by the biz status functions'
  own, and a biz identity splits back into name and version. With a separator in a part the first
  one does not return them, and the other two return two empty strings; the table of a test of the virtual node,
  which asserts nothing of it, expects the biz key test:biz:1.0.0 to be split at the first colon.\<close>

theorem keys_roundtrip:
  "(SplitMetaNamespaceKey (GetPodKey (Some p)) = Ok (Namespace p, Name p) \<longleftrightarrow>
      CHR ''/'' \<notin> set (Namespace p) \<and> CHR ''/'' \<notin> set (Name p)) \<and>
   GetNameSpaceAndNameFromPodKey (GetPodKey (Some p)) =
     (if CHR ''/'' \<in> set (Namespace p) \<or> CHR ''/'' \<in> set (Name p) then ('''', '''')
      else (Namespace p, Name p)) \<and>
   GetBizNameAndVersionFromUniqueKey (getBizIdentity name version) =
     (if CHR '':'' \<in> set name \<or> CHR '':'' \<in> set version then ('''', '''') else (name, version))"
  by (simp add: SplitMetaNamespaceKey_GetPodKey GetNameSpaceAndName_GetPodKey
      GetBizNameAndVersion_identity)

text \<open>The node id is recovered from a node name exactly when the environment holds no dot; the id
  itself may hold any number of dots.\<close>

theorem node_name_roundtrip:
  "ExtractNodeIDFromNodeName (FormatNodeName nodeID env) = nodeID \<longleftrightarrow> CHR ''.'' \<notin> set env"
  by (rule ExtractNodeID_FormatNodeName)

text \<open>C38. \<open>FillPodKey\<close> splits the biz data into those with and those without a pod key, in order and
  without loss; a missing key is filled from the last listed pod that runs that biz in a jar
  container, and a key that is present is kept.\<close>

theorem FillPodKey_partition:
  fixes pods :: "Pod list"
  defines "fill \<equiv> \<lambda>b. if PodKey b = '''' then
      (case find (\<lambda>pod. runsBiz pod (b_Key b)) (rev pods) of
         Some pod \<Rightarrow> b\<lparr>PodKey := GetPodKey (Some pod)\<rparr> | None \<Rightarrow> b) else b"
  shows "FillPodKey pods bs =
    (filter (\<lambda>b. PodKey b \<noteq> '''') (map fill bs), filter (\<lambda>b. PodKey b = '''') (map fill bs))"
proof -
  have "fillOne (bizKeyToPodKey pods) = fill"
    by (auto simp: fun_eq_iff fillOne_def bizKeyToPodKey_find fill_def split: option.split)
  then show ?thesis by (simp add: FillPodKey_filter)
qed

text \<open>The status of a container for the biz data of the same name does not depend on the old
  status, and its parts agree: it is ready exactly when it runs, runs exactly in state ACTIVATED
  (any case of letters), is terminated exactly in state STOPPED, and is in at most one of the
  three states.\<close>

theorem container_status_consistent:
  assumes "c_Name container = b_Name d"
  shows "\<exists>cs. ConvertBizStatusToContainerStatus container old (Some d) = Ok cs \<and>
    cs_Name cs = c_Name container \<and>
    (cs_Ready cs \<longleftrightarrow> EqualFold (b_State d) BizStateActivated) \<and>
    (cs_Ready cs \<longleftrightarrow> Running (cs_State cs) \<noteq> None) \<and>
    (Terminated (cs_State cs) \<noteq> None \<longleftrightarrow> EqualFold (b_State d) BizStateStopped) \<and>
    (Waiting (cs_State cs) = None \<or> Running (cs_State cs) = None) \<and>
    (Waiting (cs_State cs) = None \<or> Terminated (cs_State cs) = None) \<and>
    (Running (cs_State cs) = None \<or> Terminated (cs_State cs) = None)"
  using assms
  by (auto simp: ConvertBizStatusToContainerStatus_def pendingContainerStatus_def
      bizContainerState_def emptyState_def EqualFold_def)

lemma container_status_consistent_witness:
  "\<exists>cs. ConvertBizStatusToContainerStatus
      \<lparr>c_Name = ''biz'', c_Image = ''biz.jar'', c_Env = None, c_rest = 0\<rparr> None
      (Some \<lparr>b_Key = ''biz:1'', b_Name = ''biz'', PodKey = '''', b_State = ''activated'',
             ChangeTime = GoTime 1, b_Reason = '''', b_Message = ''''\<rparr>) = Ok cs \<and>
    cs_Name cs = ''biz''"
  using container_status_consistent [of "\<lparr>c_Name = ''biz'', c_Image = ''biz.jar'', c_Env = None, c_rest = 0\<rparr>"
      "\<lparr>b_Key = ''biz:1'', b_Name = ''biz'', PodKey = '''', b_State = ''activated'',
        ChangeTime = GoTime 1, b_Reason = '''', b_Message = ''''\<rparr>" None]
  by auto

section \<open>Properties of nodes\<close>

lemma conditionMap_find:
  "conditionMap data ty =
     (case find (\<lambda>c. nc_Type c = ty) (rev (elems (CustomConditions data))) of
        Some c \<Rightarrow> Some c | None \<Rightarrow> baseConditionMap ty)"
  by (simp add: conditionMap_def fold_upd_find)

lemma conditionMap_type: "conditionMap data ty = Some c \<Longrightarrow> nc_Type c = ty"
  by (auto simp: conditionMap_find baseConditionMap_def newNodeCondition_def
      find_Some_iff split: option.splits if_splits)

lemma distinct_range_values:
  "range_order m ks \<Longrightarrow> (\<And>k v. m k = Some v \<Longrightarrow> f v = k) \<Longrightarrow> distinct (map f (range_values m ks))"
proof -
  assume *: "range_order m ks" "\<And>k v. m k = Some v \<Longrightarrow> f v = k"
  have "set ks \<subseteq> dom m \<Longrightarrow> map f (range_values m ks) = ks"
    using *(2) by (induction ks) (auto simp: range_values_Cons)
  with *(1) show ?thesis by (simp add: range_order_def)
qed

text \<open>Whatever order the range over the conditions takes, a merged node is running, has each
  condition type once, has every custom condition of the data (the last one of its type) and the
  default for the five built-in types otherwise, and keeps the metadata and taints of the node.\<close>

theorem MergeNodeFromProvider_conditions:
  assumes "range_order (conditionMap data) order"
  shows "ns_Phase (n_Status (MergeNodeFromProvider order node data)) = NodeRunning \<and>
    distinct (map nc_Type (elems (ns_Conditions (n_Status (MergeNodeFromProvider order node data))))) \<and>
    set (elems (ns_Conditions (n_Status (MergeNodeFromProvider order node data)))) =
      {c. \<exists>ty. (case find (\<lambda>c. nc_Type c = ty) (rev (elems (CustomConditions data))) of
                 Some c' \<Rightarrow> Some c' | None \<Rightarrow> baseConditionMap ty) = Some c} \<and>
    n_Taints (MergeNodeFromProvider order node data) = n_Taints node \<and>
    n_Labels (MergeNodeFromProvider order node data) = n_Labels node"
proof -
  have "set order = dom (conditionMap data)" using assms by (simp add: range_order_def)
  then have "set (range_values (conditionMap data) order) = ran (conditionMap data)"
    by (rule set_range_values)
  moreover have "distinct (map nc_Type (range_values (conditionMap data) order))"
    by (rule distinct_range_values [OF assms]) (rule conditionMap_type)
  ultimately show ?thesis
    by (simp add: MergeNodeFromProvider_def ran_def flip: conditionMap_find)
qed

definition plainNode :: Node where
  "plainNode = \<lparr>n_Name = ''vnode.a.dev'', n_Namespace = '''', n_UID = '''', n_Labels = None,
     n_Annotations = None, n_Taints = None, n_Status = \<lparr>ns_Phase = '''', ns_Addresses = None,
     ns_Conditions = None, ns_Capacity = None, ns_Allocatable = None, ns_rest = 0\<rparr>, n_rest = 0\<rparr>"

definition plainData :: NodeStatusData where
  "plainData = \<lparr>Resources = None, CustomConditions = None, NodeState = ''''\<rparr>"

lemma MergeNodeFromProvider_conditions_witness:
  "ns_Phase (n_Status (MergeNodeFromProvider
     [NodeReady, NodeMemoryPressure, NodeDiskPressure, NodePIDPressure, NodeNetworkUnavailable]
     plainNode plainData)) = NodeRunning"
proof -
  have "range_order (conditionMap plainData)
     [NodeReady, NodeMemoryPressure, NodeDiskPressure, NodePIDPressure, NodeNetworkUnavailable]"
    by (auto simp: range_order_def conditionMap_def plainData_def baseConditionMap_def node_const_defs)
  from MergeNodeFromProvider_conditions [OF this, of plainNode] show ?thesis by simp
qed

end
