(* ===== verification/Tracker.thy ===== *)
theory Tracker
  imports Utils
begin

text \<open>
  common/tracker/default_tracker.go: the tracker that wraps the operations of the provider,
  logs each one with its result, and reports it to the configured links. The wrapped functions
  and the two sinks (the log writer, the posts to the links) work on a state of any type; a
  post runs in a goroutine of its own, and \<open>report\<close> is its start. Its initialisation and the choice of
  the tracker in use (common/tracker/tracker.go) follow.
\<close>

definition EventSuccess :: string where "EventSuccess = ''success''"
definition EventFail :: string where "EventFail = ''fail''"

record defaultTrackerConfig =
  LogDir :: string
  ReportLevel :: string
  ReportLinks :: "string slice"

definition isDebug :: "defaultTrackerConfig \<Rightarrow> bool" where
  "isDebug c \<longleftrightarrow> ReportLevel c = ''debug''"

text \<open>The message is the error it is the text of.\<close>

record logData =
  TraceID :: string
  Scene :: string
  Event :: string
  TimeUsed :: int
  Result :: string
  Message :: "goerror option"
  Code :: string
  ld_Labels :: "(string, string) gomap"

text \<open>The posts of one event: one for each link.\<close>

definition reportEvent :: "defaultTrackerConfig \<Rightarrow> logData \<Rightarrow> (string \<times> logData) list" where
  "reportEvent c data = map (\<lambda>link. (link, data)) (elems (ReportLinks c))"

record 's trackerEnv =
  config :: defaultTrackerConfig
  recordEvent :: "logData \<Rightarrow> 's \<Rightarrow> 's"
  report :: "logData \<Rightarrow> 's \<Rightarrow> 's"
  trackerNow :: "'s \<Rightarrow> gotime"

text \<open>\<open>Milliseconds\<close> of a duration.\<close>

definition Milliseconds :: "duration \<Rightarrow> int" where
  "Milliseconds d = truncDiv d millisecond"

definition ErrorReport ::
  "'s trackerEnv \<Rightarrow> string \<Rightarrow> string \<Rightarrow> string \<Rightarrow> goerror \<Rightarrow> (string, string) gomap \<Rightarrow> string \<Rightarrow> 's \<Rightarrow> 's"
where
  "ErrorReport t traceID scene event message labels code s =
     (let data = \<lparr>TraceID = traceID, Scene = scene, Event = event, TimeUsed = 0,
                  Result = EventFail, Message = Some message, Code = code, ld_Labels = labels\<rparr>
      in recordEvent t data (report t data s))"

text \<open>
  \<open>FuncTrack\<close>. The function returns its error, its code and the new state, or does not
  return.
\<close>

definition FuncTrack ::
  "'s trackerEnv \<Rightarrow> string \<Rightarrow> string \<Rightarrow> string \<Rightarrow> (string, string) gomap \<Rightarrow>
   ('s \<Rightarrow> ((goerror option \<times> string) \<times> 's) option) \<Rightarrow> 's \<Rightarrow> (goerror option \<times> 's) option"
where
  "FuncTrack t traceID scene event labels f s =
     (let startTime = trackerNow t s
      in case f s of
           None \<Rightarrow> None
         | Some ((err, code), s) \<Rightarrow>
             (let data = \<lparr>TraceID = traceID, Scene = scene, Event = event,
                          TimeUsed = Milliseconds (Sub (trackerNow t s) startTime),
                          Result = EventSuccess, Message = None, Code = code, ld_Labels = labels\<rparr>;
                  data = (if err \<noteq> None then data\<lparr>Result := EventFail, Message := err\<rparr> else data);
                  s = (if err \<noteq> None \<or> isDebug (config t) then report t data s else s)
              in Some (err, recordEvent t data s)))"

text \<open>
  \<open>Eventually\<close>. The result of \<open>CheckAndFinallyCall\<close> is dropped; the timeout callback
  sets \<open>checkTimeout\<close>, which is threaded beside the state.
\<close>

definition Eventually ::
  "'s trackerEnv \<Rightarrow> string \<Rightarrow> string \<Rightarrow> string \<Rightarrow> (string, string) gomap \<Rightarrow> string \<Rightarrow>
   ('s \<Rightarrow> (bool \<times> goerror option) \<times> 's) \<Rightarrow> (nat \<Rightarrow> bool) \<Rightarrow> ('s \<Rightarrow> 's option) \<Rightarrow> ('s \<Rightarrow> 's) \<Rightarrow> 's \<Rightarrow> 's option"
where
  "Eventually t traceID scene event labels timeoutErrorCode checkFunc timedOut checkPassed timeoutCall s =
     (let startTime = trackerNow t s;
          data = \<lparr>TraceID = traceID, Scene = scene, Event = event, TimeUsed = 0,
                  Result = EventSuccess, Message = None, Code = CodeSuccess, ld_Labels = labels\<rparr>
      in case CheckAndFinallyCall
                (\<lambda>(s, data, checkTimeout). case checkFunc s of (r, s') \<Rightarrow> (r, (s', data, checkTimeout)))
                timedOut
                (\<lambda>(s, data, checkTimeout). map_option (\<lambda>s. (s, data, checkTimeout)) (checkPassed s))
                (\<lambda>(s, data, checkTimeout). (timeoutCall s, data\<lparr>Code := timeoutErrorCode\<rparr>, True))
                0 (s, data, False) of
           None \<Rightarrow> None
         | Some (_, (s, data, checkTimeout)) \<Rightarrow>
             (let data = data\<lparr>TimeUsed := Milliseconds (Sub (trackerNow t s) startTime)\<rparr>;
                  data = (if checkTimeout
                          then data\<lparr>Result := EventFail, Message := Some (ErrText ''event timeout''),
                                    Code := CodeSuccess\<rparr>
                          else data);
                  s = (if checkTimeout \<or> isDebug (config t) then report t data s else s)
              in Some (recordEvent t data s)))"

section \<open>Starting the tracker\<close>

definition DefaultConfigPath :: string where
  "DefaultConfigPath = ''config/default_tracker_config.yaml''"

text \<open>
  The tracker itself. The writer is nil, the standard output, or a file; the records above take the
  configuration and what writing and posting do as functions.
\<close>

datatype logWriter = Stdout | LogFile string

record DefaultTracker =
  dt_config :: defaultTrackerConfig
  dt_logWriter :: "logWriter option"

definition zeroTracker :: DefaultTracker where
  "zeroTracker = \<lparr>dt_config = \<lparr>LogDir = '''', ReportLevel = '''', ReportLinks = None\<rparr>, dt_logWriter = None\<rparr>"

text \<open>
  What \<open>Init\<close> asks of its surroundings: the environment variables, the content of a file, the YAML
  parser, which writes over a configuration, and whether the log file can be opened.
\<close>

record initEnv =
  envVars :: "string \<rightharpoonup> string"
  ReadFile :: "string \<Rightarrow> goerror + string"
  Unmarshal :: "string \<Rightarrow> defaultTrackerConfig \<Rightarrow> goerror + defaultTrackerConfig"
  joinPath :: "string \<Rightarrow> string \<Rightarrow> string"
  OpenFile :: "string \<Rightarrow> goerror option"

definition Init :: "initEnv \<Rightarrow> DefaultTracker \<Rightarrow> DefaultTracker outcome" where
  "Init env t =
     (let configPath = GetEnv (envVars env) ''TRACKER_CONFIG_PATH'' DefaultConfigPath;
          cfg = \<lparr>LogDir = '''', ReportLevel = ''error'', ReportLinks = None\<rparr>
      in case ReadFile env configPath of
           Inl err \<Rightarrow> Ok (t\<lparr>dt_logWriter := Some Stdout\<rparr>)
         | Inr configContent \<Rightarrow>
             (case Unmarshal env configContent cfg of
                Inl err \<Rightarrow> Panic
              | Inr cfg \<Rightarrow>
                  (let t = t\<lparr>dt_config := cfg\<rparr>; file = joinPath env (LogDir cfg) ''events.log''
                   in case OpenFile env file of
                        Some err \<Rightarrow> Ok (t\<lparr>dt_logWriter := Some Stdout\<rparr>)
                      | None \<Rightarrow> Ok (t\<lparr>dt_logWriter := Some (LogFile file)\<rparr>))))"

text \<open>
  The tracker in use. A custom one is of any type and has an \<open>Init\<close> of its own; nil is not taken.
\<close>

definition SetTracker :: "('t \<Rightarrow> 't outcome) \<Rightarrow> 't option \<Rightarrow> 't \<Rightarrow> 't outcome" where
  "SetTracker init t T = (case t of None \<Rightarrow> Ok T | Some t \<Rightarrow> init t)"

definition GetTracker :: "'t \<Rightarrow> 't" where
  "GetTracker T = T"

definition defaultT :: DefaultTracker where
  "defaultT = zeroTracker\<lparr>dt_logWriter := Some Stdout\<rparr>"

text \<open>A tracker that was started has a writer, so that logging does not panic; and its report level is
  the default \<open>error\<close> only when a configuration was read: without one it stays what it was.\<close>

lemma Init_result:
  assumes "Init env t = Ok t'"
  shows "dt_logWriter t' \<noteq> None"
    "(\<exists>e. ReadFile env (GetEnv (envVars env) ''TRACKER_CONFIG_PATH'' DefaultConfigPath) = Inl e) \<Longrightarrow>
       dt_config t' = dt_config t"
  using assms by (auto simp: Init_def Let_def split: sum.splits option.splits)

section \<open>What is logged\<close>

text \<open>A tracker that keeps the log as its state, with a clock of its own.\<close>

definition logging :: "defaultTrackerConfig \<Rightarrow> (logData list \<Rightarrow> gotime) \<Rightarrow> logData list trackerEnv" where
  "logging c clk = \<lparr>config = c, recordEvent = (\<lambda>d log. log @ [d]), report = (\<lambda>d log. log), trackerNow = clk\<rparr>"

text \<open>\<open>FuncTrack\<close> is transparent: it returns the error of the tracked function, returns exactly
  when the function does, and leaves one log entry behind whose result and message are those of
  the error and whose code is the function's.\<close>

theorem FuncTrack_transparent:
  "FuncTrack (logging c clk) tid sc ev lbl f s =
     (case f s of
        None \<Rightarrow> None
      | Some ((err, code), s') \<Rightarrow>
          Some (err, s' @ [\<lparr>TraceID = tid, Scene = sc, Event = ev,
            TimeUsed = Milliseconds (Sub (clk s') (clk s)),
            Result = (if err = None then EventSuccess else EventFail), Message = err,
            Code = code, ld_Labels = lbl\<rparr>]))"
  by (auto simp: FuncTrack_def logging_def Let_def split: option.split prod.split)

text \<open>The state before a round of polling, when no round before it ended the loop.\<close>

primrec polled :: "('s \<Rightarrow> (bool \<times> goerror option) \<times> 's) \<Rightarrow> 's \<Rightarrow> nat \<Rightarrow> 's" where
  "polled check s 0 = s"
| "polled check s (Suc n) = snd (check (polled check s n))"

lemma CheckAndFinallyCall_polled:
  assumes "\<forall>k<n. \<not> timedOut k \<and> fst (check (polled check s k)) = (False, None)"
  shows "CheckAndFinallyCall check timedOut passed late 0 s =
    CheckAndFinallyCall check timedOut passed late n (polled check s n)"
  using assms
proof (induction n)
  case (Suc n)
  obtain t where "check (polled check s n) = ((False, None), t)"
    using Suc.prems by (metis lessI prod.collapse)
  then have "CheckAndFinallyCall check timedOut passed late n (polled check s n) =
      CheckAndFinallyCall check timedOut passed late (Suc n) (polled check s (Suc n))"
    using Suc.prems by (subst CheckAndFinallyCall.simps) simp
  with Suc show ?case by simp
qed simp

lemma polled_beside:
  "polled (\<lambda>(s, d, b). case check s of (r, s') \<Rightarrow> (r, (s', d, b))) (s, d, b) n = (polled check s n, d, b)"
  by (induction n) (simp_all add: case_prod_beta)

text \<open>C40. However long it polls, the end of \<open>Eventually\<close> decides what is logged. If the deadline passes
  after any number of rounds that found neither success nor an error, the event is logged and reported
  as a failure, but with the code of success: the timeout code that the caller passes is never logged.
  If a round before the deadline fails with an error, the event is logged as a success, without the
  error and without calling \<open>checkPassed\<close>. If a round succeeds, \<open>checkPassed\<close> runs on the state that
  it left, and the event is logged as a success if it returns. Only a tracker at debug level reports
  the last two.\<close>

theorem Eventually_timeout_code:
  fixes t :: "'s trackerEnv" and tid sc ev :: string and lbl :: "(string, string) gomap"
  assumes pending: "\<forall>k<n. \<not> timedOut k \<and> fst (check (polled check s k)) = (False, None)"
    and ends: "timedOut n \<or> fst (check (polled check s n)) \<noteq> (False, None)"
  defines "ended \<equiv> \<lambda>s' result message. \<lparr>TraceID = tid, Scene = sc, Event = ev,
      TimeUsed = Milliseconds (Sub (trackerNow t s') (trackerNow t s)), Result = result,
      Message = message, Code = CodeSuccess, ld_Labels = lbl\<rparr>"
  defines "good \<equiv> \<lambda>s'. recordEvent t (ended s' EventSuccess None)
      (if isDebug (config t) then report t (ended s' EventSuccess None) s' else s')"
  shows "Eventually t tid sc ev lbl timeoutErrorCode check timedOut passed late s =
    (if timedOut n
     then (let s' = late (polled check s n); d = ended s' EventFail (Some (ErrText ''event timeout''))
           in Some (recordEvent t d (report t d s')))
     else case check (polled check s n) of
       ((b, Some e), s') \<Rightarrow> Some (good s')
     | ((b, None), s') \<Rightarrow> map_option good (passed s'))"
proof -
  let ?d = "\<lparr>TraceID = tid, Scene = sc, Event = ev, TimeUsed = 0, Result = EventSuccess,
      Message = None, Code = CodeSuccess, ld_Labels = lbl\<rparr>"
  let ?check = "\<lambda>(s, d :: logData, b :: bool). case check s of (r, s') \<Rightarrow> (r, (s', d, b))"
  have "\<forall>k<n. \<not> timedOut k \<and> fst (?check (polled ?check (s, ?d, False) k)) = (False, None)"
    unfolding polled_beside using pending by (auto simp: case_prod_beta)
  note loop = CheckAndFinallyCall_polled [OF this, unfolded polled_beside]
  obtain b e s' where c: "check (polled check s n) = ((b, e), s')" by (metis surj_pair)
  from ends show ?thesis
    unfolding Eventually_def Let_def loop ended_def good_def
    by (subst CheckAndFinallyCall.simps) (cases e; cases b; cases "passed s'"; simp add: c)
qed

lemma Eventually_timeout_code_witness:
  "Eventually (logging \<lparr>LogDir = [], ReportLevel = ''error'', ReportLinks = None\<rparr> (\<lambda>_. GoTime 3)) [] [] [] None
     ''00009'' (\<lambda>log. ((False, None), log)) (\<lambda>k. k = 60) Some (\<lambda>log. log) [] =
   Some [\<lparr>TraceID = [], Scene = [], Event = [], TimeUsed = 0, Result = EventFail,
     Message = Some (ErrText ''event timeout''), Code = CodeSuccess, ld_Labels = None\<rparr>]"
proof -
  have same: "polled (Pair (False, None)) [] k = ([] :: logData list)" for k by (induction k) simp_all
  show ?thesis
    by (subst Eventually_timeout_code [where n = 60])
      (simp_all add: same logging_def Let_def Milliseconds_def truncDiv_def Sub_def minDuration_def maxDuration_def)
qed

end
