(* ===== verification/Stores.thy ===== *)
theory Stores
  imports Utils
begin

text \<open>
  provider/liveness.go and provider/vpod_store.go, and the interfaces of the program's
  in-memory stores: what a lookup returns after an insertion, an update or a deletion. Each
  operation of a store runs under its lock and is atomic.
\<close>

section \<open>Liveness of a node\<close>

record Liveness =
  isClose :: bool
  LatestHeartBeatTime :: gotime

definition UpdateHeartBeatTime :: "gotime \<Rightarrow> Liveness \<Rightarrow> Liveness" where
  "UpdateHeartBeatTime now l = l\<lparr>isClose := False, LatestHeartBeatTime := now\<rparr>"

definition IsDead :: "gotime \<Rightarrow> Liveness \<Rightarrow> bool" where
  "IsDead now l \<longleftrightarrow>
     isClose l \<or> NodeToDeadMaxSeconds * second \<le> Sub now (LatestHeartBeatTime l)"

definition Close :: "gotime \<Rightarrow> Liveness \<Rightarrow> Liveness" where
  "Close now l = l\<lparr>isClose := True, LatestHeartBeatTime := now\<rparr>"

definition IsReachable :: "gotime \<Rightarrow> Liveness \<Rightarrow> bool" where
  "IsReachable now l \<longleftrightarrow>
     \<not> isClose l \<and> Sub now (LatestHeartBeatTime l) \<le> NodeToUnreachableMaxSeconds * second"

text \<open>
  The liveness of a node in one word, and the life of a node as the provider reports it: heart
  beats, a deactivation message, and time.
\<close>

datatype livenessState = Reachable | Unreachable | Dead

definition livenessOf :: "gotime \<Rightarrow> Liveness \<Rightarrow> livenessState" where
  "livenessOf now l =
     (if IsDead now l then Dead else if IsReachable now l then Reachable else Unreachable)"

datatype livenessEvent = HeartBeat gotime | Deactivated gotime

fun applyLiveness :: "livenessEvent \<Rightarrow> Liveness \<Rightarrow> Liveness" where
  "applyLiveness (HeartBeat t) l = UpdateHeartBeatTime t l"
| "applyLiveness (Deactivated t) l = Close t l"

lemma IsReachable_not_dead: "IsReachable now l \<Longrightarrow> \<not> IsDead now l"
  by (auto simp: IsReachable_def IsDead_def const_defs go_defs)

lemma applyLiveness_last:
  "fold applyLiveness (evs @ [HeartBeat t]) l = \<lparr>isClose = False, LatestHeartBeatTime = t\<rparr>"
  "fold applyLiveness (evs @ [Deactivated t]) l = \<lparr>isClose = True, LatestHeartBeatTime = t\<rparr>"
  by (simp_all add: UpdateHeartBeatTime_def Close_def)

text \<open>Only the last message counts for the liveness of a node: after a heart beat it is reachable
  for 25 seconds, then unreachable, and dead from 60 seconds on; after a deactivation it is dead
  at once and stays so until a heart beat.\<close>

theorem liveness_of_last_message:
  "livenessOf now (fold applyLiveness (evs @ [HeartBeat t]) l) =
     (if 60 * second \<le> Sub now t then Dead
      else if Sub now t \<le> 25 * second then Reachable else Unreachable) \<and>
   livenessOf now (fold applyLiveness (evs @ [Deactivated t]) l) = Dead"
  unfolding applyLiveness_last
  by (simp add: livenessOf_def IsDead_def IsReachable_def NodeToDeadMaxSeconds_def
      NodeToUnreachableMaxSeconds_def)

section \<open>The interfaces of the stores\<close>

text \<open>A store that is read and deleted from by key.\<close>

locale lookup_store =
  fixes get :: "'s \<Rightarrow> 'k \<Rightarrow> 'v option"
    and del :: "'k \<Rightarrow> 's \<Rightarrow> 's"
  assumes get_del: "get (del k s) j = (if j = k then None else get s j)"
begin

lemma get_del_all: "get (fold del ks s) j = (if j \<in> set ks then None else get s j)"
  by (induction ks arbitrary: s) (auto simp: get_del)

lemma del_keeps: "(\<And>j v. get s j = Some v \<Longrightarrow> P j v) \<Longrightarrow> get (del k s) j = Some v \<Longrightarrow> P j v"
  by (auto simp: get_del split: if_splits)

end

text \<open>A store that files each value under a key of its own.\<close>

locale indexed_store = lookup_store get del
  for get :: "'s \<Rightarrow> 'k \<Rightarrow> 'v option" and del :: "'k \<Rightarrow> 's \<Rightarrow> 's" +
  fixes put :: "'v \<Rightarrow> 's \<Rightarrow> 's"
    and keyOf :: "'v \<Rightarrow> 'k"
  assumes get_put: "get (put v s) k = (if k = keyOf v then Some v else get s k)"
begin

lemma get_put_all:
  "get (fold put vs s) k = (case find (\<lambda>v. keyOf v = k) (rev vs) of Some v \<Rightarrow> Some v | None \<Rightarrow> get s k)"
proof (induction vs rule: rev_induct)
  case (snoc v vs)
  then show ?case by (auto simp: get_put)
qed simp

lemma put_del: "get (put v (del k s)) j = (if j = keyOf v then Some v else if j = k then None else get s j)"
  by (simp add: get_put get_del)

text \<open>Every value sits under its own key.\<close>

definition filed :: "'s \<Rightarrow> bool" where
  "filed s \<longleftrightarrow> (\<forall>k v. get s k = Some v \<longrightarrow> keyOf v = k)"

lemma filed_put: "filed s \<Longrightarrow> filed (put v s)"
  by (auto simp: filed_def get_put)

lemma filed_del: "filed s \<Longrightarrow> filed (del k s)"
  by (auto simp: filed_def get_del)

end

text \<open>A store whose insertion refuses a key in use.\<close>

locale guarded_store = lookup_store get del
  for get :: "'s \<Rightarrow> 'k \<Rightarrow> 'v option" and del :: "'k \<Rightarrow> 's \<Rightarrow> 's" +
  fixes add :: "'k \<Rightarrow> 'v \<Rightarrow> 's \<Rightarrow> 's outcome"
  assumes add_free: "get s k = None \<Longrightarrow> \<exists>s'. add k v s = Ok s' \<and> get s' = (get s)(k \<mapsto> v)"
    and add_used: "get s k \<noteq> None \<Longrightarrow> \<exists>e. add k v s = Err e"
begin

lemma add_Ok_iff: "(\<exists>s'. add k v s = Ok s') \<longleftrightarrow> get s k = None"
  using add_free [of s k v] add_used [of s k v] by (cases "get s k") auto

lemma add_get: "add k v s = Ok s' \<Longrightarrow> get s' j = (if j = k then Some v else get s j)"
  using add_Ok_iff [of k v s] add_free [of s k v] by auto

lemma add_twice: "add k v s = Ok s' \<Longrightarrow> \<exists>e. add k w s' = Err e"
  by (rule add_used) (simp add: add_get)

lemma add_after_del: "\<exists>s'. add k v (del k s) = Ok s'"
  by (simp add: add_Ok_iff get_del)

end

section \<open>The store of the pods of a provider\<close>

record VPodStore =
  podKeyToPod :: "string \<rightharpoonup> Pod"

definition NewVPodStore :: VPodStore where
  "NewVPodStore = \<lparr>podKeyToPod = Map.empty\<rparr>"

definition PutPod :: "Pod \<Rightarrow> VPodStore \<Rightarrow> VPodStore" where
  "PutPod pod r =
     (let podKey = GetPodKey (Some pod) in r\<lparr>podKeyToPod := (podKeyToPod r)(podKey \<mapsto> pod)\<rparr>)"

text \<open>\<open>DeletePod\<close> of the store; the provider has an operation of the same name.\<close>

definition storeDeletePod :: "string \<Rightarrow> VPodStore \<Rightarrow> VPodStore" where
  "storeDeletePod podKey r = r\<lparr>podKeyToPod := (podKeyToPod r)(podKey := None)\<rparr>"

definition GetPodByKey :: "VPodStore \<Rightarrow> string \<Rightarrow> Pod option" where
  "GetPodByKey r podKey = podKeyToPod r podKey"

text \<open>\<open>GetPods\<close> of the store; the order is the one of the range over the map.\<close>

definition storeGetPods :: "string list \<Rightarrow> VPodStore \<Rightarrow> Pod list" where
  "storeGetPods order r = range_values (podKeyToPod r) order"

interpretation vpods: indexed_store GetPodByKey storeDeletePod PutPod "\<lambda>p. GetPodKey (Some p)"
  by unfold_locales (simp_all add: GetPodByKey_def storeDeletePod_def PutPod_def Let_def)

text \<open>
  \<open>CheckContainerStatusNeedSync\<close>: the loops keep the last match. The time of the last
  change is the start of a running container, the end of a terminated one, or the last
  transition of the first condition of the pod for a waiting one.
\<close>

definition matchedStatus :: "Pod \<Rightarrow> BizStatusData \<Rightarrow> ContainerStatus option" where
  "matchedStatus pod data =
     find (\<lambda>status. cs_Name status = b_Name data \<and> Contains (cs_Image status) ''.jar'')
       (rev (elems (ContainerStatuses (Status pod))))"

definition matchedContainer :: "Pod \<Rightarrow> BizStatusData \<Rightarrow> Container option" where
  "matchedContainer pod data =
     find (\<lambda>container. c_Name container = b_Name data) (rev (elems (Containers pod)))"

definition oldChangeTime :: "Pod \<Rightarrow> BizStatusData \<Rightarrow> gotime" where
  "oldChangeTime pod data =
     (case (matchedContainer pod data, matchedStatus pod data) of
        (Some _, Some status) \<Rightarrow>
          (let t = (case Running (cs_State status) of None \<Rightarrow> zeroTime | Some r \<Rightarrow> r_StartedAt r);
               t = (case Terminated (cs_State status) of None \<Rightarrow> t | Some x \<Rightarrow> t_FinishedAt x)
           in case (Waiting (cs_State status), elems (Conditions (Status pod))) of
                (Some _, c # _) \<Rightarrow> pc_LastTransitionTime c
              | _ \<Rightarrow> t)
      | _ \<Rightarrow> zeroTime)"

definition CheckContainerStatusNeedSync :: "Pod \<Rightarrow> BizStatusData \<Rightarrow> bool" where
  "CheckContainerStatusNeedSync pod data \<longleftrightarrow>
     Second (ChangeTime data) > Second (oldChangeTime pod data)"

text \<open>The time of the last change does not depend on the time of the new data.\<close>

lemma oldChangeTime_new [simp]:
  "oldChangeTime pod (data\<lparr>ChangeTime := t\<rparr>) = oldChangeTime pod data"
  by (simp add: oldChangeTime_def matchedContainer_def matchedStatus_def)

text \<open>The number of the minute an instant lies in, and its second count.\<close>

definition minuteOf :: "gotime \<Rightarrow> int" where
  "minuteOf t = nanos t div (60 * second)"

definition secondsOf :: "gotime \<Rightarrow> int" where
  "secondsOf t = nanos t div second"

lemma Second_minute: "Second t = secondsOf t - 60 * minuteOf t"
proof -
  have "nanos t div (60 * second) = secondsOf t div 60"
    unfolding secondsOf_def by (simp add: second_def mult.commute flip: zdiv_zmult2_eq)
  moreover have "secondsOf t mod 60 = secondsOf t - 60 * (secondsOf t div 60)"
    by (simp add: minus_mult_div_eq_mod)
  ultimately show ?thesis by (simp add: Second_def minuteOf_def flip: secondsOf_def)
qed

text \<open>\<open>CheckContainerStatusNeedSync\<close> compares the second within the minute only: inside one
  minute it says whether the new change is later, at second precision, but a change that comes
  any whole number of minutes after the old one is never synced.\<close>

theorem need_sync_within_minute:
  "CheckContainerStatusNeedSync pod data =
     (secondsOf (oldChangeTime pod data) + 60 * (minuteOf (ChangeTime data) - minuteOf (oldChangeTime pod data))
        < secondsOf (ChangeTime data)) \<and>
   \<not> CheckContainerStatusNeedSync pod
       (data\<lparr>ChangeTime := Add (oldChangeTime pod data) (60 * second * k)\<rparr>)"
proof
  show "CheckContainerStatusNeedSync pod data =
     (secondsOf (oldChangeTime pod data) + 60 * (minuteOf (ChangeTime data) - minuteOf (oldChangeTime pod data))
        < secondsOf (ChangeTime data))"
    by (auto simp: CheckContainerStatusNeedSync_def Second_minute)
  have "(n + 60 * 1000000000 * k) div 1000000000 mod 60 = n div 1000000000 mod 60" for n :: int
  proof -
    have "(n + 60 * 1000000000 * k) div 1000000000 = n div 1000000000 + 60 * k"
      using div_mult_self2 [of 1000000000 n "60 * k"] by (simp add: mult.assoc mult.left_commute)
    then show ?thesis by simp
  qed
  then show "\<not> CheckContainerStatusNeedSync pod
       (data\<lparr>ChangeTime := Add (oldChangeTime pod data) (60 * second * k)\<rparr>)"
    by (simp add: CheckContainerStatusNeedSync_def Second_def second_def)
qed

end
