(* ===== verification/PodProvider.thy ===== *)
theory PodProvider
  imports Tracker Stores
begin

text \<open>
  provider/vpod_provider.go: the provider that keeps the pods of one virtual node, starts and
  stops their biz containers through the tunnel, and turns the biz status the tunnel reports
  into the status of pods. The tunnel, the API client, the cache and the callback of the pod
  controller are functions on a state of any type, the world; they may change it and answer as
  they like. A call that retries for ever, because the tunnel never succeeds and the context
  never ends, is the value \<open>None\<close>.
\<close>

section \<open>State and environment\<close>

record 'w providerEnv =
  StartBiz :: "string \<Rightarrow> string \<Rightarrow> Container \<Rightarrow> 'w \<Rightarrow> goerror option \<times> 'w"
  StopBiz :: "string \<Rightarrow> string \<Rightarrow> Container \<Rightarrow> 'w \<Rightarrow> goerror option \<times> 'w"
  notify :: "Pod \<Rightarrow> 'w \<Rightarrow> 'w"
  cacheGetPod :: "string \<Rightarrow> string \<Rightarrow> 'w \<Rightarrow> (goerror + Pod) \<times> 'w"
  clientGetPod :: "string \<Rightarrow> string \<Rightarrow> 'w \<Rightarrow> (goerror + Pod) \<times> 'w"
  trk :: "'w trackerEnv"
  ctxWait :: "nat \<Rightarrow> 64 word \<Rightarrow> goerror option"
  updateTimedOut :: "nat \<Rightarrow> bool"

record VPodProvider =
  vp_Namespace :: string
  nodeName :: string
  localIP :: string
  vPodStore :: VPodStore

definition NewVPodProvider :: "string \<Rightarrow> string \<Rightarrow> string \<Rightarrow> VPodProvider" where
  "NewVPodProvider namespace ip node =
     \<lparr>vp_Namespace = namespace, nodeName = node, localIP = ip, vPodStore = NewVPodStore\<rparr>"

section \<open>Starting and stopping containers\<close>

text \<open>
  One tracked call of the tunnel, retried until it succeeds. The error of the tunnel decides
  whether to retry.
\<close>

definition retryTunnel ::
  "'w providerEnv \<Rightarrow> ('w \<Rightarrow> goerror option \<times> 'w) \<Rightarrow> string \<Rightarrow> 'w \<Rightarrow> ((goerror option \<times> string) \<times> 'w) option"
where
  "retryTunnel env call failCode w =
     (case CallWithRetry (\<lambda>_ w. case call w of (innerErr, w) \<Rightarrow> (innerErr \<noteq> None, innerErr, w))
             None (ctxWait env) w of
        None \<Rightarrow> None
      | Some (Some err, w) \<Rightarrow> Some ((Some err, failCode), w)
      | Some (None, w) \<Rightarrow> Some ((None, CodeSuccess), w))"

definition labelMapOf :: "Pod \<Rightarrow> (string, string) gomap" where
  "labelMapOf pod = (case Labels pod of None \<Rightarrow> Some Map.empty | Some m \<Rightarrow> Some m)"

definition handleBizBatchStart ::
  "'w providerEnv \<Rightarrow> VPodProvider \<Rightarrow> Pod \<Rightarrow> Container list \<Rightarrow> 'w \<Rightarrow> 'w option" where
  "handleBizBatchStart env b pod containers w =
     (let podKey = GetPodKey (Some pod); labelMap = labelMapOf pod
      in foldOpt (\<lambda>container w.
           map_option snd
             (FuncTrack (trk env) (mapGetStr labelMap LabelKeyOfTraceID) TrackSceneVPodDeploy
               TrackEventContainerStart labelMap
               (retryTunnel env (StartBiz env (nodeName b) podKey container)
                  CodeContainerStartFailed) w))
         containers w)"

definition handleBizBatchStop ::
  "'w providerEnv \<Rightarrow> VPodProvider \<Rightarrow> Pod \<Rightarrow> Container list \<Rightarrow> 'w \<Rightarrow> 'w option" where
  "handleBizBatchStop env b pod containers w =
     (let podKey = GetPodKey (Some pod); labelMap = labelMapOf pod;
          podKeyToStopBiz = (if HasSuffix podKey ObjectMetaNameNotExistPod then '''' else podKey)
      in foldOpt (\<lambda>container w.
           map_option snd
             (FuncTrack (trk env) (mapGetStr labelMap LabelKeyOfTraceID) TrackSceneVPodDeploy
               TrackEventContainerShutdown labelMap
               (retryTunnel env (StopBiz env (nodeName b) podKeyToStopBiz container)
                  CodeContainerStopFailed) w))
         containers w)"

section \<open>The operations of the provider interface\<close>

definition CreatePod ::
  "'w providerEnv \<Rightarrow> Pod \<Rightarrow> VPodProvider \<Rightarrow> 'w \<Rightarrow> (goerror option \<times> VPodProvider \<times> 'w) option" where
  "CreatePod env pod b w =
     (let b = b\<lparr>vPodStore := PutPod pod (vPodStore b)\<rparr>
      in case handleBizBatchStart env b pod (elems (Containers pod)) w of
           None \<Rightarrow> None
         | Some w \<Rightarrow> Some (None, b, notify env pod w))"

text \<open>
  \<open>UpdatePod\<close>: the two container maps, and the containers to stop and to start. The ranges
  over the maps run in the orders given.
\<close>

definition containerMap :: "Container list \<Rightarrow> (string \<rightharpoonup> Container)" where
  "containerMap cs = fold (\<lambda>container m. m(c_Name container \<mapsto> container)) cs Map.empty"

definition changedContainers ::
  "string list \<Rightarrow> (string \<rightharpoonup> Container) \<Rightarrow> (string \<rightharpoonup> Container) \<Rightarrow> (Container \<times> Container) list" where
  "changedContainers order oldMap newMap =
     List.map_filter (\<lambda>name. case (oldMap name, newMap name) of
         (Some oldC, Some newC) \<Rightarrow> if newC \<noteq> oldC then Some (oldC, newC) else None
       | _ \<Rightarrow> None) order"

definition addedContainers ::
  "string list \<Rightarrow> (string \<rightharpoonup> Container) \<Rightarrow> (string \<rightharpoonup> Container) \<Rightarrow> Container list" where
  "addedContainers order oldMap newMap =
     List.map_filter (\<lambda>name. if oldMap name = None then newMap name else None) order"

text \<open>The check of \<open>Eventually\<close>: whether the old containers have terminated in the cluster.\<close>

definition statusMap :: "ContainerStatus list \<Rightarrow> (string \<rightharpoonup> ContainerStatus)" where
  "statusMap css = fold (\<lambda>cs m. m(cs_Name cs \<mapsto> cs)) css Map.empty"

definition checkStopped ::
  "'w providerEnv \<Rightarrow> Pod \<Rightarrow> Container list \<Rightarrow> 'w \<Rightarrow> (bool \<times> goerror option) \<times> 'w" where
  "checkStopped env pod shouldStop w =
     (case clientGetPod env (Namespace pod) (Name pod) w of
        (Inl err, w) \<Rightarrow> ((False, if IsNotFound err then Some err else None), w)
      | (Inr podFromKubernetes, w) \<Rightarrow>
          (let statuses = statusMap (elems (ContainerStatuses (Status podFromKubernetes)))
           in ((\<not> (\<exists>c\<in>set shouldStop. case statuses (c_Name c) of
                     Some status \<Rightarrow> Terminated (cs_State status) = None | None \<Rightarrow> False), None), w)))"

definition UpdatePod ::
  "'w providerEnv \<Rightarrow> string list \<Rightarrow> string list \<Rightarrow> Pod \<Rightarrow> VPodProvider \<Rightarrow> 'w \<Rightarrow>
   (goerror option \<times> VPodProvider \<times> 'w) option" where
  "UpdatePod env oldOrder newOrder pod b w =
     (if DeletionTimestamp pod \<noteq> None then Some (None, b, w)
      else case GetPodByKey (vPodStore b) (GetPodKey (Some pod)) of
        None \<Rightarrow> Some (Some (ErrText ''pod not found when updating''), b, w)
      | Some oldPod \<Rightarrow>
          (let newMap = containerMap (elems (Containers pod));
               oldMap = containerMap (elems (Containers oldPod));
               changed = changedContainers oldOrder oldMap newMap;
               shouldStop = map fst changed;
               shouldStart = map snd changed @ addedContainers newOrder oldMap newMap
           in case (if shouldStop \<noteq> [] then handleBizBatchStop env b oldPod shouldStop w else Some w) of
                None \<Rightarrow> None
              | Some w \<Rightarrow>
                  (let b = b\<lparr>vPodStore := PutPod pod (vPodStore b)\<rparr>
                   in if shouldStart = [] then Some (None, b, notify env pod w)
                      else case Eventually (trk env) (mapGetStr (Labels pod) LabelKeyOfTraceID)
                                  TrackSceneVPodDeploy TrackEventVPodUpdate (Labels pod)
                                  CodeContainerStartTimeout (checkStopped env pod shouldStop)
                                  (updateTimedOut env)
                                  (handleBizBatchStart env b pod shouldStart) (\<lambda>w. w) w of
                             None \<Rightarrow> None
                           | Some w \<Rightarrow> Some (None, b, notify env pod w))))"

text \<open>The pod argument is a pointer that is checked for nil.\<close>

definition DeletePod ::
  "'w providerEnv \<Rightarrow> Pod option \<Rightarrow> VPodProvider \<Rightarrow> 'w \<Rightarrow> (goerror option \<times> VPodProvider \<times> 'w) option" where
  "DeletePod env podPtr b w =
     (case podPtr of
        None \<Rightarrow> Some (None, b, w)
      | Some pod \<Rightarrow>
          (let b = b\<lparr>vPodStore := storeDeletePod (GetPodKey (Some pod)) (vPodStore b)\<rparr>
           in case handleBizBatchStop env b pod (elems (Containers pod)) w of
                None \<Rightarrow> None
              | Some w \<Rightarrow> Some (None, b, notify env pod w)))"

definition GetPod :: "VPodProvider \<Rightarrow> string \<Rightarrow> string \<Rightarrow> Pod option" where
  "GetPod b namespace name = GetPodByKey (vPodStore b) (namespace @ ''/'' @ name)"

definition GetPods :: "string list \<Rightarrow> VPodProvider \<Rightarrow> Pod list" where
  "GetPods order b = storeGetPods order (vPodStore b)"

section \<open>The status of a pod\<close>

record containerCounts =
  bizJarContainerCount :: nat
  readyBizJarContainerCount :: nat
  terminatedBizJarContainerCount :: nat
  notReadyBizJarContainerCount :: nat
  notInitedBizJarContainerCount :: nat
  statuses :: "ContainerStatus list"

definition zeroCounts :: containerCounts where
  "zeroCounts = \<lparr>bizJarContainerCount = 0, readyBizJarContainerCount = 0,
     terminatedBizJarContainerCount = 0, notReadyBizJarContainerCount = 0,
     notInitedBizJarContainerCount = 0, statuses = []\<rparr>"

definition countStatus :: "ContainerStatus \<Rightarrow> containerCounts \<Rightarrow> containerCounts" where
  "countStatus cs n =
     (let n = n\<lparr>statuses := statuses n @ [cs],
                bizJarContainerCount := Suc (bizJarContainerCount n)\<rparr>
      in if cs_Ready cs then n\<lparr>readyBizJarContainerCount := Suc (readyBizJarContainerCount n)\<rparr>
         else if Terminated (cs_State cs) \<noteq> None
         then n\<lparr>terminatedBizJarContainerCount := Suc (terminatedBizJarContainerCount n)\<rparr>
         else if Waiting (cs_State cs) \<noteq> None \<or> Running (cs_State cs) \<noteq> None
         then n\<lparr>notReadyBizJarContainerCount := Suc (notReadyBizJarContainerCount n)\<rparr>
         else n\<lparr>notInitedBizJarContainerCount := Suc (notInitedBizJarContainerCount n)\<rparr>)"

fun countContainers ::
  "(string \<rightharpoonup> ContainerStatus) \<Rightarrow> BizStatusData \<Rightarrow> Container list \<Rightarrow> containerCounts \<Rightarrow>
   containerCounts outcome" where
  "countContainers m bizStatus [] n = Ok n"
| "countContainers m bizStatus (container # cs) n =
     (if \<not> isBizJar container then countContainers m bizStatus cs n
      else case ConvertBizStatusToContainerStatus container (m (c_Name container)) (Some bizStatus) of
             Ok st \<Rightarrow> countContainers m bizStatus cs (countStatus st n)
           | Err e \<Rightarrow> Err e
           | Panic \<Rightarrow> Panic)"

definition podConditions :: "string \<Rightarrow> gotime \<Rightarrow> gotime \<Rightarrow> PodCondition slice" where
  "podConditions status t1 t2 =
     Some [\<lparr>pc_Type = ''Ready'', pc_Status = status, pc_LastProbeTime = t1,
            pc_LastTransitionTime = zeroTime, pc_rest = 0\<rparr>,
           \<lparr>pc_Type = ''ContainersReady'', pc_Status = status, pc_LastProbeTime = t2,
            pc_LastTransitionTime = zeroTime, pc_rest = 0\<rparr>]"

text \<open>The phase and the status of the two conditions.\<close>

definition phaseOf :: "containerCounts \<Rightarrow> string \<times> string" where
  "phaseOf n =
     (let total = bizJarContainerCount n
      in if total = 0 \<or> total = terminatedBizJarContainerCount n then (PodSucceeded, ConditionFalse)
         else if notInitedBizJarContainerCount n = total then (PodPending, ConditionFalse)
         else if total = readyBizJarContainerCount n then (PodRunning, ConditionTrue)
         else if 0 < notReadyBizJarContainerCount n \<or>
                 (0 < readyBizJarContainerCount n \<and> readyBizJarContainerCount n < total)
         then (PodRunning, ConditionFalse)
         else (PodPending, ConditionFalse))"

text \<open>\<open>t1\<close> and \<open>t2\<close> are the two readings of the clock.\<close>

definition GetPodStatus ::
  "gotime \<Rightarrow> gotime \<Rightarrow> Pod \<Rightarrow> BizStatusData \<Rightarrow> VPodProvider \<Rightarrow> PodStatus outcome" where
  "GetPodStatus t1 t2 pod bizStatus b =
     (let nameToContainerStatus = statusMap (elems (ContainerStatuses (Status pod)))
      in case countContainers nameToContainerStatus bizStatus (elems (Containers pod)) zeroCounts of
           Err e \<Rightarrow> Err e
         | Panic \<Rightarrow> Panic
         | Ok n \<Rightarrow>
             (case phaseOf n of (phase, ready) \<Rightarrow>
                Ok (zeroPodStatus\<lparr>PodIP := localIP b, PodIPs := Some [localIP b],
                      ContainerStatuses := Some (statuses n), Phase := phase,
                      Conditions := podConditions ready t1 t2\<rparr>)))"

section \<open>Syncing biz status\<close>

text \<open>Copying a nil status would panic.\<close>

definition syncBizStatusToKube ::
  "'w providerEnv \<Rightarrow> gotime \<Rightarrow> gotime \<Rightarrow> BizStatusData \<Rightarrow> VPodProvider \<times> 'w \<Rightarrow> (VPodProvider \<times> 'w) outcome" where
  "syncBizStatusToKube env t1 t2 bizStatusData s =
     (case s of (b, w) \<Rightarrow>
        (case GetPodByKey (vPodStore b) (PodKey bizStatusData) of
           None \<Rightarrow> Ok (b, w)
         | Some pod \<Rightarrow>
             (case GetPodStatus t1 t2 pod bizStatusData b of
                Ok podStatus \<Rightarrow>
                  (let podCopy = pod\<lparr>Status := podStatus\<rparr>
                   in Ok (b\<lparr>vPodStore := PutPod podCopy (vPodStore b)\<rparr>, notify env podCopy w))
              | _ \<Rightarrow> Panic)))"

definition SyncBizStatusToKube ::
  "'w providerEnv \<Rightarrow> gotime \<Rightarrow> gotime \<Rightarrow> BizStatusData \<Rightarrow> VPodProvider \<times> 'w \<Rightarrow> (VPodProvider \<times> 'w) outcome" where
  "SyncBizStatusToKube env t1 t2 bizStatusData s =
     (case s of (b, w) \<Rightarrow>
        (case GetNameSpaceAndNameFromPodKey (PodKey bizStatusData) of (namespace, name) \<Rightarrow>
           (case cacheGetPod env namespace name w of
              (Inl err, w) \<Rightarrow> Ok (b, w)
            | (Inr pod, w) \<Rightarrow>
                if CheckContainerStatusNeedSync pod bizStatusData
                then syncBizStatusToKube env t1 t2 bizStatusData (b, w)
                else Ok (b, w))))"

text \<open>
  \<open>SyncAllBizStatusToKube\<close>. The first loop looks at every container of every pod, newest pod
  first, and collects the data to update; the second loop syncs it. The unstable sort may leave
  pods of one creation time in any order, and so does the stable sort after a range in any
  order. A container without data gets the data of an unresolved biz, changed now.
\<close>

definition bizDataFor ::
  "(string \<rightharpoonup> BizStatusData) \<Rightarrow> gotime \<Rightarrow> string \<Rightarrow> Container \<Rightarrow> BizStatusData" where
  "bizDataFor m now podKey container =
     (let bizKey = GetBizUniqueKey container
      in case m bizKey of
           Some data \<Rightarrow> data
         | None \<Rightarrow> \<lparr>b_Key = bizKey, b_Name = c_Name container, PodKey = podKey,
                     b_State = BizStateUnResolved, ChangeTime = now, b_Reason = '''', b_Message = ''''\<rparr>)"

definition collectOne ::
  "'w providerEnv \<Rightarrow> BizStatusData \<Rightarrow> BizStatusData list \<times> 'w \<Rightarrow> BizStatusData list \<times> 'w" where
  "collectOne env bizStatusData s =
     (case s of (toUpdate, w) \<Rightarrow>
        (case GetNameSpaceAndNameFromPodKey (PodKey bizStatusData) of (namespace, name) \<Rightarrow>
           (case cacheGetPod env namespace name w of
              (Inl err, w) \<Rightarrow> (toUpdate, w)
            | (Inr pod, w) \<Rightarrow>
                (if CheckContainerStatusNeedSync pod bizStatusData
                 then (toUpdate @ [bizStatusData], w) else (toUpdate, w)))))"

definition bizDataMap :: "BizStatusData list \<Rightarrow> (string \<rightharpoonup> BizStatusData)" where
  "bizDataMap datas = fold (\<lambda>d m. m(b_Key d \<mapsto> d)) datas Map.empty"

definition sortedPods :: "string list \<Rightarrow> VPodStore \<Rightarrow> Pod list" where
  "sortedPods order r = sort_key (\<lambda>p. - UnixMilli (CreationTimestamp p)) (storeGetPods order r)"

definition collectUpdates ::
  "'w providerEnv \<Rightarrow> gotime \<Rightarrow> BizStatusData list \<Rightarrow> Pod list \<Rightarrow> 'w \<Rightarrow> BizStatusData list \<times> 'w" where
  "collectUpdates env now datas pods w =
     fold (\<lambda>pod. fold (\<lambda>container.
              collectOne env (bizDataFor (bizDataMap datas) now (GetPodKey (Some pod)) container))
            (elems (Containers pod)))
       pods ([], w)"

fun syncEach ::
  "'w providerEnv \<Rightarrow> (nat \<Rightarrow> gotime) \<Rightarrow> BizStatusData list \<Rightarrow> VPodProvider \<times> 'w \<Rightarrow> (VPodProvider \<times> 'w) outcome" where
  "syncEach env clk [] s = Ok s"
| "syncEach env clk (d # ds) s =
     (case syncBizStatusToKube env (clk 0) (clk 1) d s of
        Ok s' \<Rightarrow> syncEach env (\<lambda>n. clk (n + 2)) ds s'
      | Err e \<Rightarrow> Err e
      | Panic \<Rightarrow> Panic)"

text \<open>\<open>clk\<close> gives the successive readings of the clock after \<open>now\<close>.\<close>

definition SyncAllBizStatusToKube ::
  "'w providerEnv \<Rightarrow> string list \<Rightarrow> gotime \<Rightarrow> (nat \<Rightarrow> gotime) \<Rightarrow> BizStatusData list \<Rightarrow>
   VPodProvider \<times> 'w \<Rightarrow> (VPodProvider \<times> 'w) outcome" where
  "SyncAllBizStatusToKube env order now clk bizStatusDatas s =
     (case s of (b, w) \<Rightarrow>
        (case collectUpdates env now bizStatusDatas (sortedPods order (vPodStore b)) w of
           (toUpdate, w) \<Rightarrow> syncEach env clk toUpdate (b, w)))"

end
