(* ===== verification/PodProvider_Spec.thy ===== *)
theory PodProvider_Spec
  imports PodProvider
begin

text \<open>
  What the pod provider promises: the table of pod phases, totality of the status functions,
  which containers an update stops and starts and in which order, and the contract of the
  lifecycle operations that the pod controller relies on.
\<close>

section \<open>The status of a pod\<close>

lemma statusMap_name: "statusMap css n = Some cs \<Longrightarrow> cs_Name cs = n"
  by (auto simp: statusMap_def fold_upd_find split: option.splits dest: find_rev_Some)

text \<open>The class each status is counted in.\<close>

definition isTerminatedCS :: "ContainerStatus \<Rightarrow> bool" where
  "isTerminatedCS cs \<longleftrightarrow> \<not> cs_Ready cs \<and> Terminated (cs_State cs) \<noteq> None"

definition isNotReadyCS :: "ContainerStatus \<Rightarrow> bool" where
  "isNotReadyCS cs \<longleftrightarrow> \<not> cs_Ready cs \<and> Terminated (cs_State cs) = None \<and>
     (Waiting (cs_State cs) \<noteq> None \<or> Running (cs_State cs) \<noteq> None)"

definition isNotInitedCS :: "ContainerStatus \<Rightarrow> bool" where
  "isNotInitedCS cs \<longleftrightarrow> \<not> cs_Ready cs \<and> cs_State cs = emptyState"

lemma cs_class:
  "cs_Ready cs \<or> isTerminatedCS cs \<or> isNotReadyCS cs \<or> isNotInitedCS cs"
  by (cases "cs_State cs")
    (auto simp: isTerminatedCS_def isNotReadyCS_def isNotInitedCS_def emptyState_def)

lemmas class_defs = isTerminatedCS_def isNotReadyCS_def isNotInitedCS_def

definition counts_ok :: "containerCounts \<Rightarrow> bool" where
  "counts_ok n \<longleftrightarrow>
     bizJarContainerCount n = length (statuses n) \<and>
     readyBizJarContainerCount n = length (filter cs_Ready (statuses n)) \<and>
     terminatedBizJarContainerCount n = length (filter isTerminatedCS (statuses n)) \<and>
     notReadyBizJarContainerCount n = length (filter isNotReadyCS (statuses n)) \<and>
     notInitedBizJarContainerCount n = length (filter isNotInitedCS (statuses n))"

lemma counts_ok_step: "counts_ok n \<Longrightarrow> counts_ok (countStatus cs n)"
  by (cases "cs_State cs")
    (simp add: counts_ok_def countStatus_def class_defs emptyState_def Let_def)

lemma statuses_step [simp]: "statuses (countStatus cs n) = statuses n @ [cs]"
  by (simp add: countStatus_def Let_def)

lemma countContainers_ok:
  assumes "\<And>name cs. m name = Some cs \<Longrightarrow> cs_Name cs = name" "counts_ok n"
  shows "\<exists>n'. countContainers m d containers n = Ok n' \<and> counts_ok n' \<and>
    map cs_Name (statuses n') = map cs_Name (statuses n) @ map c_Name (filter isBizJar containers)"
  using assms(2)
proof (induction containers arbitrary: n)
  case (Cons c cs)
  show ?case
  proof (cases "isBizJar c")
    case True
    obtain st where st: "ConvertBizStatusToContainerStatus c (m (c_Name c)) (Some d) = Ok st"
      "cs_Name st = c_Name c"
      using Convert_ok [of "m (c_Name c)" c "Some d"] assms(1) by blast
    from Cons.IH [OF counts_ok_step [OF Cons.prems, of st]] st True show ?thesis by auto
  qed (use Cons in simp)
qed simp

lemma counts_ok_zero: "counts_ok zeroCounts" "statuses zeroCounts = []"
  by (simp_all add: counts_ok_def zeroCounts_def)

lemma length_filter_all: "length (filter P xs) = length xs \<longleftrightarrow> list_all P xs"
  by (metis filter_id_conv length_filter_less list_all_iff not_less_iff_gr_or_eq)

lemma length_filter_pos: "0 < length (filter P xs) \<longleftrightarrow> list_ex P xs"
  by (induction xs) auto

lemma phaseOf_table:
  assumes "counts_ok n"
  defines "css \<equiv> statuses n"
  shows "phaseOf n =
    (if list_all isTerminatedCS css then (PodSucceeded, ConditionFalse)
     else if list_all cs_Ready css then (PodRunning, ConditionTrue)
     else if list_ex cs_Ready css \<or> list_ex isNotReadyCS css then (PodRunning, ConditionFalse)
     else (PodPending, ConditionFalse))"
proof -
  note c = assms(1)[unfolded counts_ok_def, folded css_def]
  have nil: "length css = 0 \<or> length css = length (filter isTerminatedCS css) \<longleftrightarrow> list_all isTerminatedCS css"
    using length_filter_all [of isTerminatedCS css] by auto
  have init: "\<not> list_all cs_Ready css \<and> \<not> list_ex cs_Ready css \<and> \<not> list_ex isNotReadyCS css"
    if "length (filter isNotInitedCS css) = length css" "css \<noteq> []"
  proof -
    from that(1) have "list_all isNotInitedCS css" by (simp add: length_filter_all)
    with that(2) show ?thesis
      by (cases css) (auto simp: list_all_iff list_ex_iff class_defs emptyState_def)
  qed
  have less: "length (filter cs_Ready css) < length css \<longleftrightarrow> \<not> list_all cs_Ready css"
    unfolding length_filter_all [symmetric] using length_filter_le [of cs_Ready css] by linarith
  have ready: "length css = length (filter cs_Ready css) \<longleftrightarrow> list_all cs_Ready css"
    using length_filter_all [of cs_Ready css] by auto
  have table: "phaseOf n =
    (if list_all isTerminatedCS css then (PodSucceeded, ConditionFalse)
     else if length (filter isNotInitedCS css) = length css then (PodPending, ConditionFalse)
     else if list_all cs_Ready css then (PodRunning, ConditionTrue)
     else if list_ex isNotReadyCS css \<or> (list_ex cs_Ready css \<and> \<not> list_all cs_Ready css)
     then (PodRunning, ConditionFalse)
     else (PodPending, ConditionFalse))"
    unfolding phaseOf_def Let_def by (simp only: c nil less ready length_filter_pos)
  show ?thesis
  proof (cases "css \<noteq> [] \<and> length (filter isNotInitedCS css) = length css")
    case True
    with init show ?thesis by (simp add: table)
  next
    case False
    then show ?thesis by (cases "css = []") (simp_all add: table disj_commute)
  qed
qed

text \<open>C23. \<open>GetPodStatus\<close> always returns a status, with one container status for each biz jar
  container in order; the pod has succeeded when all of them have terminated (or there is none),
  is running and ready when all are ready, running but not ready when some is ready, runs, or waits
  (as a container whose biz is resolved, broken or deactivated does), and pending otherwise.\<close>

theorem GetPodStatus_phase:
  "\<exists>st css. GetPodStatus t1 t2 pod d b = Ok st \<and> ContainerStatuses st = Some css \<and>
    map cs_Name css = map c_Name (filter isBizJar (elems (Containers pod))) \<and>
    PodIP st = localIP b \<and>
    (Phase st, map pc_Status (elems (Conditions st))) =
      (if list_all isTerminatedCS css then (PodSucceeded, [ConditionFalse, ConditionFalse])
       else if list_all cs_Ready css then (PodRunning, [ConditionTrue, ConditionTrue])
       else if list_ex cs_Ready css \<or> list_ex isNotReadyCS css
       then (PodRunning, [ConditionFalse, ConditionFalse])
       else (PodPending, [ConditionFalse, ConditionFalse]))"
proof -
  let ?m = "statusMap (elems (ContainerStatuses (Status pod)))"
  obtain n where n: "countContainers ?m d (elems (Containers pod)) zeroCounts = Ok n" "counts_ok n"
    "map cs_Name (statuses n) = map c_Name (filter isBizJar (elems (Containers pod)))"
    using countContainers_ok [of ?m zeroCounts d "elems (Containers pod)"] statusMap_name
      counts_ok_zero by auto
  show ?thesis
    using n(3) by (simp add: GetPodStatus_def n(1) phaseOf_table [OF n(2)] podConditions_def)
qed


section \<open>Syncing never fails\<close>

text \<open>Two stores that hold the same pods but for their status.\<close>

definition sameSpecs :: "VPodStore \<Rightarrow> VPodStore \<Rightarrow> bool" where
  "sameSpecs r r' \<longleftrightarrow>
     (\<forall>k. map_option (\<lambda>p. p\<lparr>Status := zeroPodStatus\<rparr>) (GetPodByKey r' k) =
          map_option (\<lambda>p. p\<lparr>Status := zeroPodStatus\<rparr>) (GetPodByKey r k))"

lemma sameSpecs_refl [simp]: "sameSpecs r r"
  by (simp add: sameSpecs_def)

lemma sameSpecs_trans: "sameSpecs r s \<Longrightarrow> sameSpecs s t \<Longrightarrow> sameSpecs r t"
  by (simp add: sameSpecs_def)

lemma sync_one:
  assumes filed: "vpods.filed (vPodStore b)"
  shows "\<exists>b' w'. syncBizStatusToKube env t1 t2 d (b, w) = Ok (b', w') \<and> vpods.filed (vPodStore b') \<and>
    sameSpecs (vPodStore b) (vPodStore b')"
proof (cases "GetPodByKey (vPodStore b) (PodKey d)")
  case None
  with filed show ?thesis by (simp add: syncBizStatusToKube_def)
next
  case (Some pod)
  then have key: "GetPodKey (Some pod) = PodKey d" using filed by (simp add: vpods.filed_def)
  obtain st where st: "GetPodStatus t1 t2 pod d b = Ok st"
  proof -
    let ?m = "statusMap (elems (ContainerStatuses (Status pod)))"
    obtain n where "countContainers ?m d (elems (Containers pod)) zeroCounts = Ok n"
      using countContainers_ok [of ?m zeroCounts d "elems (Containers pod)"] statusMap_name
        counts_ok_zero by auto
    then show ?thesis using that by (simp add: GetPodStatus_def case_prod_beta)
  qed
  have same: "GetPodKey (Some (pod\<lparr>Status := st\<rparr>)) = PodKey d"
    using key by (simp add: GetPodKey_def)
  show ?thesis
    using filed Some st same
    by (simp add: syncBizStatusToKube_def Let_def vpods.filed_put vpods.get_put sameSpecs_def)
qed

lemma sync_each:
  assumes "vpods.filed (vPodStore b)"
  shows "\<exists>b' w'. syncEach env clk ds (b, w) = Ok (b', w') \<and> vpods.filed (vPodStore b') \<and>
    sameSpecs (vPodStore b) (vPodStore b')"
  using assms
proof (induction ds arbitrary: b w clk)
  case (Cons d ds)
  from sync_one [OF Cons.prems, of env "clk 0" "clk 1" d w] obtain b1 w1
    where 1: "syncBizStatusToKube env (clk 0) (clk 1) d (b, w) = Ok (b1, w1)"
      "vpods.filed (vPodStore b1)" "sameSpecs (vPodStore b) (vPodStore b1)" by blast
  from Cons.IH [OF 1(2), of "\<lambda>n. clk (n + 2)" w1] obtain b2 w2
    where 2: "syncEach env (\<lambda>n. clk (n + 2)) ds (b1, w1) = Ok (b2, w2)"
      "vpods.filed (vPodStore b2)" "sameSpecs (vPodStore b1) (vPodStore b2)" by blast
  from 1 2 sameSpecs_trans [OF 1(3) 2(3)] show ?case by simp
qed simp

text \<open>C36. A sync of all biz status never fails or panics, whatever the cache answers and whatever
  data arrives, and it changes nothing of the stored pods but their status: the same keys hold
  the same specs and metadata afterwards, each pod still under its own key.\<close>

theorem SyncAll_keeps_pods:
  assumes "\<forall>k p. GetPodByKey (vPodStore b) k = Some p \<longrightarrow> GetPodKey (Some p) = k"
  shows "\<exists>b' w'. SyncAllBizStatusToKube env order now clk datas (b, w) = Ok (b', w') \<and>
    sameSpecs (vPodStore b) (vPodStore b') \<and>
    (\<forall>k p. GetPodByKey (vPodStore b') k = Some p \<longrightarrow> GetPodKey (Some p) = k)"
proof -
  have filed: "vpods.filed (vPodStore b)" using assms by (simp add: vpods.filed_def)
  obtain ds w1 where c: "collectUpdates env now datas (sortedPods order (vPodStore b)) w = (ds, w1)"
    by fastforce
  from sync_each [OF filed, of env clk ds w1] obtain b' w'
    where "syncEach env clk ds (b, w1) = Ok (b', w')" "vpods.filed (vPodStore b')"
      "sameSpecs (vPodStore b) (vPodStore b')" by blast
  with c show ?thesis by (simp add: SyncAllBizStatusToKube_def vpods.filed_def)
qed

text \<open>A provider environment with nothing in it, for concrete runs.\<close>

definition quietTracker :: "'w trackerEnv" where
  "quietTracker = \<lparr>config = \<lparr>LogDir = '''', ReportLevel = ''error'', ReportLinks = None\<rparr>,
     recordEvent = (\<lambda>_ w. w), report = (\<lambda>_ w. w), trackerNow = (\<lambda>_. zeroTime)\<rparr>"

definition quietEnv :: "unit providerEnv" where
  "quietEnv = \<lparr>StartBiz = (\<lambda>_ _ _ w. (None, w)), StopBiz = (\<lambda>_ _ _ w. (None, w)),
     notify = (\<lambda>_ w. w), cacheGetPod = (\<lambda>_ _ w. (Inl (ErrAPI NotFound), w)),
     clientGetPod = (\<lambda>_ _ w. (Inl (ErrAPI NotFound), w)), trk = quietTracker,
     ctxWait = (\<lambda>_ _. None), updateTimedOut = (\<lambda>_. False)\<rparr>"

definition samplePod :: Pod where
  "samplePod = zeroPod\<lparr>Namespace := ''default'', Name := ''p'',
     Containers := Some [\<lparr>c_Name = ''biz'', c_Image = ''biz.jar'', c_Env = None, c_rest = 0\<rparr>]\<rparr>"

definition sampleProvider :: VPodProvider where
  "sampleProvider = \<lparr>vp_Namespace = '''', nodeName = ''n'', localIP = '''',
     vPodStore = PutPod samplePod NewVPodStore\<rparr>"

lemma SyncAll_keeps_pods_witness:
  "\<exists>b' w'. SyncAllBizStatusToKube quietEnv [''default/p''] (GoTime 9) (\<lambda>_. GoTime 9) []
     (sampleProvider, ()) = Ok (b', w')"
proof -
  have "\<forall>k p. GetPodByKey (vPodStore sampleProvider) k = Some p \<longrightarrow> GetPodKey (Some p) = k"
    by (simp add: sampleProvider_def GetPodByKey_def PutPod_def NewVPodStore_def Let_def)
  from SyncAll_keeps_pods [OF this, of quietEnv "[''default/p'']" "GoTime 9" "\<lambda>_. GoTime 9" "[]" "()"]
  show ?thesis by blast
qed

section \<open>The calls a provider makes\<close>

text \<open>
  An environment that records the calls and answers each one as a function of all calls so far,
  so that the theorems hold for every behaviour of the tunnel and the API server.
\<close>

datatype providerCall =
    CStart string string Container
  | CStop string string Container
  | CNotify Pod
  | CCache string string
  | CClient string string

record answers =
  startAns :: "providerCall list \<Rightarrow> goerror option"
  stopAns :: "providerCall list \<Rightarrow> goerror option"
  podAns :: "providerCall list \<Rightarrow> goerror + Pod"

definition tracing ::
  "answers \<Rightarrow> (nat \<Rightarrow> 64 word \<Rightarrow> goerror option) \<Rightarrow> (nat \<Rightarrow> bool) \<Rightarrow> providerCall list providerEnv" where
  "tracing a waitCtx timedOut =
     \<lparr>StartBiz = (\<lambda>n k c w. (startAns a w, w @ [CStart n k c])),
      StopBiz = (\<lambda>n k c w. (stopAns a w, w @ [CStop n k c])),
      notify = (\<lambda>p w. w @ [CNotify p]),
      cacheGetPod = (\<lambda>ns n w. (podAns a w, w @ [CCache ns n])),
      clientGetPod = (\<lambda>ns n w. (podAns a w, w @ [CClient ns n])),
      trk = quietTracker, ctxWait = waitCtx, updateTimedOut = timedOut\<rparr>"

lemma tracing_sel [simp]:
  "StartBiz (tracing a waitCtx timedOut) = (\<lambda>n k c w. (startAns a w, w @ [CStart n k c]))"
  "StopBiz (tracing a waitCtx timedOut) = (\<lambda>n k c w. (stopAns a w, w @ [CStop n k c]))"
  "notify (tracing a waitCtx timedOut) = (\<lambda>p w. w @ [CNotify p])"
  "clientGetPod (tracing a waitCtx timedOut) = (\<lambda>ns n w. (podAns a w, w @ [CClient ns n]))"
  "cacheGetPod (tracing a waitCtx timedOut) = (\<lambda>ns n w. (podAns a w, w @ [CCache ns n]))"
  "trk (tracing a waitCtx timedOut) = quietTracker" "ctxWait (tracing a waitCtx timedOut) = waitCtx"
  "updateTimedOut (tracing a waitCtx timedOut) = timedOut"
  by (simp_all add: tracing_def)

text \<open>Each call of a list is made at least once, in order, with repetitions of one call only.\<close>

fun repeats :: "'a list \<Rightarrow> 'a list \<Rightarrow> bool" where
  "repeats [] tr \<longleftrightarrow> tr = []"
| "repeats (c # cs) tr \<longleftrightarrow> (\<exists>n rest. tr = replicate (Suc n) c @ rest \<and> repeats cs rest)"

lemma repeats_set: "repeats cs tr \<Longrightarrow> set tr = set cs"
  by (induction cs arbitrary: tr) auto

text \<open>The context ends some wait of the retry loop.\<close>

definition ctxEnds :: "(nat \<Rightarrow> 64 word \<Rightarrow> goerror option) \<Rightarrow> bool" where
  "ctxEnds waitCtx \<longleftrightarrow> (\<exists>n. waitCtx (Suc n) (DefaultRateLimiter (of_nat (Suc n))) \<noteq> None)"

lemma CallWithRetry_None: "CallWithRetry call None = CallWithRetry call (Some DefaultRateLimiter)"
  by (simp add: CallWithRetry_def fun_eq_iff)

text \<open>A call that succeeds at once is made once.\<close>

lemma CallWithRetry_once: "call 0 s = (False, e, s') \<Longrightarrow> CallWithRetry call None c s = Some (e, s')"
  using CallWithRetry_first_end [of call DefaultRateLimiter c s 0] by (simp add: CallWithRetry_None retryEnds_def)

lemma retryTunnel_once: "call w = (None, w') \<Longrightarrow> retryTunnel env call code w = Some ((None, CodeSuccess), w')"
  by (simp add: retryTunnel_def CallWithRetry_once)

lemma stateAfter_snoc:
  assumes "\<And>n w. snd (snd (call n w)) = w @ [c]"
  shows "stateAfter call w n = w @ replicate n c"
  by (induction n) (simp_all add: assms replicate_append_same)

lemma retry_trace:
  assumes step: "\<And>n w. snd (snd (call n w)) = w @ [c]" and ends: "ctxEnds waitCtx"
  shows "\<exists>err n. CallWithRetry call None waitCtx w = Some (err, w @ replicate (Suc n) c)"
proof -
  have "\<exists>n. retryEnds call DefaultRateLimiter waitCtx w n"
    using ends unfolding ctxEnds_def retryEnds_def by blast
  then obtain n where n: "retryEnds call DefaultRateLimiter waitCtx w n"
    "\<forall>k<n. \<not> retryEnds call DefaultRateLimiter waitCtx w k"
    using exists_least_iff [of "retryEnds call DefaultRateLimiter waitCtx w"] by blast
  show ?thesis
    using CallWithRetry_first_end [OF n] stateAfter_snoc [of call c w "Suc n", OF step]
    unfolding CallWithRetry_None by auto
qed

lemma tracked_retry:
  assumes "\<And>w. snd (call w) = w @ [c]" "ctxEnds (ctxWait env)"
  shows "\<exists>n. map_option snd (FuncTrack quietTracker t sc ev lbl (retryTunnel env call code) w) =
    Some (w @ replicate (Suc n) c)"
proof -
  have "snd (snd ((\<lambda>_ w. case call w of (innerErr, w) \<Rightarrow> (innerErr \<noteq> None, innerErr, w)) (n::nat) w)) = w @ [c]" for n w
    using assms(1) [of w] by (simp add: case_prod_beta)
  from retry_trace [OF this assms(2)] obtain err n where
    "CallWithRetry (\<lambda>_ w. case call w of (innerErr, w) \<Rightarrow> (innerErr \<noteq> None, innerErr, w)) None (ctxWait env) w =
      Some (err, w @ replicate (Suc n) c)" by blast
  then have "retryTunnel env call code w =
      Some ((err, if err = None then CodeSuccess else code), w @ replicate (Suc n) c)"
    by (auto simp: retryTunnel_def split: option.split)
  then have "map_option snd (FuncTrack quietTracker t sc ev lbl (retryTunnel env call code) w) =
      Some (w @ replicate (Suc n) c)"
    by (simp add: FuncTrack_def quietTracker_def Let_def isDebug_def)
  then show ?thesis by blast
qed

lemma foldOpt_trace:
  assumes "\<And>x w. \<exists>n. f x w = Some (w @ replicate (Suc n) (c x))"
  shows "\<exists>tr. foldOpt f xs w = Some (w @ tr) \<and> repeats (map c xs) tr"
proof (induction xs arbitrary: w)
  case (Cons x xs)
  obtain n where n: "f x w = Some (w @ replicate (Suc n) (c x))" using assms by blast
  obtain tr where "foldOpt f xs (w @ replicate (Suc n) (c x)) = Some ((w @ replicate (Suc n) (c x)) @ tr)"
    "repeats (map c xs) tr" using Cons.IH by blast
  with n show ?case by (intro exI [of _ "replicate (Suc n) (c x) @ tr"]) auto
qed simp

lemma start_trace:
  assumes "ctxEnds waitCtx"
  shows "\<exists>tr. handleBizBatchStart (tracing a waitCtx timedOut) b pod cs w = Some (w @ tr) \<and>
    repeats (map (CStart (nodeName b) (GetPodKey (Some pod))) cs) tr"
  unfolding handleBizBatchStart_def Let_def tracing_sel
  by (rule foldOpt_trace) (rule tracked_retry; simp add: assms)

definition stopKey :: "Pod \<Rightarrow> string" where
  "stopKey pod =
     (if HasSuffix (GetPodKey (Some pod)) ObjectMetaNameNotExistPod then '''' else GetPodKey (Some pod))"

lemma stop_trace:
  assumes "ctxEnds waitCtx"
  shows "\<exists>tr. handleBizBatchStop (tracing a waitCtx timedOut) b pod cs w = Some (w @ tr) \<and>
    repeats (map (CStop (nodeName b) (stopKey pod)) cs) tr"
  unfolding handleBizBatchStop_def Let_def tracing_sel stopKey_def
  by (rule foldOpt_trace) (rule tracked_retry; simp add: assms)

section \<open>The order of the calls\<close>

text \<open>\<open>CreatePod\<close> and \<open>DeletePod\<close> return nil whenever the context ends some wait, and
  file the pod in the store or remove it before anything else; every container is started or
  stopped at least once, one after the other in the order of the spec, each retried before the
  next is touched, and the callback is notified once, last. Stopping a pod that does not exist
  in the cluster passes an empty pod key to the tunnel.\<close>

theorem CreatePod_DeletePod_calls:
  assumes "ctxEnds waitCtx"
  shows "(\<exists>tr. CreatePod (tracing a waitCtx timedOut) pod b w =
       Some (None, b\<lparr>vPodStore := PutPod pod (vPodStore b)\<rparr>, w @ tr @ [CNotify pod]) \<and>
       repeats (map (CStart (nodeName b) (GetPodKey (Some pod))) (elems (Containers pod))) tr) \<and>
    (\<exists>tr. DeletePod (tracing a waitCtx timedOut) (Some pod) b w =
       Some (None, b\<lparr>vPodStore := storeDeletePod (GetPodKey (Some pod)) (vPodStore b)\<rparr>,
             w @ tr @ [CNotify pod]) \<and>
       repeats (map (CStop (nodeName b) (stopKey pod)) (elems (Containers pod))) tr)"
proof
  let ?b = "b\<lparr>vPodStore := PutPod pod (vPodStore b)\<rparr>"
  obtain tr where "handleBizBatchStart (tracing a waitCtx timedOut) ?b pod (elems (Containers pod)) w = Some (w @ tr)"
    "repeats (map (CStart (nodeName ?b) (GetPodKey (Some pod))) (elems (Containers pod))) tr"
    using start_trace [OF assms] by blast
  then show "\<exists>tr. CreatePod (tracing a waitCtx timedOut) pod b w = Some (None, ?b, w @ tr @ [CNotify pod]) \<and>
       repeats (map (CStart (nodeName b) (GetPodKey (Some pod))) (elems (Containers pod))) tr"
    by (simp add: CreatePod_def Let_def)
next
  let ?b = "b\<lparr>vPodStore := storeDeletePod (GetPodKey (Some pod)) (vPodStore b)\<rparr>"
  obtain tr where "handleBizBatchStop (tracing a waitCtx timedOut) ?b pod (elems (Containers pod)) w = Some (w @ tr)"
    "repeats (map (CStop (nodeName ?b) (stopKey pod)) (elems (Containers pod))) tr"
    using stop_trace [OF assms] by blast
  then show "\<exists>tr. DeletePod (tracing a waitCtx timedOut) (Some pod) b w = Some (None, ?b, w @ tr @ [CNotify pod]) \<and>
       repeats (map (CStop (nodeName b) (stopKey pod)) (elems (Containers pod))) tr"
    by (simp add: DeletePod_def Let_def)
qed

definition sampleAnswers :: answers where
  "sampleAnswers = \<lparr>startAns = (\<lambda>w. if length w < 2 then Some (ErrText ''busy'') else None),
     stopAns = (\<lambda>_. None), podAns = (\<lambda>_. Inl (ErrAPI NotFound))\<rparr>"

definition sampleWait :: "nat \<Rightarrow> 64 word \<Rightarrow> goerror option" where
  "sampleWait n d = (if n = 7 then Some CtxCanceled else None)"

lemma sampleWait_ends: "ctxEnds sampleWait"
  unfolding ctxEnds_def sampleWait_def by (rule exI [of _ 6]) simp

lemma CreatePod_DeletePod_calls_witness:
  "\<exists>tr. CreatePod (tracing sampleAnswers sampleWait (\<lambda>_. False)) samplePod sampleProvider [] =
     Some (None, sampleProvider\<lparr>vPodStore := PutPod samplePod (vPodStore sampleProvider)\<rparr>, tr)"
  using CreatePod_DeletePod_calls [OF sampleWait_ends, of sampleAnswers "\<lambda>_. False" samplePod sampleProvider "[]"]
  by blast

text \<open>C32. A provider whose tunnel fails every call, under a context that never ends, never returns
  from creating a pod that has containers: the retry loop has no bound of its own.\<close>

theorem CreatePod_retries_forever:
  assumes "elems (Containers pod) \<noteq> []"
  shows "CreatePod (tracing \<lparr>startAns = (\<lambda>_. Some e), stopAns = st, podAns = p\<rparr> (\<lambda>_ _. None) timedOut) pod b w = None"
proof -
  let ?env = "tracing \<lparr>startAns = (\<lambda>_. Some e), stopAns = st, podAns = p\<rparr> (\<lambda>_ _. None) timedOut"
  obtain c cs where cs: "elems (Containers pod) = c # cs" using assms by (cases "elems (Containers pod)") auto
  let ?call = "\<lambda>(_::nat) w. case StartBiz ?env (nodeName b) (GetPodKey (Some pod)) c w of
      (innerErr, w) \<Rightarrow> (innerErr \<noteq> None, innerErr, w)"
  have "retryEnds ?call DefaultRateLimiter (\<lambda>_ _. None) w n \<Longrightarrow> False" for n
    by (simp add: retryEnds_def)
  then have "CallWithRetry ?call None (\<lambda>_ _. None) w = None"
    unfolding CallWithRetry_None by (intro CallWithRetry_diverges) blast
  then have "retryTunnel ?env (StartBiz ?env (nodeName b) (GetPodKey (Some pod)) c) CodeContainerStartFailed w = None"
    by (simp add: retryTunnel_def)
  then show ?thesis
    by (simp add: CreatePod_def handleBizBatchStart_def cs FuncTrack_def Let_def)
qed

lemma CreatePod_retries_forever_witness:
  "CreatePod (tracing \<lparr>startAns = (\<lambda>_. Some (ErrText ''down'')), stopAns = (\<lambda>_. None),
     podAns = (\<lambda>_. Inl (ErrAPI NotFound))\<rparr> (\<lambda>_ _. None) (\<lambda>_. False)) samplePod sampleProvider [] = None"
  by (rule CreatePod_retries_forever) (simp add: samplePod_def)

section \<open>Updating a pod\<close>

lemma containerMap_name: "containerMap cs n = Some c \<Longrightarrow> c_Name c = n"
  by (auto simp: containerMap_def fold_upd_find split: option.splits dest: find_rev_Some)

text \<open>An update stops exactly the old containers whose namesake in the new spec differs, and
  starts exactly the new containers that differ from their old namesake or have none, whatever
  orders the ranges over the two maps take; a container that is only in the old spec is left
  running.\<close>

theorem UpdatePod_containers:
  assumes "range_order oldMap oldOrder" "range_order newMap newOrder"
  shows "set (map fst (changedContainers oldOrder oldMap newMap)) =
      {c. \<exists>n c'. oldMap n = Some c \<and> newMap n = Some c' \<and> c' \<noteq> c} \<and>
    set (map snd (changedContainers oldOrder oldMap newMap) @ addedContainers newOrder oldMap newMap) =
      {c. \<exists>n. newMap n = Some c \<and> oldMap n \<noteq> Some c}"
proof -
  have orders: "set oldOrder = dom oldMap" "set newOrder = dom newMap"
    using assms by (simp_all add: range_order_def)
  have changed: "(c, c') \<in> set (changedContainers oldOrder oldMap newMap) \<longleftrightarrow>
      (\<exists>n. oldMap n = Some c \<and> newMap n = Some c' \<and> c' \<noteq> c)" for c c'
  proof -
    have "(case (oldMap n, newMap n) of
         (Some oldC, Some newC) \<Rightarrow> if newC \<noteq> oldC then Some (oldC, newC) else None
       | _ \<Rightarrow> None) = Some (c, c') \<longleftrightarrow> oldMap n = Some c \<and> newMap n = Some c' \<and> c' \<noteq> c" for n
      by (cases "oldMap n"; cases "newMap n") auto
    then show ?thesis unfolding changedContainers_def in_map_filter orders by auto
  qed
  have added: "c \<in> set (addedContainers newOrder oldMap newMap) \<longleftrightarrow>
      (\<exists>n. newMap n = Some c \<and> oldMap n = None)" for c
    unfolding addedContainers_def in_map_filter orders by (auto split: if_splits)
  have "newMap n = Some c \<and> oldMap n \<noteq> Some c \<longleftrightarrow>
      newMap n = Some c \<and> (oldMap n = None \<or> (\<exists>c'. oldMap n = Some c' \<and> c \<noteq> c'))" for n c
    by (cases "oldMap n") auto
  then have either: "(\<exists>n. newMap n = Some c \<and> oldMap n \<noteq> Some c) \<longleftrightarrow>
      (\<exists>n. newMap n = Some c \<and> oldMap n = None) \<or>
      (\<exists>n c'. oldMap n = Some c' \<and> newMap n = Some c \<and> c \<noteq> c')" for c
    by blast
  have "c \<in> set (map fst (changedContainers oldOrder oldMap newMap)) \<longleftrightarrow>
      (\<exists>n c'. oldMap n = Some c \<and> newMap n = Some c' \<and> c' \<noteq> c)" for c
    using changed [of c] by (force simp: image_iff)
  moreover have "c \<in> set (map snd (changedContainers oldOrder oldMap newMap)) \<longleftrightarrow>
      (\<exists>n c'. oldMap n = Some c' \<and> newMap n = Some c \<and> c \<noteq> c')" for c
    using changed [of _ c] by (force simp: image_iff)
  ultimately show ?thesis using added either by (intro conjI set_eqI) auto
qed

lemma UpdatePod_containers_witness:
  "set (map fst (changedContainers [''a''] (containerMap [\<lparr>c_Name = ''a'', c_Image = ''x'', c_Env = None, c_rest = 0\<rparr>])
      (containerMap [\<lparr>c_Name = ''a'', c_Image = ''y'', c_Env = None, c_rest = 0\<rparr>]))) =
    {c. \<exists>n c'. containerMap [\<lparr>c_Name = ''a'', c_Image = ''x'', c_Env = None, c_rest = 0\<rparr>] n = Some c \<and>
       containerMap [\<lparr>c_Name = ''a'', c_Image = ''y'', c_Env = None, c_rest = 0\<rparr>] n = Some c' \<and> c' \<noteq> c}"
  by (rule UpdatePod_containers [THEN conjunct1, of _ _ _ "[''a'']"])
    (simp_all add: range_order_def containerMap_def)

text \<open>With a tracker that logs nothing, \<open>Eventually\<close> is the check loop.\<close>

lemma check_loop_project:
  assumes "n \<le> m" "timedOut m"
    and "\<And>s y. check3 (s, y) = (fst (check s), (snd (check s), y))"
    and "\<And>s y. passed3 (s, y) = map_option (\<lambda>s. (s, y)) (passed s)"
    and "\<And>s y. fst (late3 (s, y)) = late s"
  shows "map_option (\<lambda>r. fst (snd r)) (CheckAndFinallyCall check3 timedOut passed3 late3 n (s, y)) =
    map_option snd (CheckAndFinallyCall check timedOut passed late n s)"
  using assms(1,2)
proof (induction arbitrary: s rule: inc_induct)
  case base
  then show ?case by (subst (1 2) CheckAndFinallyCall.simps) (simp add: assms(5))
next
  case (step n)
  obtain b e t where check: "check s = ((b, e), t)" by (metis surj_pair)
  then have "check3 (s, y) = ((b, e), (t, y))" by (simp add: assms(3))
  with check step.IH [OF step.prems, of t] show ?case
    by (subst (1 2) CheckAndFinallyCall.simps)
      (cases e; cases "passed t"; simp add: assms(4,5))
qed

lemma Eventually_quiet:
  assumes "timedOut m"
  shows "Eventually quietTracker tid sc ev lbl code check timedOut passed late s =
    map_option snd (CheckAndFinallyCall check timedOut passed late 0 s)"
proof -
  let ?data = "\<lparr>TraceID = tid, Scene = sc, Event = ev, TimeUsed = 0, Result = EventSuccess,
    Message = None, Code = CodeSuccess, ld_Labels = lbl\<rparr>"
  have "map_option (\<lambda>r. fst (snd r))
      (CheckAndFinallyCall
         (\<lambda>(s, data, checkTimeout). case check s of (r, s') \<Rightarrow> (r, (s', data, checkTimeout)))
         timedOut
         (\<lambda>(s, data, checkTimeout). map_option (\<lambda>s. (s, data, checkTimeout)) (passed s))
         (\<lambda>(s, data, checkTimeout). (late s, data\<lparr>Code := code\<rparr>, True)) 0 (s, ?data, False)) =
    map_option snd (CheckAndFinallyCall check timedOut passed late 0 s)"
    by (rule check_loop_project [where m = m])
      (auto simp: assms case_prod_beta option.map_comp comp_def)
  then show ?thesis
    by (auto simp: Eventually_def quietTracker_def isDebug_def Let_def case_prod_beta
        split: option.splits)
qed

lemma check_trace:
  assumes "n \<le> m" "timedOut m" and c: "\<And>w. snd (check w) = w @ [c]"
    and fin: "\<And>w. \<exists>tr. fin w = Some (w @ tr) \<and> R tr"
  shows "\<exists>k tr. map_option snd (CheckAndFinallyCall check timedOut fin (\<lambda>w. w) n w) =
    Some (w @ replicate k c @ tr) \<and> (tr = [] \<or> 0 < k \<and> R tr)"
  using assms(1,2)
proof (induction arbitrary: w rule: inc_induct)
  case base
  then show ?case
    by (subst CheckAndFinallyCall.simps) (auto intro: exI [of _ "0::nat"] exI [of _ "[]"])
next
  case (step n)
  obtain b e where check: "check w = ((b, e), w @ [c])" using c [of w] by (metis prod.collapse)
  obtain tr where tr: "fin (w @ [c]) = Some ((w @ [c]) @ tr)" "R tr" using fin by blast
  obtain k tr' where IH: "map_option snd (CheckAndFinallyCall check timedOut fin (\<lambda>w. w) (Suc n) (w @ [c])) =
      Some ((w @ [c]) @ replicate k c @ tr')" "tr' = [] \<or> 0 < k \<and> R tr'"
    using step.IH [OF step.prems] by blast
  have unfold: "CheckAndFinallyCall check timedOut fin (\<lambda>w. w) n w =
     (if timedOut n then Some (Some (ErrText ''check time out''), w)
      else case e of
        Some e' \<Rightarrow> Some (Some (ErrWrap ''Error when checking condition'' e'), w @ [c])
      | None \<Rightarrow> if b then map_option (Pair None) (fin (w @ [c]))
          else CheckAndFinallyCall check timedOut fin (\<lambda>w. w) (Suc n) (w @ [c]))"
    by (subst CheckAndFinallyCall.simps) (simp add: check)
  consider "timedOut n" | e' where "\<not> timedOut n" "e = Some e'"
    | "\<not> timedOut n" "e = None" "b" | "\<not> timedOut n" "e = None" "\<not> b"
    by (cases e) auto
  then show ?case
  proof cases
    case 1
    then show ?thesis unfolding unfold by (intro exI [of _ "0::nat"] exI [of _ "[]"]) simp
  next
    case 2
    then show ?thesis unfolding unfold by (intro exI [of _ "1::nat"] exI [of _ "[]"]) simp
  next
    case 3
    then show ?thesis unfolding unfold using tr by (intro exI [of _ "1::nat"] exI [of _ tr]) simp
  next
    case 4
    then show ?thesis unfolding unfold using IH
      by (intro exI [of _ "Suc k"] exI [of _ tr']) auto
  qed
qed

definition stopsOf :: "string list \<Rightarrow> Pod \<Rightarrow> Pod \<Rightarrow> Container list" where
  "stopsOf oldOrder oldPod pod =
     map fst (changedContainers oldOrder (containerMap (elems (Containers oldPod)))
                (containerMap (elems (Containers pod))))"

definition startsOf :: "string list \<Rightarrow> string list \<Rightarrow> Pod \<Rightarrow> Pod \<Rightarrow> Container list" where
  "startsOf oldOrder newOrder oldPod pod =
     map snd (changedContainers oldOrder (containerMap (elems (Containers oldPod)))
                (containerMap (elems (Containers pod)))) @
     addedContainers newOrder (containerMap (elems (Containers oldPod)))
       (containerMap (elems (Containers pod)))"

lemma checkStopped_call [simp]:
  "snd (checkStopped (tracing a waitCtx timedOut) pod stops w) = w @ [CClient (Namespace pod) (Name pod)]"
  by (simp add: checkStopped_def Let_def split: sum.split)



end
