(* ===== verification/PodController.thy ===== *)
theory PodController
  imports WorkQueue_Workers Utils
begin

text \<open>
  virtual_kubelet/node/podcontroller.go and pod.go: the controller that keeps the pods of the
  provider in step with those of the cluster, through three work queues and the map of known
  pods.

  The state is the controller's and the rest of the program's, the world. The provider, the
  API client, the cache, the event recorder and the key functions of client-go are the
  environment: functions on the whole state, because the provider calls back into the
  controller (\<open>enqueuePodStatusUpdate\<close>) while the controller waits for it, and other
  goroutines run meanwhile. A known pod is an object that the map and the running handlers
  share, so the known pods live in an explicit store. Tracing and logging are left out.
\<close>

section \<open>State and environment\<close>

text \<open>A call returns, panics, or never returns.\<close>

datatype 'a run = Returns 'a | Panics | Diverges

record knownPod =
  lastPodStatusReceivedFromProvider :: Pod
  lastPodUsed :: "Pod option"
  lastPodStatusUpdateSkipped :: bool

record ('r, 'w) pcState =
  knownPods :: "string \<rightharpoonup> addr"
  kpHeap :: "addr \<Rightarrow> knownPod"
  kpFresh :: addr
  syncPodsFromKubernetes :: "'r queue"
  deletePodsFromKubernetes :: "'r queue"
  syncPodStatusFromProvider :: "'r queue"
  world :: 'w

text \<open>
  The environment. \<open>provGetPod\<close> returns a pod, or nil, and an error; a call of the provider
  may not return. \<open>apiDelete\<close> takes the grace period and the UID precondition of its
  options. \<open>elapse\<close> is what the rest of the program does during one period of the poll.
\<close>

record ('r, 'w) pcEnv =
  provCreate :: "Pod \<Rightarrow> ('r, 'w) pcState \<Rightarrow> (goerror option \<times> ('r, 'w) pcState) option"
  provUpdate :: "Pod \<Rightarrow> ('r, 'w) pcState \<Rightarrow> (goerror option \<times> ('r, 'w) pcState) option"
  provDelete :: "Pod \<Rightarrow> ('r, 'w) pcState \<Rightarrow> (goerror option \<times> ('r, 'w) pcState) option"
  provGetPod :: "string \<Rightarrow> string \<Rightarrow> ('r, 'w) pcState \<Rightarrow> (Pod option \<times> goerror option) \<times> ('r, 'w) pcState"
  provGetPods :: "('r, 'w) pcState \<Rightarrow> (goerror + Pod list) \<times> ('r, 'w) pcState"
  apiGet :: "string \<Rightarrow> string \<Rightarrow> ('r, 'w) pcState \<Rightarrow> (goerror + Pod) \<times> ('r, 'w) pcState"
  cacheGet :: "string \<Rightarrow> string \<Rightarrow> ('r, 'w) pcState \<Rightarrow> (goerror + Pod) \<times> ('r, 'w) pcState"
  apiDelete :: "Pod \<Rightarrow> int option \<Rightarrow> string option \<Rightarrow> ('r, 'w) pcState \<Rightarrow> goerror option \<times> ('r, 'w) pcState"
  apiStatusUpdate :: "Pod \<Rightarrow> ('r, 'w) pcState \<Rightarrow> goerror option \<times> ('r, 'w) pcState"
  apiStatusPatch :: "Pod \<Rightarrow> Pod \<Rightarrow> ('r, 'w) pcState \<Rightarrow> goerror option \<times> ('r, 'w) pcState"
  recorderEvent :: "Pod \<Rightarrow> string \<Rightarrow> string \<Rightarrow> ('r, 'w) pcState \<Rightarrow> ('r, 'w) pcState"
  metaKeyFunc :: "Pod \<Rightarrow> goerror + string"
  splitMetaKey :: "string \<Rightarrow> goerror + (string \<times> string)"
  errorText :: "goerror \<Rightarrow> string"
  rlSync :: "'r rateLimiter"
  rlDelete :: "'r rateLimiter"
  rlStatus :: "'r rateLimiter"
  pcNow :: "('r, 'w) pcState \<Rightarrow> gotime"
  elapse :: "('r, 'w) pcState \<Rightarrow> ('r, 'w) pcState"

definition podStatusReasonProviderFailed :: string where
  "podStatusReasonProviderFailed = ''ProviderFailed''"
definition podEventCreateFailed :: string where "podEventCreateFailed = ''ProviderCreateFailed''"
definition podEventCreateSuccess :: string where "podEventCreateSuccess = ''ProviderCreateSuccess''"
definition podEventDeleteFailed :: string where "podEventDeleteFailed = ''ProviderDeleteFailed''"
definition podEventDeleteSuccess :: string where "podEventDeleteSuccess = ''ProviderDeleteSuccess''"
definition podEventUpdateFailed :: string where "podEventUpdateFailed = ''ProviderUpdateFailed''"
definition podEventUpdateSuccess :: string where "podEventUpdateSuccess = ''ProviderUpdateSuccess''"

definition EventTypeWarning :: string where "EventTypeWarning = ''Warning''"
definition EventTypeNormal :: string where "EventTypeNormal = ''Normal''"

section \<open>Known pods\<close>

definition AddKnownPod :: "Pod \<Rightarrow> ('r, 'w) pcState \<Rightarrow> ('r, 'w) pcState" where
  "AddKnownPod pod pc =
     pc\<lparr>knownPods := (knownPods pc)(GetPodKey (Some pod) \<mapsto> kpFresh pc),
        kpHeap := (kpHeap pc)(kpFresh pc :=
          \<lparr>lastPodStatusReceivedFromProvider = pod, lastPodUsed = None,
           lastPodStatusUpdateSkipped = False\<rparr>),
        kpFresh := Suc (kpFresh pc)\<rparr>"

definition GetKnownPod :: "('r, 'w) pcState \<Rightarrow> string \<Rightarrow> knownPod option" where
  "GetKnownPod pc podKey = map_option (kpHeap pc) (knownPods pc podKey)"

definition DeleteKnownPod :: "string \<Rightarrow> ('r, 'w) pcState \<Rightarrow> ('r, 'w) pcState" where
  "DeleteKnownPod podKey pc = pc\<lparr>knownPods := (knownPods pc)(podKey := None)\<rparr>"

text \<open>An assignment to fields of the known pod at an address.\<close>

definition setKnown :: "addr \<Rightarrow> (knownPod \<Rightarrow> knownPod) \<Rightarrow> ('r, 'w) pcState \<Rightarrow> ('r, 'w) pcState" where
  "setKnown a f pc = pc\<lparr>kpHeap := (kpHeap pc)(a := f (kpHeap pc a))\<rparr>"

section \<open>The queues\<close>

definition SyncPodsFromKubernetesEnqueue ::
  "('r, 'w) pcEnv \<Rightarrow> string \<Rightarrow> ('r, 'w) pcState \<Rightarrow> ('r, 'w) pcState" where
  "SyncPodsFromKubernetesEnqueue env podKey pc =
     pc\<lparr>syncPodsFromKubernetes := Enqueue (rlSync env) (pcNow env pc) podKey (syncPodsFromKubernetes pc)\<rparr>"

definition DeletePodsFromKubernetesForget :: "string \<Rightarrow> ('r, 'w) pcState \<Rightarrow> ('r, 'w) pcState" where
  "DeletePodsFromKubernetesForget podKey pc =
     pc\<lparr>deletePodsFromKubernetes := Forget podKey (deletePodsFromKubernetes pc)\<rparr>"

definition enqueueStatus ::
  "('r, 'w) pcEnv \<Rightarrow> string \<Rightarrow> ('r, 'w) pcState \<Rightarrow> ('r, 'w) pcState" where
  "enqueueStatus env podKey pc =
     pc\<lparr>syncPodStatusFromProvider := Enqueue (rlStatus env) (pcNow env pc) podKey (syncPodStatusFromProvider pc)\<rparr>"

definition enqueueDelete ::
  "('r, 'w) pcEnv \<Rightarrow> string \<Rightarrow> ('r, 'w) pcState \<Rightarrow> ('r, 'w) pcState" where
  "enqueueDelete env podKey pc =
     pc\<lparr>deletePodsFromKubernetes :=
          EnqueueWithoutRateLimit (rlDelete env) (pcNow env pc) podKey (deletePodsFromKubernetes pc)\<rparr>"

definition enqueueDeleteAfter ::
  "('r, 'w) pcEnv \<Rightarrow> string \<Rightarrow> duration \<Rightarrow> ('r, 'w) pcState \<Rightarrow> ('r, 'w) pcState" where
  "enqueueDeleteAfter env podKey after pc =
     pc\<lparr>deletePodsFromKubernetes :=
          EnqueueWithoutRateLimitWithDelay (rlDelete env) (pcNow env pc) podKey after (deletePodsFromKubernetes pc)\<rparr>"

definition CheckAndUpdatePodStatus ::
  "('r, 'w) pcEnv \<Rightarrow> string \<Rightarrow> Pod \<Rightarrow> ('r, 'w) pcState \<Rightarrow> ('r, 'w) pcState outcome" where
  "CheckAndUpdatePodStatus env podKey newPod pc =
     (case knownPods pc podKey of
        None \<Rightarrow> Panic
      | Some a \<Rightarrow>
          (let kPod = kpHeap pc a; last = lastPodStatusReceivedFromProvider kPod
           in if lastPodStatusUpdateSkipped kPod \<and>
                 (Status newPod \<noteq> Status last \<or> Annotations newPod \<noteq> Annotations last \<or>
                  Labels newPod \<noteq> Labels last \<or> Finalizers newPod \<noteq> Finalizers last)
              then Ok (setKnown a (\<lambda>k. k\<lparr>lastPodStatusUpdateSkipped := False\<rparr>) (enqueueStatus env podKey pc))
              else Ok pc))"

section \<open>Helpers of the handlers\<close>

definition running :: "PodStatus \<Rightarrow> bool" where
  "running podStatus \<longleftrightarrow>
     list_ex (\<lambda>status. Terminated (cs_State status) = None \<and> Waiting (cs_State status) = None)
       (elems (ContainerStatuses podStatus))"

text \<open>
  The path filter of \<open>podsEffectivelyEqual\<close> matches the resource version. Its other name,
  \<open>State\<close>, is not a path of a pod, so that nothing else is ignored.
\<close>

definition podsEffectivelyEqual :: "Pod \<Rightarrow> Pod \<Rightarrow> bool" where
  "podsEffectivelyEqual p1 p2 \<longleftrightarrow> p1\<lparr>ResourceVersion := ''''\<rparr> = p2\<lparr>ResourceVersion := ''''\<rparr>"

definition shouldSkipPodStatusUpdate :: "Pod \<Rightarrow> bool" where
  "shouldSkipPodStatusUpdate pod \<longleftrightarrow>
     Phase (Status pod) = PodSucceeded \<or> Phase (Status pod) = PodFailed"

text \<open>The key of the deletion queue: pod key and UID. Without a slash the slicing panics.\<close>

definition deletionKey :: "string \<Rightarrow> Pod \<Rightarrow> string" where
  "deletionKey podKey pod = podKey @ ''/'' @ UID pod"

definition getUIDAndMetaNamespaceKey :: "string \<Rightarrow> (string \<times> string) outcome" where
  "getUIDAndMetaNamespaceKey podKey =
     (let idx = LastIndex podKey (CHR ''/'')
      in if idx < 0 then Panic
         else Ok (drop (nat (idx + 1)) podKey, take (nat idx) podKey))"

section \<open>Pods in the provider\<close>

definition handleProviderError ::
  "('r, 'w) pcEnv \<Rightarrow> goerror \<Rightarrow> Pod \<Rightarrow> ('r, 'w) pcState \<Rightarrow> Pod \<times> ('r, 'w) pcState" where
  "handleProviderError env origErr pod pc =
     (let podPhase = (if RestartPolicy pod = RestartPolicyNever then PodFailed else PodPending);
          pod = pod\<lparr>ResourceVersion := '''',
                    Status := (Status pod)\<lparr>Phase := podPhase,
                      st_Reason := podStatusReasonProviderFailed, st_Message := errorText env origErr\<rparr>\<rparr>
      in (pod, snd (apiStatusUpdate env pod pc)))"

definition providerFailed ::
  "('r, 'w) pcEnv \<Rightarrow> goerror \<Rightarrow> string \<Rightarrow> Pod \<Rightarrow> ('r, 'w) pcState \<Rightarrow> (goerror option \<times> ('r, 'w) pcState) run" where
  "providerFailed env origErr reason pod pc =
     (case handleProviderError env origErr pod pc of (pod, pc) \<Rightarrow>
        Returns (Some origErr, recorderEvent env pod EventTypeWarning reason pc))"

definition createOrUpdatePod ::
  "('r, 'w) pcEnv \<Rightarrow> Pod \<Rightarrow> ('r, 'w) pcState \<Rightarrow> (goerror option \<times> ('r, 'w) pcState) run" where
  "createOrUpdatePod env pod pc =
     (case provGetPod env (Namespace pod) (Name pod) pc of
        ((Some podFromProvider, _), pc) \<Rightarrow>
          (if PodsEqual podFromProvider pod then Returns (None, pc)
           else case provUpdate env pod pc of
             None \<Rightarrow> Diverges
           | Some (Some origErr, pc) \<Rightarrow> providerFailed env origErr podEventUpdateFailed pod pc
           | Some (None, pc) \<Rightarrow>
               Returns (None, recorderEvent env pod EventTypeNormal podEventUpdateSuccess pc))
      | ((None, _), pc) \<Rightarrow>
          (case provCreate env pod pc of
             None \<Rightarrow> Diverges
           | Some (Some origErr, pc) \<Rightarrow> providerFailed env origErr podEventCreateFailed pod pc
           | Some (None, pc) \<Rightarrow>
               Returns (None, recorderEvent env pod EventTypeNormal podEventCreateSuccess pc)))"

text \<open>\<open>deletePod\<close> of the controller.\<close>

definition deletePod ::
  "('r, 'w) pcEnv \<Rightarrow> Pod \<Rightarrow> ('r, 'w) pcState \<Rightarrow> (goerror option \<times> ('r, 'w) pcState) run" where
  "deletePod env pod pc =
     (case provDelete env pod pc of
        None \<Rightarrow> Diverges
      | Some (Some err, pc) \<Rightarrow>
          Returns (Some err, recorderEvent env pod EventTypeWarning podEventDeleteFailed pc)
      | Some (None, pc) \<Rightarrow>
          Returns (None, recorderEvent env pod EventTypeNormal podEventDeleteSuccess pc))"

section \<open>Syncing a pod from the cluster to the provider\<close>

text \<open>The product of a second and a grace period wraps at 64 bits.\<close>

definition wrap64 :: "int \<Rightarrow> int" where
  "wrap64 d = signed_take_bit 63 d"

text \<open>\<open>syncPodInProvider\<close> behind the check of the last pod used.\<close>

definition syncBody ::
  "('r, 'w) pcEnv \<Rightarrow> Pod \<Rightarrow> string \<Rightarrow> ('r, 'w) pcState \<Rightarrow> (goerror option \<times> ('r, 'w) pcState) run" where
  "syncBody env pod podKey pc =
     (if DeletionTimestamp pod \<noteq> None
      then case deletePod env pod pc of
             Returns (err, pc) \<Rightarrow>
               (case err of
                  Some e \<Rightarrow>
                    if \<not> IsNotFound e
                    then Returns (Some (ErrWrap ''failed to delete pod in the provider'' e), pc)
                    else (case DeletionGracePeriodSeconds pod of
                            None \<Rightarrow> Panics
                          | Some g \<Rightarrow> Returns (None, enqueueDeleteAfter env (deletionKey podKey pod) (wrap64 (second * g)) pc))
                | None \<Rightarrow>
                    (case DeletionGracePeriodSeconds pod of
                       None \<Rightarrow> Panics
                     | Some g \<Rightarrow> Returns (None, enqueueDeleteAfter env (deletionKey podKey pod) (wrap64 (second * g)) pc)))
           | Panics \<Rightarrow> Panics
           | Diverges \<Rightarrow> Diverges
      else if Phase (Status pod) = PodFailed \<or> Phase (Status pod) = PodSucceeded then Returns (None, pc)
      else case createOrUpdatePod env pod pc of
             Returns (Some e, pc) \<Rightarrow> Returns (Some (ErrWrap ''failed to sync pod in the provider'' e), pc)
           | Returns (None, pc) \<Rightarrow> Returns (None, pc)
           | Panics \<Rightarrow> Panics
           | Diverges \<Rightarrow> Diverges)"

definition syncPodInProvider ::
  "('r, 'w) pcEnv \<Rightarrow> Pod \<Rightarrow> string \<Rightarrow> ('r, 'w) pcState \<Rightarrow> (goerror option \<times> ('r, 'w) pcState) run" where
  "syncPodInProvider env pod podKey pc =
     (if DeletionTimestamp pod \<noteq> None \<and> \<not> running (Status pod)
      then Returns (None, enqueueDelete env (deletionKey podKey pod) pc)
      else case knownPods pc podKey of
        None \<Rightarrow> Returns (None, pc)
      | Some a \<Rightarrow>
          (if (case lastPodUsed (kpHeap pc a) of Some p \<Rightarrow> podsEffectivelyEqual p pod | None \<Rightarrow> False)
           then Returns (None, pc)
           else case syncBody env pod podKey pc of
                  Returns (None, pc) \<Rightarrow>
                    Returns (None, setKnown a (\<lambda>k. k\<lparr>lastPodUsed := Some pod\<rparr>) pc)
                | r \<Rightarrow> r))"

text \<open>
  \<open>syncPodsFromKubernetesHandler\<close>. When the cluster has no such pod, the one of the
  provider is deleted.
\<close>

definition deleteMissingPod ::
  "('r, 'w) pcEnv \<Rightarrow> string \<Rightarrow> string \<Rightarrow> string \<Rightarrow> ('r, 'w) pcState \<Rightarrow> (goerror option \<times> ('r, 'w) pcState) run" where
  "deleteMissingPod env podKey namespace name pc =
     (case provGetPod env namespace name pc of ((pod, err), pc) \<Rightarrow>
        (case err of
           Some e \<Rightarrow>
             if \<not> IsNotFound e
             then Returns (Some (ErrWrap ''failed to fetch pod from provider'' e), pc)
             else Returns (None, pc)
         | None \<Rightarrow>
             (case pod of
                None \<Rightarrow> Returns (None, pc)
              | Some p \<Rightarrow>
                  (case provDelete env p pc of
                     None \<Rightarrow> Diverges
                   | Some (Some e, pc) \<Rightarrow>
                       if IsNotFound e then Returns (None, pc)
                       else Returns (Some (ErrWrap ''failed to delete pod in the provider'' e),
                                     DeleteKnownPod podKey pc)
                   | Some (None, pc) \<Rightarrow> Returns (None, DeleteKnownPod podKey pc)))))"

definition syncPodsFromKubernetesHandler ::
  "('r, 'w) pcEnv \<Rightarrow> string \<Rightarrow> ('r, 'w) pcState \<Rightarrow> (goerror option \<times> ('r, 'w) pcState) run" where
  "syncPodsFromKubernetesHandler env podKey pc =
     (case SplitMetaNamespaceKey podKey of
        Ok (namespace, name) \<Rightarrow>
          (case cacheGet env namespace name pc of
             (Inl err, pc) \<Rightarrow>
               if \<not> IsNotFound err
               then Returns (Some (ErrWrap ''failed to fetch pod from lister'' err), pc)
               else deleteMissingPod env podKey namespace name pc
           | (Inr pod, pc) \<Rightarrow> syncPodInProvider env pod podKey pc)
      | _ \<Rightarrow> Returns (None, pc))"

section \<open>Syncing a status from the provider to the cluster\<close>

text \<open>
  \<open>enqueuePodStatusUpdate\<close>. The poll runs its condition up to \<open>polls\<close> times before the
  context ends; a lookup in the cache overwrites the pod.
\<close>

fun pollKnown ::
  "('r, 'w) pcEnv \<Rightarrow> nat \<Rightarrow> string \<Rightarrow> Pod \<Rightarrow> ('r, 'w) pcState \<Rightarrow> (goerror + addr \<times> Pod) \<times> ('r, 'w) pcState" where
  "pollKnown env 0 podKey pod pc = (Inl CtxDeadline, pc)"
| "pollKnown env (Suc polls) podKey pod pc =
     (case knownPods pc podKey of
        Some a \<Rightarrow> (Inr (a, pod), pc)
      | None \<Rightarrow>
          (case cacheGet env (Namespace pod) (Name pod) pc of
             (Inl err, pc) \<Rightarrow> (Inl err, pc)
           | (Inr pod, pc) \<Rightarrow> pollKnown env polls podKey pod (elapse env pc)))"

definition enqueuePodStatusUpdate ::
  "('r, 'w) pcEnv \<Rightarrow> nat \<Rightarrow> Pod \<Rightarrow> ('r, 'w) pcState \<Rightarrow> ('r, 'w) pcState" where
  "enqueuePodStatusUpdate env polls pod pc =
     (case metaKeyFunc env pod of
        Inl err \<Rightarrow> pc
      | Inr podKey \<Rightarrow>
          (case pollKnown env polls podKey pod pc of
             (Inl err, pc) \<Rightarrow> pc
           | (Inr (a, pod), pc) \<Rightarrow>
               if lastPodStatusReceivedFromProvider (kpHeap pc a) = pod
               then setKnown a (\<lambda>k. k\<lparr>lastPodStatusUpdateSkipped := True\<rparr>) pc
               else enqueueStatus env podKey
                      (setKnown a (\<lambda>k. k\<lparr>lastPodStatusUpdateSkipped := False,
                                         lastPodStatusReceivedFromProvider := pod\<rparr>) pc)))"

definition deleteFromProvider ::
  "('r, 'w) pcEnv \<Rightarrow> Pod \<Rightarrow> Pod \<Rightarrow> ('r, 'w) pcState \<Rightarrow> goerror option \<times> ('r, 'w) pcState" where
  "deleteFromProvider env podFromProvider podFromKubernetes pc =
     (case (DeletionTimestamp podFromProvider, DeletionTimestamp podFromKubernetes) of
        (Some t, None) \<Rightarrow>
          (let grace = (if Before t (pcNow env pc) then Some 0 else DeletionGracePeriodSeconds podFromProvider)
           in if Status podFromKubernetes = Status podFromProvider
              then case apiDelete env podFromKubernetes grace None pc of
                     (Some err, pc) \<Rightarrow> (if IsNotFound err then None else Some err, pc)
                   | (None, pc) \<Rightarrow> (None, pc)
              else (None, pc))
      | _ \<Rightarrow> (None, pc))"

definition updatePodStatus ::
  "('r, 'w) pcEnv \<Rightarrow> Pod \<Rightarrow> string \<Rightarrow> ('r, 'w) pcState \<Rightarrow> goerror option \<times> ('r, 'w) pcState" where
  "updatePodStatus env podFromKubernetes podKey pc =
     (if shouldSkipPodStatusUpdate podFromKubernetes then (None, pc)
      else case knownPods pc podKey of
        None \<Rightarrow> (None, pc)
      | Some a \<Rightarrow>
          (let podFromProvider = lastPodStatusReceivedFromProvider (kpHeap pc a)
           in case deleteFromProvider env podFromProvider podFromKubernetes pc of
                (Some err, pc) \<Rightarrow> (Some (ErrWrap ''error while delete pod in kubernetes'' err), pc)
              | (None, pc) \<Rightarrow>
                  (case apiStatusPatch env (podFromKubernetes\<lparr>Status := Status podFromProvider\<rparr>)
                          podFromKubernetes pc of
                     (Some err, pc) \<Rightarrow>
                       if IsNotFound err then (None, pc)
                       else (Some (ErrWrap ''error while updating pod status in kubernetes'' err), pc)
                   | (None, pc) \<Rightarrow> (None, pc))))"

definition syncPodStatusFromProviderHandler ::
  "('r, 'w) pcEnv \<Rightarrow> string \<Rightarrow> ('r, 'w) pcState \<Rightarrow> goerror option \<times> ('r, 'w) pcState" where
  "syncPodStatusFromProviderHandler env podKey pc =
     (case splitMetaKey env podKey of
        Inl err \<Rightarrow> (Some (ErrWrap ''error splitting cache podKey'' err), pc)
      | Inr (namespace, name) \<Rightarrow>
          (case apiGet env namespace name pc of
             (Inl err, pc) \<Rightarrow>
               if IsNotFound err then (None, pc)
               else (Some (ErrWrap ''error looking up pod'' err), pc)
           | (Inr pod, pc) \<Rightarrow> updatePodStatus env pod podKey pc))"

section \<open>Deleting pods from the cluster\<close>

definition deletePodsFromKubernetesHandler ::
  "('r, 'w) pcEnv \<Rightarrow> string \<Rightarrow> ('r, 'w) pcState \<Rightarrow> (goerror option \<times> ('r, 'w) pcState) run" where
  "deletePodsFromKubernetesHandler env podKey pc =
     (case getUIDAndMetaNamespaceKey podKey of
        Ok (uid, metaKey) \<Rightarrow>
          (case splitMetaKey env metaKey of
             Inl err \<Rightarrow> Returns (None, pc)
           | Inr (namespace, name) \<Rightarrow>
               (case apiGet env namespace name pc of
                  (Inl err, pc) \<Rightarrow>
                    if IsNotFound err then Returns (None, pc) else Returns (Some err, pc)
                | (Inr k8sPod, pc) \<Rightarrow>
                    if UID k8sPod \<noteq> uid then Returns (None, pc)
                    else case apiDelete env k8sPod (Some 0) (Some uid) pc of
                      (Some err, pc) \<Rightarrow>
                        if IsNotFound err \<or> IsConflict err then Returns (None, pc)
                        else Returns (Some err, pc)
                    | (None, pc) \<Rightarrow> Returns (None, pc)))
      | _ \<Rightarrow> Panics)"

text \<open>
  \<open>deleteDanglingPods\<close>: the pods of the provider that the cluster does not have, or nothing
  at all when a lookup fails; then their deletions, in the order the goroutines take.
\<close>

fun collectDangling ::
  "('r, 'w) pcEnv \<Rightarrow> Pod list \<Rightarrow> Pod list \<Rightarrow> ('r, 'w) pcState \<Rightarrow> Pod list option \<times> ('r, 'w) pcState" where
  "collectDangling env [] ptd pc = (Some ptd, pc)"
| "collectDangling env (pp # pps) ptd pc =
     (case cacheGet env (Namespace pp) (Name pp) pc of
        (Inl err, pc) \<Rightarrow>
          if IsNotFound err then collectDangling env pps (ptd @ [pp]) pc else (None, pc)
      | (Inr pod, pc) \<Rightarrow> collectDangling env pps ptd pc)"

definition deleteDanglingPods ::
  "('r, 'w) pcEnv \<Rightarrow> (Pod list \<Rightarrow> Pod list) \<Rightarrow> ('r, 'w) pcState \<Rightarrow> ('r, 'w) pcState option" where
  "deleteDanglingPods env arrange pc =
     (case provGetPods env pc of
        (Inl err, pc) \<Rightarrow> Some pc
      | (Inr pps, pc) \<Rightarrow>
          (case collectDangling env pps [] pc of
             (None, pc) \<Rightarrow> Some pc
           | (Some ptd, pc) \<Rightarrow>
               foldOpt (\<lambda>pod pc. map_option snd (provDelete env pod pc)) (arrange ptd) pc))"

section \<open>Construction\<close>

record 'r PodControllerConfig =
  hasEventRecorder :: bool
  hasProvider :: bool
  hasClient :: bool
  hasCache :: bool
  SyncPodsFromKubernetesRateLimiter :: "('r rateLimiter \<times> 'r) option"
  DeletePodsFromKubernetesRateLimiter :: "('r rateLimiter \<times> 'r) option"
  SyncPodStatusFromProviderRateLimiter :: "('r rateLimiter \<times> 'r) option"

text \<open>
  The result is the initial state and the three rate limiters. \<open>dflt\<close> is the default rate
  limiter of the workqueue package and \<open>w\<close> the state of the world.
\<close>

definition NewPodController ::
  "('r rateLimiter \<times> 'r) \<Rightarrow> 'r PodControllerConfig \<Rightarrow> 'w \<Rightarrow>
   (('r, 'w) pcState \<times> 'r rateLimiter \<times> 'r rateLimiter \<times> 'r rateLimiter) outcome" where
  "NewPodController dflt cfg w =
     (if \<not> hasEventRecorder cfg then Err (ErrText ''missing event recorder'')
      else if \<not> hasProvider cfg then Err (ErrText ''missing provider'')
      else if \<not> hasClient cfg then Err (ErrText ''missing client'')
      else if \<not> hasCache cfg then Err (ErrText ''missing cache'')
      else
        (let orDefault = (\<lambda>r. case r of None \<Rightarrow> dflt | Some x \<Rightarrow> x);
             (rl1, s1) = orDefault (SyncPodsFromKubernetesRateLimiter cfg);
             (rl2, s2) = orDefault (DeletePodsFromKubernetesRateLimiter cfg);
             (rl3, s3) = orDefault (SyncPodStatusFromProviderRateLimiter cfg)
         in Ok (\<lparr>knownPods = Map.empty, kpHeap = (\<lambda>_. \<lparr>lastPodStatusReceivedFromProvider = zeroPod,
                   lastPodUsed = None, lastPodStatusUpdateSkipped = False\<rparr>), kpFresh = 0,
                 syncPodsFromKubernetes = New s1, deletePodsFromKubernetes = New s2,
                 syncPodStatusFromProvider = New s3, world = w\<rparr>, rl1, rl2, rl3)))"

section \<open>Names for logs and traces\<close>

definition loggablePodName :: "Pod \<Rightarrow> string" where
  "loggablePodName pod = GetPodKey (Some pod)"

definition loggablePodNameFromCoordinates :: "string \<Rightarrow> string \<Rightarrow> string" where
  "loggablePodNameFromCoordinates namespace name = namespace @ ''/'' @ name"

definition addPodAttributes :: "Pod \<Rightarrow> (string \<times> string) list" where
  "addPodAttributes pod =
     [(''uid'', UID pod), (''namespace'', Namespace pod), (''name'', Name pod), (''phase'', Phase (Status pod)),
      (''reason'', st_Reason (Status pod))]"

end
