(* ===== verification/MockTunnel.thy ===== *)
theory MockTunnel
  imports PodProvider_Spec PodController
begin

text \<open>
  tunnel/tunnel.go and tunnel/mock_tunnel.go: the callbacks of a tunnel and the tunnel that the tests
  run the program with. It keeps the nodes and the bizs that it was told of under a mutex and calls the
  callbacks while it holds the mutex, which is not reentrant. The callbacks are values of any type, with
  a function that says what calling one with the arguments of an event does to the tunnel and to the rest
  of the program; calling a nil callback panics.
\<close>

section \<open>Callbacks and state\<close>

text \<open>The four callbacks of a tunnel, with their arguments.\<close>

datatype tunnelEvent =
    OnBaseDiscovered NodeInfo
  | OnBaseStatusArrived string NodeStatusData
  | OnAllBizStatusArrived string "BizStatusData list"
  | OnSingleBizStatusArrived string BizStatusData

record tunnelNode =
  tn_NodeInfo :: NodeInfo
  tn_NodeStatusData :: NodeStatusData

record 'c MockTunnel =
  locked :: bool
  onBaseDiscoveredCb :: "'c option"
  onBaseStatusArrivedCb :: "'c option"
  onSingleBizStatusArrivedCb :: "'c option"
  onAllBizStatusArrivedCb :: "'c option"
  bizStatusStorage :: "(string, string \<rightharpoonup> BizStatusData) gomap"
  nodeStorage :: "(string, tunnelNode) gomap"
  NodeNotReady :: "(string, bool) gomap"

type_synonym ('c, 'x) mockState = "'c MockTunnel \<times> 'x"

type_synonym ('c, 'x) callTable = "'c \<Rightarrow> tunnelEvent \<Rightarrow> ('c, 'x) mockState \<Rightarrow> ('c, 'x) mockState run"

text \<open>The zero value, as a test declares it.\<close>

definition zeroMock :: "'c MockTunnel" where
  "zeroMock = \<lparr>locked = False, onBaseDiscoveredCb = None, onBaseStatusArrivedCb = None,
     onSingleBizStatusArrivedCb = None, onAllBizStatusArrivedCb = None, bizStatusStorage = None,
     nodeStorage = None, NodeNotReady = None\<rparr>"

definition invoke ::
  "('c, 'x) callTable \<Rightarrow> ('c MockTunnel \<Rightarrow> 'c option) \<Rightarrow> tunnelEvent \<Rightarrow> ('c, 'x) mockState \<Rightarrow> ('c, 'x) mockState run" where
  "invoke call cb e s = (case cb (fst s) of None \<Rightarrow> Panics | Some f \<Rightarrow> call f e s)"

text \<open>\<open>Lock\<close> and the deferred \<open>Unlock\<close>. The mutex is free between the operations of different
  goroutines, so that a locked one is held by the caller itself, and waiting for it never ends.\<close>

definition withLock ::
  "(('c, 'x) mockState \<Rightarrow> ('c, 'x) mockState run) \<Rightarrow> ('c, 'x) mockState \<Rightarrow> ('c, 'x) mockState run" where
  "withLock f s =
     (case s of (m, x) \<Rightarrow>
        if locked m then Diverges
        else (case f (m\<lparr>locked := True\<rparr>, x) of
                Returns (m, x) \<Rightarrow> Returns (m\<lparr>locked := False\<rparr>, x)
              | Panics \<Rightarrow> Panics
              | Diverges \<Rightarrow> Diverges))"

text \<open>Writing to a nil map panics, deleting from one does nothing.\<close>

definition mapPut :: "'k \<Rightarrow> 'v \<Rightarrow> ('k, 'v) gomap \<Rightarrow> ('k, 'v) gomap outcome" where
  "mapPut k v m = (case m of None \<Rightarrow> Panic | Some f \<Rightarrow> Ok (Some (f(k \<mapsto> v))))"

definition mapDelete :: "'k \<Rightarrow> ('k, 'v) gomap \<Rightarrow> ('k, 'v) gomap" where
  "mapDelete k m = map_option (\<lambda>f. f(k := None)) m"

section \<open>Operations\<close>

text \<open>\<open>OnNodeNotReady\<close> and \<open>DeleteNode\<close> have the same body.\<close>

definition mockDeleteNode :: "string \<Rightarrow> ('c, 'x) mockState \<Rightarrow> ('c, 'x) mockState run" where
  "mockDeleteNode n = withLock (\<lambda>(m, x). Returns (m\<lparr>nodeStorage := mapDelete n (nodeStorage m)\<rparr>, x))"

definition mockOnNodeNotReady :: "string \<Rightarrow> ('c, 'x) mockState \<Rightarrow> ('c, 'x) mockState run" where
  "mockOnNodeNotReady n = withLock (\<lambda>(m, x). Returns (m\<lparr>nodeStorage := mapDelete n (nodeStorage m)\<rparr>, x))"

definition PutNode ::
  "('c, 'x) callTable \<Rightarrow> string \<Rightarrow> tunnelNode \<Rightarrow> ('c, 'x) mockState \<Rightarrow> ('c, 'x) mockState run" where
  "PutNode call n node = withLock (\<lambda>(m, x).
     case mapPut n node (nodeStorage m) of
       Ok nodes \<Rightarrow>
         (case invoke call onBaseDiscoveredCb (OnBaseDiscovered (tn_NodeInfo node)) (m\<lparr>nodeStorage := nodes\<rparr>, x) of
            Returns s \<Rightarrow> invoke call onBaseStatusArrivedCb (OnBaseStatusArrived n (tn_NodeStatusData node)) s
          | Panics \<Rightarrow> Panics
          | Diverges \<Rightarrow> Diverges)
     | _ \<Rightarrow> Panics)"

text \<open>The bizs of a node: a missing map is read as an empty one.\<close>

definition bizMap :: "'c MockTunnel \<Rightarrow> string \<Rightarrow> string \<rightharpoonup> BizStatusData" where
  "bizMap m n = (case mapGet (bizStatusStorage m) n of None \<Rightarrow> Map.empty | Some b \<Rightarrow> b)"

text \<open>Storing the bizs of a node and reporting one of them.\<close>

definition storeAndReport ::
  "('c, 'x) callTable \<Rightarrow> string \<Rightarrow> (string \<rightharpoonup> BizStatusData) \<Rightarrow> BizStatusData \<Rightarrow>
   ('c, 'x) mockState \<Rightarrow> ('c, 'x) mockState run" where
  "storeAndReport call n b data s =
     (case s of (m, x) \<Rightarrow>
        (case mapPut n b (bizStatusStorage m) of
           Ok storage \<Rightarrow> invoke call onSingleBizStatusArrivedCb (OnSingleBizStatusArrived n data) (m\<lparr>bizStatusStorage := storage\<rparr>, x)
         | _ \<Rightarrow> Panics))"

definition UpdateBizStatus ::
  "('c, 'x) callTable \<Rightarrow> string \<Rightarrow> string \<Rightarrow> BizStatusData \<Rightarrow> ('c, 'x) mockState \<Rightarrow> ('c, 'x) mockState run" where
  "UpdateBizStatus call n containerKey data =
     withLock (\<lambda>(m, x). storeAndReport call n ((bizMap m n)(containerKey \<mapsto> data)) data (m, x))"

definition mockKey :: string where
  "mockKey = ''mock_tunnel''"

text \<open>The operations that return an error return nil.\<close>

definition mockStart :: "string \<Rightarrow> string \<Rightarrow> 'c MockTunnel \<Rightarrow> goerror option \<times> 'c MockTunnel" where
  "mockStart clientID env m =
     (None, m\<lparr>bizStatusStorage := Some Map.empty, nodeStorage := Some Map.empty, NodeNotReady := Some Map.empty\<rparr>)"

definition mockReady :: "'c MockTunnel \<Rightarrow> bool" where
  "mockReady m \<longleftrightarrow> True"

definition RegisterCallback ::
  "'c option \<Rightarrow> 'c option \<Rightarrow> 'c option \<Rightarrow> 'c option \<Rightarrow> 'c MockTunnel \<Rightarrow> 'c MockTunnel" where
  "RegisterCallback discovered baseStatus allBiz singleBiz m =
     m\<lparr>onBaseStatusArrivedCb := baseStatus, onBaseDiscoveredCb := discovered,
       onAllBizStatusArrivedCb := allBiz, onSingleBizStatusArrivedCb := singleBiz\<rparr>"

definition mockRegisterNode :: "NodeInfo \<Rightarrow> 'c MockTunnel \<Rightarrow> goerror option \<times> 'c MockTunnel" where
  "mockRegisterNode initData m = (None, m)"

definition mockUnRegisterNode :: "string \<Rightarrow> 'c MockTunnel \<Rightarrow> 'c MockTunnel" where
  "mockUnRegisterNode n m = m"

text \<open>The error of an operation with a callback, when it returns.\<close>

definition nilError :: "'s run \<Rightarrow> (goerror option \<times> 's) run" where
  "nilError r = (case r of Returns s \<Rightarrow> Returns (None, s) | Panics \<Rightarrow> Panics | Diverges \<Rightarrow> Diverges)"

definition FetchHealthData ::
  "('c, 'x) callTable \<Rightarrow> string \<Rightarrow> ('c, 'x) mockState \<Rightarrow> (goerror option \<times> ('c, 'x) mockState) run" where
  "FetchHealthData call n s =
     nilError (case mapGet (nodeStorage (fst s)) n of
         None \<Rightarrow> Returns s
       | Some data \<Rightarrow> invoke call onBaseStatusArrivedCb (OnBaseStatusArrived n (tn_NodeStatusData data)) s)"

definition convertContainerMap2ContainerList :: "string list \<Rightarrow> (string \<rightharpoonup> BizStatusData) \<Rightarrow> BizStatusData list" where
  "convertContainerMap2ContainerList order m = range_values m order"

definition QueryAllBizStatusData ::
  "('c, 'x) callTable \<Rightarrow> string list \<Rightarrow> string \<Rightarrow> ('c, 'x) mockState \<Rightarrow> (goerror option \<times> ('c, 'x) mockState) run" where
  "QueryAllBizStatusData call order n s =
     nilError (case mapGet (nodeStorage (fst s)) n of
         None \<Rightarrow> Returns s
       | Some _ \<Rightarrow> invoke call onAllBizStatusArrivedCb
           (OnAllBizStatusArrived n (convertContainerMap2ContainerList order (bizMap (fst s) n))) s)"

definition mockBiz :: "gotime \<Rightarrow> string \<Rightarrow> Container \<Rightarrow> BizStatusData" where
  "mockBiz now podKey container =
     \<lparr>b_Key = GetBizUniqueKey container, b_Name = c_Name container, PodKey = podKey,
      b_State = BizStateUnResolved, ChangeTime = now, b_Reason = ''mock_resolved'', b_Message = ''mock resolved''\<rparr>"

definition mockStartBiz ::
  "('c, 'x) callTable \<Rightarrow> gotime \<Rightarrow> string \<Rightarrow> string \<Rightarrow> Container \<Rightarrow> ('c, 'x) mockState \<Rightarrow>
   (goerror option \<times> ('c, 'x) mockState) run" where
  "mockStartBiz call now n podKey container s =
     nilError (withLock (\<lambda>(m, x).
        let data = mockBiz now podKey container
        in storeAndReport call n ((bizMap m n)(b_Key data \<mapsto> data)) data (m, x)) s)"

definition mockStopBiz ::
  "('c, 'x) callTable \<Rightarrow> gotime \<Rightarrow> string \<Rightarrow> string \<Rightarrow> Container \<Rightarrow> ('c, 'x) mockState \<Rightarrow>
   (goerror option \<times> ('c, 'x) mockState) run" where
  "mockStopBiz call now n podKey container s =
     nilError (withLock (\<lambda>(m, x).
        let k = GetBizUniqueKey container
        in case bizMap m n k of
             None \<Rightarrow> Returns (m, x)
           | Some data \<Rightarrow>
               storeAndReport call n ((bizMap m n)(k := None)) (data\<lparr>b_State := BizStateStopped, ChangeTime := now\<rparr>) (m, x)) s)"

definition mockGetBizUniqueKey :: "Container \<Rightarrow> string" where
  "mockGetBizUniqueKey container = GetBizUniqueKey container"

section \<open>What a tunnel promises the pod provider\<close>

text \<open>
  The bizs that a tunnel runs on each node, as a function of the state: starting a container puts its
  biz there under the key of the pod, stopping it takes it away, both return nil and leave all others
  alone; and neither the tracker nor the callback of the provider touches them.
\<close>

locale biz_tunnel =
  fixes env :: "'s providerEnv"
    and bizs :: "'s \<Rightarrow> string \<Rightarrow> string \<rightharpoonup> BizStatusData"
    and good :: "'s \<Rightarrow> bool"
  assumes start_biz: "good s \<Longrightarrow> StartBiz env n k c s = (e, s') \<Longrightarrow>
      e = None \<and> good s' \<and>
      (\<exists>d. PodKey d = k \<and> bizs s' = (bizs s)(n := (bizs s n)(GetBizUniqueKey c \<mapsto> d)))"
    and stop_biz: "good s \<Longrightarrow> StopBiz env n k c s = (e, s') \<Longrightarrow>
      e = None \<and> good s' \<and> bizs s' = (bizs s)(n := (bizs s n)(GetBizUniqueKey c := None))"
    and tracked: "good s \<Longrightarrow> good (recordEvent (trk env) d s) \<and> bizs (recordEvent (trk env) d s) = bizs s"
      "good s \<Longrightarrow> good (report (trk env) d s) \<and> bizs (report (trk env) d s) = bizs s"
    and notified: "good s \<Longrightarrow> good (notify env p s) \<and> bizs (notify env p s) = bizs s"
begin

text \<open>What the bizs are after starting or stopping some containers for a pod.\<close>

definition started :: "string \<Rightarrow> string \<Rightarrow> Container list \<Rightarrow> 's \<Rightarrow> 's \<Rightarrow> bool" where
  "started n k cs s s' \<longleftrightarrow>
     (\<forall>c\<in>set cs. \<exists>d. bizs s' n (GetBizUniqueKey c) = Some d \<and> PodKey d = k) \<and>
     (\<forall>n' j. n' \<noteq> n \<or> j \<notin> GetBizUniqueKey ` set cs \<longrightarrow> bizs s' n' j = bizs s n' j)"

definition stopped :: "string \<Rightarrow> Container list \<Rightarrow> 's \<Rightarrow> 's \<Rightarrow> bool" where
  "stopped n cs s s' \<longleftrightarrow>
     (\<forall>n' j. bizs s' n' j = (if n' = n \<and> j \<in> GetBizUniqueKey ` set cs then None else bizs s n' j))"

lemma started_Cons:
  assumes "bizs u = (bizs s)(n := (bizs s n)(GetBizUniqueKey c \<mapsto> d))" "PodKey d = k" "started n k cs u s'"
  shows "started n k (c # cs) s s'"
proof -
  have "\<exists>d. bizs s' n (GetBizUniqueKey c) = Some d \<and> PodKey d = k"
  proof (cases "GetBizUniqueKey c \<in> GetBizUniqueKey ` set cs")
    case True
    then show ?thesis using assms(3) unfolding started_def by (metis imageE)
  next
    case False
    then have "bizs s' n (GetBizUniqueKey c) = bizs u n (GetBizUniqueKey c)" using assms(3) unfolding started_def by blast
    then show ?thesis using assms(1,2) by simp
  qed
  then show ?thesis using assms(1,3) unfolding started_def by auto
qed

lemma stopped_Cons:
  assumes "bizs u = (bizs s)(n := (bizs s n)(GetBizUniqueKey c := None))" "stopped n cs u s'"
  shows "stopped n (c # cs) s s'"
  using assms by (auto simp: stopped_def)

text \<open>A call that succeeds is made once, and logged.\<close>

lemma tracked_call:
  assumes "call w = (None, w1)" "good w1"
  shows "\<exists>w'. map_option snd (FuncTrack (trk env) tid sc ev lbl (retryTunnel env call code) w) = Some w' \<and>
    good w' \<and> bizs w' = bizs w1"
  using retryTunnel_once [of call, OF assms(1)] tracked assms(2) by (simp add: FuncTrack_def Let_def)

lemma start_batch:
  "good w \<Longrightarrow> \<exists>w'. handleBizBatchStart env b pod cs w = Some w' \<and> good w' \<and>
     started (nodeName b) (GetPodKey (Some pod)) cs w w'"
proof (induction cs arbitrary: w)
  case Nil
  then show ?case by (simp add: handleBizBatchStart_def Let_def started_def)
next
  case (Cons c cs)
  let ?n = "nodeName b" and ?k = "GetPodKey (Some pod)"
  obtain e t where t: "StartBiz env ?n ?k c w = (e, t)" by fastforce
  from start_biz [OF Cons.prems t] obtain d where d: "e = None" "good t" "PodKey d = ?k"
    "bizs t = (bizs w)(?n := (bizs w ?n)(GetBizUniqueKey c \<mapsto> d))" by blast
  obtain u where u: "map_option snd (FuncTrack (trk env) (mapGetStr (labelMapOf pod) LabelKeyOfTraceID) TrackSceneVPodDeploy
      TrackEventContainerStart (labelMapOf pod) (retryTunnel env (StartBiz env ?n ?k c) CodeContainerStartFailed) w) = Some u"
    "good u" "bizs u = bizs t"
    using tracked_call [of "StartBiz env ?n ?k c" w t] t d by blast
  obtain w' where "handleBizBatchStart env b pod cs u = Some w'" "good w'" "started ?n ?k cs u w'"
    using Cons.IH [OF u(2)] by blast
  moreover have "started ?n ?k (c # cs) w w'" by (rule started_Cons) (use u(3) d(3,4) calculation in auto)
  ultimately show ?case
    unfolding handleBizBatchStart_def Let_def foldOpt.simps u(1) option.case by blast
qed

lemma stop_batch:
  "good w \<Longrightarrow> \<exists>w'. handleBizBatchStop env b pod cs w = Some w' \<and> good w' \<and> stopped (nodeName b) cs w w'"
proof (induction cs arbitrary: w)
  case Nil
  then show ?case by (simp add: handleBizBatchStop_def Let_def stopped_def)
next
  case (Cons c cs)
  let ?n = "nodeName b"
  let ?k = "if HasSuffix (GetPodKey (Some pod)) ObjectMetaNameNotExistPod then '''' else GetPodKey (Some pod)"
  obtain e t where t: "StopBiz env ?n ?k c w = (e, t)" by fastforce
  from stop_biz [OF Cons.prems t] have d: "e = None" "good t"
    "bizs t = (bizs w)(?n := (bizs w ?n)(GetBizUniqueKey c := None))" by blast+
  obtain u where u: "map_option snd (FuncTrack (trk env) (mapGetStr (labelMapOf pod) LabelKeyOfTraceID) TrackSceneVPodDeploy
      TrackEventContainerShutdown (labelMapOf pod) (retryTunnel env (StopBiz env ?n ?k c) CodeContainerStopFailed) w) = Some u"
    "good u" "bizs u = bizs t"
    using tracked_call [of "StopBiz env ?n ?k c" w t] t d by blast
  obtain w' where "handleBizBatchStop env b pod cs u = Some w'" "good w'" "stopped ?n cs u w'"
    using Cons.IH [OF u(2)] by blast
  moreover have "stopped ?n (c # cs) w w'" by (rule stopped_Cons) (use u(3) d(3) calculation in auto)
  ultimately show ?case
    unfolding handleBizBatchStop_def Let_def foldOpt.simps u(1) option.case by blast
qed

text \<open>Creating a pod and deleting it again.\<close>

lemma create_then_delete:
  assumes "good w"
  shows "\<exists>b1 w1 b2 w2. CreatePod env pod b w = Some (None, b1, w1) \<and>
    GetPodByKey (vPodStore b1) (GetPodKey (Some pod)) = Some pod \<and>
    started (nodeName b) (GetPodKey (Some pod)) (elems (Containers pod)) w w1 \<and>
    DeletePod env (Some pod) b1 w1 = Some (None, b2, w2) \<and>
    GetPodByKey (vPodStore b2) (GetPodKey (Some pod)) = None \<and>
    stopped (nodeName b) (elems (Containers pod)) w w2"
proof -
  let ?k = "GetPodKey (Some pod)" and ?cs = "elems (Containers pod)"
  let ?b1 = "b\<lparr>vPodStore := PutPod pod (vPodStore b)\<rparr>"
  obtain u where u: "handleBizBatchStart env ?b1 pod ?cs w = Some u" "good u" "started (nodeName b) ?k ?cs w u"
    using start_batch [OF assms, of ?b1 pod ?cs] by auto
  let ?w1 = "notify env pod u"
  have 1: "good ?w1" "bizs ?w1 = bizs u" using notified [OF u(2)] by simp_all
  let ?b2 = "?b1\<lparr>vPodStore := storeDeletePod ?k (vPodStore ?b1)\<rparr>"
  obtain v where v: "handleBizBatchStop env ?b2 pod ?cs ?w1 = Some v" "good v" "stopped (nodeName b) ?cs ?w1 v"
    using stop_batch [OF 1(1), of ?b2 pod ?cs] by auto
  have 2: "bizs (notify env pod v) = bizs v" using notified [OF v(2)] by simp
  have "started (nodeName b) ?k ?cs w ?w1" using u(3) by (simp add: started_def 1(2))
  moreover have "stopped (nodeName b) ?cs w (notify env pod v)"
    using u(3) v(3) unfolding started_def stopped_def 1(2) 2 by auto
  moreover have "CreatePod env pod b w = Some (None, ?b1, ?w1)" using u(1) by (simp add: CreatePod_def Let_def)
  moreover have "DeletePod env (Some pod) ?b1 ?w1 = Some (None, ?b2, notify env pod v)"
    using v(1) by (simp add: DeletePod_def Let_def)
  ultimately show ?thesis
    by (intro exI [of _ ?b1] exI [of _ ?w1] exI [of _ ?b2] exI [of _ "notify env pod v"])
      (simp add: vpods.get_put vpods.get_del)
qed

end

section \<open>The mock tunnel keeps the promise\<close>

text \<open>
  An operation as the call of an environment that answers for sure; where the operation would panic or
  block, which the interpretation excludes, the answer is an error.
\<close>

definition answered :: "(goerror option \<times> 's) run \<Rightarrow> 's \<Rightarrow> goerror option \<times> 's" where
  "answered r s = (case r of Returns p \<Rightarrow> p | _ \<Rightarrow> (Some (ErrText ''no answer''), s))"

text \<open>
  The provider on top of the mock: the rest of its environment lives beside the tunnel, and the callbacks
  of the tunnel change that rest only.
\<close>

definition quietly :: "('c \<Rightarrow> tunnelEvent \<Rightarrow> 'x \<Rightarrow> 'x) \<Rightarrow> ('c, 'x) callTable" where
  "quietly g = (\<lambda>c e (m, x). Returns (m, g c e x))"

definition mockProviderEnv ::
  "('c \<Rightarrow> tunnelEvent \<Rightarrow> 'x \<Rightarrow> 'x) \<Rightarrow> ('x \<Rightarrow> gotime) \<Rightarrow> 'x providerEnv \<Rightarrow> ('c, 'x) mockState providerEnv" where
  "mockProviderEnv g clk base =
     \<lparr>StartBiz = (\<lambda>n k c s. answered (mockStartBiz (quietly g) (clk (snd s)) n k c s) s),
      StopBiz = (\<lambda>n k c s. answered (mockStopBiz (quietly g) (clk (snd s)) n k c s) s),
      notify = (\<lambda>p. map_prod id (notify base p)),
      cacheGetPod = (\<lambda>ns n (m, x). case cacheGetPod base ns n x of (r, x) \<Rightarrow> (r, m, x)),
      clientGetPod = (\<lambda>ns n (m, x). case clientGetPod base ns n x of (r, x) \<Rightarrow> (r, m, x)),
      trk = \<lparr>config = config (trk base), recordEvent = (\<lambda>d. map_prod id (recordEvent (trk base) d)),
             report = (\<lambda>d. map_prod id (report (trk base) d)), trackerNow = (\<lambda>s. trackerNow (trk base) (snd s))\<rparr>,
      ctxWait = ctxWait base, updateTimedOut = updateTimedOut base\<rparr>"

text \<open>A tunnel that was started, has its callback, and is not in use.\<close>

definition mock_ok :: "'c MockTunnel \<Rightarrow> bool" where
  "mock_ok m \<longleftrightarrow> \<not> locked m \<and> bizStatusStorage m \<noteq> None \<and> onSingleBizStatusArrivedCb m \<noteq> None"

lemma storeAndReport_quietly:
  assumes "bizStatusStorage m \<noteq> None" "onSingleBizStatusArrivedCb m \<noteq> None"
  shows "\<exists>y f. bizStatusStorage m = Some f \<and>
    storeAndReport (quietly g) n b d (m, x) = Returns (m\<lparr>bizStatusStorage := Some (f(n \<mapsto> b))\<rparr>, y)"
  using assms by (auto simp: storeAndReport_def mapPut_def invoke_def quietly_def)

lemma bizMap_put [simp]:
  "bizStatusStorage m = Some f \<Longrightarrow> bizMap (m\<lparr>bizStatusStorage := Some (f(n \<mapsto> b))\<rparr>) = (bizMap m)(n := b)"
  by (simp add: bizMap_def fun_eq_iff)

lemma bizMap_locked [simp]: "bizMap (m\<lparr>locked := l\<rparr>) = bizMap m"
  by (simp add: bizMap_def fun_eq_iff)

lemma mockStartBiz_ok:
  assumes "mock_ok m"
  shows "\<exists>m' y. mockStartBiz (quietly g) now n k c (m, x) = Returns (None, m', y) \<and> mock_ok m' \<and>
    bizMap m' = (bizMap m)(n := (bizMap m n)(GetBizUniqueKey c \<mapsto> mockBiz now k c))"
proof -
  let ?b = "(bizMap m n)(GetBizUniqueKey c \<mapsto> mockBiz now k c)"
  obtain y f where "bizStatusStorage m = Some f" "storeAndReport (quietly g) n ?b (mockBiz now k c) (m\<lparr>locked := True\<rparr>, x) =
      Returns (m\<lparr>locked := True, bizStatusStorage := Some (f(n \<mapsto> ?b))\<rparr>, y)"
    using storeAndReport_quietly [of "m\<lparr>locked := True\<rparr>" g n ?b "mockBiz now k c" x] assms by (auto simp: mock_ok_def)
  then show ?thesis
    using assms by (simp add: mockStartBiz_def withLock_def nilError_def Let_def mock_ok_def mockBiz_def)
qed

lemma mockStopBiz_ok:
  assumes "mock_ok m"
  shows "\<exists>m' y. mockStopBiz (quietly g) now n k c (m, x) = Returns (None, m', y) \<and> mock_ok m' \<and>
    bizMap m' = (bizMap m)(n := (bizMap m n)(GetBizUniqueKey c := None))"
proof (cases "bizMap m n (GetBizUniqueKey c)")
  case None
  then show ?thesis
    using assms by (auto simp: mockStopBiz_def withLock_def nilError_def mock_ok_def fun_upd_idem)
next
  case (Some d)
  let ?b = "(bizMap m n)(GetBizUniqueKey c := None)" and ?d = "d\<lparr>b_State := BizStateStopped, ChangeTime := now\<rparr>"
  obtain y f where "bizStatusStorage m = Some f" "storeAndReport (quietly g) n ?b ?d (m\<lparr>locked := True\<rparr>, x) =
      Returns (m\<lparr>locked := True, bizStatusStorage := Some (f(n \<mapsto> ?b))\<rparr>, y)"
    using storeAndReport_quietly [of "m\<lparr>locked := True\<rparr>" g n ?b ?d x] assms by (auto simp: mock_ok_def)
  then show ?thesis
    using assms Some by (simp add: mockStopBiz_def withLock_def nilError_def Let_def mock_ok_def)
qed

interpretation mock: biz_tunnel "mockProviderEnv g clk base" "\<lambda>s. bizMap (fst s)" "\<lambda>s. mock_ok (fst s)"
  for g :: "'c \<Rightarrow> tunnelEvent \<Rightarrow> 'x \<Rightarrow> 'x" and clk base
proof
  fix n k c e d p and s s' :: "('c, 'x) mockState"
  let ?env = "mockProviderEnv g clk base"
  assume ok: "mock_ok (fst s)"
  show "StartBiz ?env n k c s = (e, s') \<Longrightarrow> e = None \<and> mock_ok (fst s') \<and>
      (\<exists>d. PodKey d = k \<and> bizMap (fst s') = (bizMap (fst s))(n := (bizMap (fst s) n)(GetBizUniqueKey c \<mapsto> d)))"
  proof -
    assume run: "StartBiz ?env n k c s = (e, s')"
    let ?d = "mockBiz (clk (snd s)) k c"
    obtain m' y where "mockStartBiz (quietly g) (clk (snd s)) n k c s = Returns (None, m', y)" "mock_ok m'"
      "bizMap m' = (bizMap (fst s))(n := (bizMap (fst s) n)(GetBizUniqueKey c \<mapsto> ?d))"
      using mockStartBiz_ok [OF ok, of g "clk (snd s)" n k c "snd s"] by auto
    moreover from this run have "e = None" "s' = (m', y)" by (simp_all add: mockProviderEnv_def answered_def)
    moreover have "PodKey ?d = k" by (simp add: mockBiz_def)
    ultimately show ?thesis by (intro conjI exI [of _ ?d]) simp_all
  qed
  show "StopBiz ?env n k c s = (e, s') \<Longrightarrow> e = None \<and> mock_ok (fst s') \<and>
      bizMap (fst s') = (bizMap (fst s))(n := (bizMap (fst s) n)(GetBizUniqueKey c := None))"
    using mockStopBiz_ok [OF ok, of g "clk (snd s)" n k c "snd s"]
    by (auto simp: mockProviderEnv_def answered_def)
  show "mock_ok (fst (recordEvent (trk ?env) d s)) \<and> bizMap (fst (recordEvent (trk ?env) d s)) = bizMap (fst s)"
    "mock_ok (fst (report (trk ?env) d s)) \<and> bizMap (fst (report (trk ?env) d s)) = bizMap (fst s)"
    "mock_ok (fst (notify ?env p s)) \<and> bizMap (fst (notify ?env p s)) = bizMap (fst s)"
    using ok by (simp_all add: mockProviderEnv_def)
qed

text \<open>C31. A pod lives and dies on the mock tunnel: on a tunnel that was started and has its callback,
  creating a pod returns nil, and then the tunnel runs on the provider's node a biz for every container of
  the pod, under the container's unique key and with the pod's key, and whatever it ran before; deleting
  the pod again returns nil, the provider no longer holds it, and the tunnel runs exactly what it ran before but
  for the keys of the pod's containers. This holds whatever the callbacks do outside the tunnel.\<close>

theorem pods_run_on_the_mock:
  fixes m :: "'c MockTunnel" and g :: "'c \<Rightarrow> tunnelEvent \<Rightarrow> 'x \<Rightarrow> 'x"
  assumes "\<not> locked m" "bizStatusStorage m \<noteq> None" "onSingleBizStatusArrivedCb m \<noteq> None"
  shows "\<exists>b1 m1 y b2 m2 z.
    CreatePod (mockProviderEnv g clk base) pod b (m, x) = Some (None, b1, m1, y) \<and>
    (\<forall>c\<in>set (elems (Containers pod)).
       \<exists>d. bizMap m1 (nodeName b) (GetBizUniqueKey c) = Some d \<and> PodKey d = GetPodKey (Some pod)) \<and>
    (\<forall>n j. n \<noteq> nodeName b \<or> j \<notin> GetBizUniqueKey ` set (elems (Containers pod)) \<longrightarrow> bizMap m1 n j = bizMap m n j) \<and>
    DeletePod (mockProviderEnv g clk base) (Some pod) b1 (m1, y) = Some (None, b2, m2, z) \<and>
    GetPodByKey (vPodStore b2) (GetPodKey (Some pod)) = None \<and>
    (\<forall>n j. bizMap m2 n j =
       (if n = nodeName b \<and> j \<in> GetBizUniqueKey ` set (elems (Containers pod)) then None else bizMap m n j))"
proof -
  have "mock_ok (fst (m, x))" using assms by (simp add: mock_ok_def)
  from mock.create_then_delete [OF this, of g clk base pod b] obtain b1 b2 and w1 w2 :: "('c, 'x) mockState"
    where 1: "CreatePod (mockProviderEnv g clk base) pod b (m, x) = Some (None, b1, w1)"
      "DeletePod (mockProviderEnv g clk base) (Some pod) b1 w1 = Some (None, b2, w2)"
      "GetPodByKey (vPodStore b2) (GetPodKey (Some pod)) = None"
    and 2: "mock.started (nodeName b) (GetPodKey (Some pod)) (elems (Containers pod)) (m, x) w1"
      "mock.stopped (nodeName b) (elems (Containers pod)) (m, x) w2"
    by auto
  obtain m1 y m2 z where w: "w1 = (m1, y)" "w2 = (m2, z)" by (cases w1, cases w2)
  have 3: "\<forall>c\<in>set (elems (Containers pod)).
       \<exists>d. bizMap m1 (nodeName b) (GetBizUniqueKey c) = Some d \<and> PodKey d = GetPodKey (Some pod)"
    "\<forall>n j. n \<noteq> nodeName b \<or> j \<notin> GetBizUniqueKey ` set (elems (Containers pod)) \<longrightarrow> bizMap m1 n j = bizMap m n j"
    "\<forall>n j. bizMap m2 n j =
       (if n = nodeName b \<and> j \<in> GetBizUniqueKey ` set (elems (Containers pod)) then None else bizMap m n j)"
    using 2 unfolding mock.started_def mock.stopped_def w fst_conv by blast+
  show ?thesis by (intro exI conjI) (rule 1 [unfolded w] 3)+
qed

definition demoMock :: "unit MockTunnel" where
  "demoMock = snd (mockStart ''id'' ''test'' (RegisterCallback (Some ()) (Some ()) (Some ()) (Some ()) zeroMock))"

lemma pods_run_on_the_mock_witness:
  "\<exists>b1 m1 d b2 m2. let env = mockProviderEnv (\<lambda>_ _ x. x) (\<lambda>_. GoTime 1) quietEnv in
     CreatePod env samplePod sampleProvider (demoMock, ()) = Some (None, b1, m1, ()) \<and>
     bizMap m1 ''n'' ''biz:'' = Some d \<and> PodKey d = ''default/p'' \<and>
     DeletePod env (Some samplePod) b1 (m1, ()) = Some (None, b2, m2, ()) \<and> bizMap m2 ''n'' ''biz:'' = None"
proof -
  let ?c = "\<lparr>c_Name = ''biz'', c_Image = ''biz.jar'', c_Env = None, c_rest = 0\<rparr> :: Container"
  let ?env = "mockProviderEnv (\<lambda>_ _ x. x) (\<lambda>_. GoTime 1) quietEnv :: (unit, unit) mockState providerEnv"
  have sample: "set (elems (Containers samplePod)) = {?c}"
    "GetPodKey (Some samplePod) = ''default/p''" "nodeName sampleProvider = ''n''" "GetBizUniqueKey ?c = ''biz:''"
    by (simp_all add: samplePod_def sampleProvider_def GetPodKey_def GetBizUniqueKey_def getBizIdentity_def
        getBizVersionFromContainer_def)
  have "\<not> locked demoMock" "bizStatusStorage demoMock \<noteq> None" "onSingleBizStatusArrivedCb demoMock \<noteq> None"
    by (simp_all add: demoMock_def mockStart_def RegisterCallback_def zeroMock_def)
  from pods_run_on_the_mock [OF this, of "\<lambda>_ _ x. x" "\<lambda>_. GoTime 1" quietEnv samplePod sampleProvider "()"]
  obtain b1 m1 b2 m2 where run: "CreatePod ?env samplePod sampleProvider (demoMock, ()) = Some (None, b1, m1, ())"
      "DeletePod ?env (Some samplePod) b1 (m1, ()) = Some (None, b2, m2, ())"
    and on: "\<forall>c\<in>{?c}. \<exists>d. bizMap m1 ''n'' (GetBizUniqueKey c) = Some d \<and> PodKey d = ''default/p''"
    and off: "\<forall>n j. bizMap m2 n j = (if n = ''n'' \<and> j \<in> GetBizUniqueKey ` {?c} then None else bizMap demoMock n j)"
    unfolding sample by (elim exE conjE) simp
  from on obtain d where "bizMap m1 ''n'' ''biz:'' = Some d" "PodKey d = ''default/p''" by (auto simp: sample)
  moreover have "bizMap m2 ''n'' ''biz:'' = None" using off by (simp add: sample)
  ultimately show ?thesis
    using run by (intro exI [of _ b1] exI [of _ m1] exI [of _ d] exI [of _ b2] exI [of _ m2]) simp
qed

section \<open>Calling back\<close>

text \<open>A locked tunnel blocks its caller.\<close>

lemma withLock_locked: "locked (fst s) \<Longrightarrow> withLock f s = Diverges"
  by (cases s) (simp add: withLock_def)

text \<open>The callbacks of the mock tunnel must not call it back: it holds its mutex while it calls them. When the
  callback for a report answers by stopping a biz, as the controller does for a biz that no pod lists, the
  update of that biz never returns.\<close>

theorem mock_callback_must_not_stop:
  assumes "\<not> locked m" "bizStatusStorage m = Some f" "onSingleBizStatusArrivedCb m = Some cb"
    "\<And>s. call cb (OnSingleBizStatusArrived n data) s =
       (case mockStopBiz call' now n [] c s of Returns (_, s) \<Rightarrow> Returns s | Panics \<Rightarrow> Panics | Diverges \<Rightarrow> Diverges)"
  shows "UpdateBizStatus call n k data (m, x) = Diverges"
proof -
  have "mockStopBiz call' now n [] c s = Diverges" if "locked (fst s)" for s
    using that by (simp add: mockStopBiz_def withLock_locked nilError_def)
  then show ?thesis
    using assms by (simp add: UpdateBizStatus_def withLock_def storeAndReport_def mapPut_def invoke_def)
qed

text \<open>The same stop returns when the mutex is free.\<close>

lemma mock_callback_must_not_stop_witness:
  "let stop = mockStopBiz (quietly (\<lambda>_ _ x. x)) (GoTime 1) ''n'' [] (\<lparr>c_Name = ''biz'', c_Image = ''biz.jar'', c_Env = None, c_rest = 0\<rparr>);
       call = (\<lambda>_ _ s. case stop s of Returns (_, s) \<Rightarrow> Returns s | Panics \<Rightarrow> Panics | Diverges \<Rightarrow> Diverges)
   in stop (demoMock, ()) = Returns (None, demoMock, ()) \<and>
      UpdateBizStatus call ''n'' ''biz:'' (mockBiz (GoTime 1) [] \<lparr>c_Name = ''biz'', c_Image = ''biz.jar'', c_Env = None, c_rest = 0\<rparr>)
        (demoMock, ()) = Diverges"
proof -
  have m: "\<not> locked demoMock" "bizStatusStorage demoMock = Some Map.empty" "onSingleBizStatusArrivedCb demoMock = Some ()"
    by (simp_all add: demoMock_def mockStart_def RegisterCallback_def zeroMock_def)
  have "bizMap demoMock n = Map.empty" for n using m(2) by (simp add: bizMap_def)
  then have "mockStopBiz (quietly (\<lambda>_ _ x. x)) (GoTime 1) ''n'' [] c (demoMock, ()) = Returns (None, demoMock, ())" for c
    using m(1) by (cases demoMock) (simp add: mockStopBiz_def withLock_def nilError_def Let_def)
  then show ?thesis
    unfolding Let_def by (intro conjI, assumption) (rule mock_callback_must_not_stop [OF m], rule refl)
qed

end
