(* ===== verification/PodController_Spec.thy ===== *)
theory PodController_Spec
  imports PodController
begin

text \<open>
  What the pod controller promises of its three queues: the keys of the deletion queue and the
  safety of its handler, the known pods as a store, and the path of a status from the provider
  to the status queue.
\<close>

section \<open>A quiet environment\<close>

text \<open>
  An environment whose provider and API server succeed at once and whose cache and API server
  hold one pod, for concrete runs. A period of the poll makes that pod known.
\<close>

definition quietLimiter :: "unit rateLimiter" where
  "quietLimiter = \<lparr>When = (\<lambda>_ s. (0, s)), rlForget = (\<lambda>_ s. s)\<rparr>"

definition quietPcEnv :: "Pod \<Rightarrow> (unit, 'w) pcEnv" where
  "quietPcEnv pod =
     \<lparr>provCreate = (\<lambda>_ pc. Some (None, pc)), provUpdate = (\<lambda>_ pc. Some (None, pc)),
      provDelete = (\<lambda>_ pc. Some (None, pc)), provGetPod = (\<lambda>_ _ pc. ((None, None), pc)),
      provGetPods = (\<lambda>pc. (Inr [], pc)), apiGet = (\<lambda>_ _ pc. (Inr pod, pc)),
      cacheGet = (\<lambda>_ _ pc. (Inr pod, pc)), apiDelete = (\<lambda>_ _ _ pc. (None, pc)),
      apiStatusUpdate = (\<lambda>_ pc. (None, pc)), apiStatusPatch = (\<lambda>_ _ pc. (None, pc)),
      recorderEvent = (\<lambda>_ _ _ pc. pc), metaKeyFunc = (\<lambda>p. Inr (GetPodKey (Some p))),
      splitMetaKey = (\<lambda>k. Inr (''default'', ''p'')), errorText = (\<lambda>_. ''''),
      rlSync = quietLimiter, rlDelete = quietLimiter, rlStatus = quietLimiter,
      pcNow = (\<lambda>_. GoTime 1), elapse = AddKnownPod pod\<rparr>"

definition freshPc :: "'w \<Rightarrow> (unit, 'w) pcState" where
  "freshPc w = \<lparr>knownPods = Map.empty,
     kpHeap = (\<lambda>_. \<lparr>lastPodStatusReceivedFromProvider = zeroPod, lastPodUsed = None,
       lastPodStatusUpdateSkipped = False\<rparr>),
     kpFresh = 0, syncPodsFromKubernetes = New (), deletePodsFromKubernetes = New (),
     syncPodStatusFromProvider = New (), world = w\<rparr>"

lemma AddKnownPod_known:
  "knownPods (AddKnownPod pod pc) = (knownPods pc)(GetPodKey (Some pod) \<mapsto> kpFresh pc)"
  "syncPodStatusFromProvider (AddKnownPod pod pc) = syncPodStatusFromProvider pc"
  by (simp_all add: AddKnownPod_def)

section \<open>Keys of the deletion queue\<close>

text \<open>The deletion queue's keys round-trip: a pod key and a UID come back from the joined key
  exactly when the UID holds no slash; a key without any slash makes the handler panic.\<close>

theorem deletion_key_roundtrip:
  "(getUIDAndMetaNamespaceKey (deletionKey k pod) = Ok (UID pod, k) \<longleftrightarrow> CHR ''/'' \<notin> set (UID pod)) \<and>
   (getUIDAndMetaNamespaceKey s = Panic \<longleftrightarrow> CHR ''/'' \<notin> set s)"
proof
  show "getUIDAndMetaNamespaceKey s = Panic \<longleftrightarrow> CHR ''/'' \<notin> set s"
    by (simp add: getUIDAndMetaNamespaceKey_def Let_def LastIndex_neg_iff)
  show "getUIDAndMetaNamespaceKey (deletionKey k pod) = Ok (UID pod, k) \<longleftrightarrow> CHR ''/'' \<notin> set (UID pod)"
  proof (cases "CHR ''/'' \<in> set (UID pod)")
    case False
    then show ?thesis
      by (simp add: getUIDAndMetaNamespaceKey_def deletionKey_def Let_def nat_add_distrib)
  next
    case True
    then obtain u v where uv: "UID pod = u @ CHR ''/'' # v" "CHR ''/'' \<notin> set v"
      by (meson split_list_last)
    have "deletionKey k pod = (k @ CHR ''/'' # u) @ CHR ''/'' # v"
      by (simp add: deletionKey_def uv)
    then have "LastIndex (deletionKey k pod) (CHR ''/'') = int (length (k @ CHR ''/'' # u))"
      using LastIndex_last [OF uv(2), of "k @ CHR ''/'' # u"] by simp
    then have "getUIDAndMetaNamespaceKey (deletionKey k pod) \<noteq> Ok (UID pod, k)"
      by (auto simp: getUIDAndMetaNamespaceKey_def Let_def deletionKey_def dest!: arg_cong [of _ k length])
    with True show ?thesis by simp
  qed
qed

section \<open>Deleting from the cluster\<close>

text \<open>C24. The deletion handler is safe against recreated pods: when it finds a pod whose UID is not
  the one in its key it makes no further call, otherwise its one deletion carries that UID as a
  precondition and no grace period; a pod that is gone or was replaced meanwhile is a success,
  and any other error is returned, so that the queue retries.\<close>

theorem deletion_handler_safe:
  assumes "CHR ''/'' \<notin> set (UID pod)" "splitMetaKey env k = Inr (ns, n)"
    "apiGet env ns n pc = (Inr found, pc1)"
  shows "deletePodsFromKubernetesHandler env (deletionKey k pod) pc =
    (if UID found \<noteq> UID pod then Returns (None, pc1)
     else case apiDelete env found (Some 0) (Some (UID pod)) pc1 of (err, pc2) \<Rightarrow>
       Returns (if err = None \<or> IsNotFound (the err) \<or> IsConflict (the err) then None else err, pc2))"
proof -
  have "getUIDAndMetaNamespaceKey (deletionKey k pod) = Ok (UID pod, k)"
    using assms(1)
    by (simp add: getUIDAndMetaNamespaceKey_def deletionKey_def Let_def nat_add_distrib)
  then show ?thesis
    by (auto simp: deletePodsFromKubernetesHandler_def assms split: option.splits prod.splits)
qed

lemma deletion_handler_safe_witness:
  "deletePodsFromKubernetesHandler (quietPcEnv (zeroPod\<lparr>UID := ''new''\<rparr>))
     (deletionKey ''default/p'' (zeroPod\<lparr>UID := ''old''\<rparr>)) (freshPc ()) = Returns (None, freshPc ())"
proof -
  let ?env = "quietPcEnv (zeroPod\<lparr>UID := ''new''\<rparr>)"
  have h: "CHR ''/'' \<notin> set (UID (zeroPod\<lparr>UID := ''old''\<rparr>))"
    "splitMetaKey ?env ''default/p'' = Inr (''default'', ''p'')"
    "apiGet ?env ''default'' ''p'' (freshPc ()) = (Inr (zeroPod\<lparr>UID := ''new''\<rparr>), freshPc ())"
    by (simp_all add: quietPcEnv_def)
  show ?thesis
    using deletion_handler_safe [OF h] by (simp add: zeroPod_def)
qed

section \<open>Known pods\<close>

text \<open>The map of known pods as the handlers see it is a store of pods by their key.\<close>

definition knownPodOf :: "('r, 'w) pcState \<Rightarrow> string \<Rightarrow> Pod option" where
  "knownPodOf pc k = map_option lastPodStatusReceivedFromProvider (GetKnownPod pc k)"

text \<open>No entry of the map points at an address that is not in use.\<close>

definition known_ok :: "('r, 'w) pcState \<Rightarrow> bool" where
  "known_ok pc \<longleftrightarrow> (\<forall>k a. knownPods pc k = Some a \<longrightarrow> a < kpFresh pc) \<and>
     (\<forall>j k a. knownPods pc j = Some a \<longrightarrow> knownPods pc k = Some a \<longrightarrow> j = k)"

lemma known_ok_add: "known_ok pc \<Longrightarrow> known_ok (AddKnownPod pod pc)"
  unfolding known_ok_def AddKnownPod_def by (auto simp: less_Suc_eq)

lemma known_ok_delete: "known_ok pc \<Longrightarrow> known_ok (DeleteKnownPod k pc)"
  unfolding known_ok_def DeleteKnownPod_def by auto

lemma known_ok_set: "known_ok (setKnown a f pc) = known_ok pc"
  by (simp add: known_ok_def setKnown_def)

lemma GetKnownPod_add:
  assumes "known_ok pc"
  shows "GetKnownPod (AddKnownPod pod pc) k =
    (if k = GetPodKey (Some pod)
     then Some \<lparr>lastPodStatusReceivedFromProvider = pod, lastPodUsed = None, lastPodStatusUpdateSkipped = False\<rparr>
     else GetKnownPod pc k)"
proof -
  have "a \<noteq> kpFresh pc" if "knownPods pc k = Some a" for a
    using assms that unfolding known_ok_def by blast
  then show ?thesis by (cases "knownPods pc k") (auto simp: GetKnownPod_def AddKnownPod_def)
qed

section \<open>Status updates\<close>

text \<open>C29. A status that the provider reports for a known pod is never lost: it becomes the pod's last
  received one, and unless it is equal to the last one its key is then owed by the status queue,
  where its handler will run.\<close>

theorem status_update_owed:
  assumes "queue_inv (syncPodStatusFromProvider pc)" "\<And>pc'. \<not> IsZero (pcNow env pc')"
    "metaKeyFunc env pod = Inr k" "knownPods pc k = Some a"
  shows "let pc' = enqueuePodStatusUpdate env (Suc polls) pod pc
    in knownPodOf pc' k = Some pod \<and>
       (knownPodOf pc k = Some pod \<or> k \<in> owed (syncPodStatusFromProvider pc'))"
proof -
  have "k \<in> owed (Enqueue (rlStatus env) (pcNow env pc') k (syncPodStatusFromProvider pc))" for pc'
    using rated.enq_due [OF assms(1), of "pcNow env pc'" "rlStatus env" k] assms(2) by simp
  then show ?thesis
    using assms(3,4)
    by (auto simp: enqueuePodStatusUpdate_def enqueueStatus_def setKnown_def knownPodOf_def
        GetKnownPod_def Let_def)
qed

lemma status_update_owed_witness:
  "''/'' \<in> owed (syncPodStatusFromProvider (enqueuePodStatusUpdate (quietPcEnv zeroPod) 1
     (zeroPod\<lparr>Labels := Some Map.empty\<rparr>) (AddKnownPod zeroPod (freshPc ()))))"
proof -
  let ?pc = "AddKnownPod zeroPod (freshPc ())" and ?env = "quietPcEnv zeroPod"
  let ?pod = "zeroPod\<lparr>Labels := Some Map.empty\<rparr>"
  have h: "queue_inv (syncPodStatusFromProvider ?pc)"
    by (simp add: AddKnownPod_known freshPc_def queue_inv_New)
  have now: "\<not> IsZero (pcNow ?env pc')" for pc'
    by (simp add: quietPcEnv_def IsZero_def zeroTime_def)
  have keys: "metaKeyFunc ?env ?pod = Inr ''/''" "knownPods ?pc ''/'' = Some 0"
    by (simp_all add: quietPcEnv_def GetPodKey_def zeroPod_def AddKnownPod_known freshPc_def)
  have "knownPodOf ?pc ''/'' \<noteq> Some ?pod"
    by (simp add: knownPodOf_def GetKnownPod_def AddKnownPod_def freshPc_def GetPodKey_def zeroPod_def)
  then show ?thesis
    using status_update_owed [OF h now keys, where polls = 0] by (simp add: Let_def)
qed

text \<open>A status reported for a pod the controller does not know yet is replaced by what the cache
  holds of that pod: when the pod becomes known within the poll, the pod recorded and compared is
  the cached one, and the reported status is gone.\<close>

theorem status_of_unknown_pod_replaced:
  assumes "metaKeyFunc env pod = Inr k" "knownPods pc k = None"
    "cacheGet env (Namespace pod) (Name pod) pc = (Inr cached, pc1)"
    "knownPods (elapse env pc1) k = Some a"
  shows "pollKnown env (Suc (Suc polls)) k pod pc = (Inr (a, cached), elapse env pc1) \<and>
    knownPodOf (enqueuePodStatusUpdate env (Suc (Suc polls)) pod pc) k = Some cached"
  using assms
  by (simp add: enqueuePodStatusUpdate_def enqueueStatus_def setKnown_def knownPodOf_def
      GetKnownPod_def)

lemma status_of_unknown_pod_replaced_witness:
  "knownPodOf (enqueuePodStatusUpdate (quietPcEnv zeroPod) 2 (zeroPod\<lparr>Labels := Some Map.empty\<rparr>)
     (freshPc ())) ''/'' = Some zeroPod"
proof -
  let ?env = "quietPcEnv zeroPod" and ?pod = "zeroPod\<lparr>Labels := Some Map.empty\<rparr>"
  have h: "metaKeyFunc ?env ?pod = Inr ''/''" "knownPods (freshPc ()) ''/'' = None"
    "cacheGet ?env (Namespace ?pod) (Name ?pod) (freshPc ()) = (Inr zeroPod, freshPc ())"
    "knownPods (elapse ?env (freshPc ())) ''/'' = Some 0"
    by (simp_all add: quietPcEnv_def GetPodKey_def zeroPod_def AddKnownPod_known freshPc_def)
  show ?thesis
    using status_of_unknown_pod_replaced [OF h, where polls = 0]
    by (simp add: numeral_2_eq_2)
qed

text \<open>The comparison that spares a sync does not ignore the status: two pods that differ in their
  status only are not effectively equal, while a new resource version alone is ignored.\<close>

theorem podsEffectivelyEqual_status:
  "podsEffectivelyEqual p (p\<lparr>ResourceVersion := v\<rparr>) \<and>
   (podsEffectivelyEqual p (p\<lparr>Status := s\<rparr>) \<longleftrightarrow> Status p = s)"
proof -
  have "p\<lparr>ResourceVersion := r\<rparr> = p\<lparr>Status := s, ResourceVersion := r\<rparr> \<longleftrightarrow> Status p = s" for r
    by (cases p) auto
  then show ?thesis by (simp add: podsEffectivelyEqual_def)
qed

section \<open>Syncing again\<close>

lemma podsEffectivelyEqual_trans:
  "podsEffectivelyEqual p q \<Longrightarrow> podsEffectivelyEqual q r \<Longrightarrow> podsEffectivelyEqual p r"
  by (simp add: podsEffectivelyEqual_def)

text \<open>C34. A sync of a pod that is not marked for deletion, once it has succeeded, is not repeated: while
  the pod stays known under the same key, a second sync of it, or of a copy that differs in the resource version only, returns nil at
  once, without a call to the provider and without any change.\<close>

theorem sync_is_idempotent:
  assumes "syncPodInProvider env p k pc = Returns (None, pc')" "DeletionTimestamp p = None"
    "knownPods pc k = Some a" "knownPods pc' k = Some a" "podsEffectivelyEqual p p'"
  shows "syncPodInProvider env p' k pc' = Returns (None, pc')"
proof -
  have live: "DeletionTimestamp p' = None"
    using assms(2,5) by (cases p; cases p') (simp add: podsEffectivelyEqual_def)
  obtain u where u: "lastPodUsed (kpHeap pc' a) = Some u" "podsEffectivelyEqual u p"
  proof (cases "\<exists>u. lastPodUsed (kpHeap pc a) = Some u \<and> podsEffectivelyEqual u p")
    case True
    then obtain u where "lastPodUsed (kpHeap pc a) = Some u" "podsEffectivelyEqual u p" by blast
    moreover from this have "pc' = pc" using assms(1-3) by (simp add: syncPodInProvider_def)
    ultimately show ?thesis using that by simp
  next
    case False
    then obtain pc1 where "pc' = setKnown a (\<lambda>kp. kp\<lparr>lastPodUsed := Some p\<rparr>) pc1"
      using assms(1-3) by (auto simp: syncPodInProvider_def split: run.splits option.splits if_splits)
    then show ?thesis using that [of p] by (simp add: setKnown_def podsEffectivelyEqual_def)
  qed
  with assms(4,5) live podsEffectivelyEqual_trans show ?thesis
    by (auto simp: syncPodInProvider_def)
qed

lemma sync_is_idempotent_witness:
  "\<exists>pc'. syncPodInProvider (quietPcEnv zeroPod) zeroPod ''/'' (AddKnownPod zeroPod (freshPc ())) = Returns (None, pc') \<and>
     syncPodInProvider (quietPcEnv zeroPod) (zeroPod\<lparr>ResourceVersion := ''2''\<rparr>) ''/'' pc' = Returns (None, pc')"
proof -
  let ?pc = "AddKnownPod zeroPod (freshPc ())" and ?env = "quietPcEnv zeroPod"
  let ?pc' = "setKnown 0 (\<lambda>k. k\<lparr>lastPodUsed := Some zeroPod\<rparr>) ?pc"
  have known: "knownPods ?pc ''/'' = Some 0" "knownPods ?pc' ''/'' = Some 0"
    "lastPodUsed (kpHeap ?pc 0) = None"
    by (simp_all add: AddKnownPod_def freshPc_def GetPodKey_def zeroPod_def setKnown_def)
  have pod: "DeletionTimestamp zeroPod = None" "Phase (Status zeroPod) = ''''"
    "podsEffectivelyEqual zeroPod (zeroPod\<lparr>ResourceVersion := ''2''\<rparr>)"
    by (simp_all add: zeroPod_def zeroPodStatus_def podsEffectivelyEqual_def)
  have run: "syncPodInProvider ?env zeroPod ''/'' ?pc = Returns (None, ?pc')"
    by (simp add: syncPodInProvider_def syncBody_def known pod phase_defs createOrUpdatePod_def quietPcEnv_def)
  from sync_is_idempotent [OF run pod(1) known(1,2) pod(3)] run show ?thesis by blast
qed

section \<open>Dangling pods\<close>

text \<open>The pods of a list that a cache misses.\<close>

definition missing :: "(string \<Rightarrow> string \<Rightarrow> goerror + Pod) \<Rightarrow> Pod \<Rightarrow> bool" where
  "missing cached p \<longleftrightarrow> (case cached (Namespace p) (Name p) of Inl e \<Rightarrow> IsNotFound e | Inr q \<Rightarrow> False)"

definition unanswered :: "(string \<Rightarrow> string \<Rightarrow> goerror + Pod) \<Rightarrow> Pod \<Rightarrow> bool" where
  "unanswered cached p \<longleftrightarrow> (case cached (Namespace p) (Name p) of Inl e \<Rightarrow> \<not> IsNotFound e | Inr q \<Rightarrow> False)"

lemma collectDangling_result:
  assumes "\<And>ns n pc. cacheGet env ns n pc = (cached ns n, pc)"
  shows "collectDangling env pps ptd pc =
    (if list_ex (unanswered cached) pps then None else Some (ptd @ filter (missing cached) pps), pc)"
  by (induction pps arbitrary: ptd)
    (auto simp: assms missing_def unanswered_def split: sum.splits)

text \<open>C35. The cleanup at the start of the controller deletes from the provider exactly the pods that
  the cluster does not have, each once and in the order the goroutines take; when the cluster's
  answer for any pod is neither a pod nor a not-found error, it deletes nothing.\<close>

theorem dangling_pods_deleted:
  assumes "\<And>ns n pc. cacheGet env ns n pc = (cached ns n, pc)"
    "provGetPods env pc = (Inr pps, pc1)"
    "\<And>p pc. provDelete env p pc = Some (err p pc, logDelete p pc)"
  shows "deleteDanglingPods env arrange pc =
    Some (if list_ex (unanswered cached) pps then pc1
          else fold logDelete (arrange (filter (missing cached) pps)) pc1)"
proof -
  have "foldOpt (\<lambda>pod pc. map_option snd (provDelete env pod pc)) ps pc = Some (fold logDelete ps pc)"
    for ps pc
    by (rule foldOpt_total) (simp add: assms(3))
  then show ?thesis
    by (simp add: deleteDanglingPods_def assms(2) collectDangling_result [OF assms(1)])
qed

lemma dangling_pods_deleted_witness:
  "deleteDanglingPods ((quietPcEnv zeroPod)
       \<lparr>cacheGet := (\<lambda>_ _ pc. (Inl (ErrAPI NotFound), pc)), provGetPods := (\<lambda>pc. (Inr [zeroPod], pc)),
        provDelete := (\<lambda>p pc. Some (None, DeleteKnownPod (GetPodKey (Some p)) pc))\<rparr>) rev
     (AddKnownPod zeroPod (freshPc ())) = Some (DeleteKnownPod ''/'' (AddKnownPod zeroPod (freshPc ())))"
  (is "deleteDanglingPods ?env rev ?pc = _")
proof -
  have h: "cacheGet ?env ns n pc = ((\<lambda>_ _. Inl (ErrAPI NotFound)) ns n, pc)"
    "provGetPods ?env ?pc = (Inr [zeroPod], ?pc)"
    "provDelete ?env p pc = Some ((\<lambda>_ _. None) p pc, DeleteKnownPod (GetPodKey (Some p)) pc)" for ns n p pc
    by simp_all
  have key: "GetPodKey (Some zeroPod) = ''/''" by (simp add: GetPodKey_def zeroPod_def)
  show ?thesis
    using dangling_pods_deleted [OF h, where arrange = rev]
    by (simp add: unanswered_def missing_def key)
qed

end
