(* ===== verification/Kubelet.thy ===== *)
theory Kubelet
  imports PodController_Spec PodProvider_Spec
begin

text \<open>
  The pod controller on top of the pod provider, as \<open>NewVNode\<close> wires them: the provider is
  the controller's lifecycle handler, and the controller's \<open>enqueuePodStatusUpdate\<close> is the
  provider's callback. What the controller needs of a provider is the locale
  \<open>pod_lifecycle\<close>; the model of VPodProvider satisfies it, and the convergence of the sync
  handlers follows.
\<close>

section \<open>What the controller needs of its provider\<close>

locale pod_lifecycle =
  fixes env :: "('r, 'w) pcEnv"
    and stored :: "('r, 'w) pcState \<Rightarrow> string \<Rightarrow> Pod option"
    and ends :: bool
  assumes get_pod: "provGetPod env ns n pc = ((stored pc (ns @ ''/'' @ n), None), pc)"
    and create_pod: "provCreate env p pc = Some (e, pc') \<Longrightarrow>
          e = None \<and> stored pc' = (stored pc)(GetPodKey (Some p) \<mapsto> p)"
    and update_pod: "provUpdate env p pc = Some (e, pc') \<Longrightarrow> DeletionTimestamp p = None \<Longrightarrow>
          stored pc (GetPodKey (Some p)) \<noteq> None \<Longrightarrow>
          e = None \<and> stored pc' = (stored pc)(GetPodKey (Some p) \<mapsto> p)"
    and delete_pod: "provDelete env p pc = Some (e, pc') \<Longrightarrow>
          e = None \<and> stored pc' = (stored pc)(GetPodKey (Some p) := None)"
    and answers: "ends \<Longrightarrow>
          provCreate env p pc \<noteq> None \<and> provUpdate env p pc \<noteq> None \<and> provDelete env p pc \<noteq> None"
    and stored_world: "world pc = world pc' \<Longrightarrow> stored pc = stored pc'"
    and event_frame: "stored (recorderEvent env p ty r pc) = stored pc"
    and cache_frame: "stored (snd (cacheGet env ns n pc)) = stored pc"
    and event_queue: "deletePodsFromKubernetes (recorderEvent env p ty r pc) = deletePodsFromKubernetes pc"
    and delete_queue: "provDelete env p pc = Some (e, pc') \<Longrightarrow>
          deletePodsFromKubernetes pc' = deletePodsFromKubernetes pc"
begin

lemma createOrUpdate_converges:
  assumes ends and live: "DeletionTimestamp p = None"
  shows "\<exists>pc'. createOrUpdatePod env p pc = Returns (None, pc') \<and>
    (\<exists>q. stored pc' (GetPodKey (Some p)) = Some q \<and> PodsEqual q p) \<and>
    (\<forall>k. k \<noteq> GetPodKey (Some p) \<longrightarrow> stored pc' k = stored pc k)"
proof (cases "stored pc (GetPodKey (Some p))")
  case None
  then have get: "provGetPod env (Namespace p) (Name p) pc = ((None, None), pc)"
    by (simp add: get_pod GetPodKey_def)
  obtain e pc1 where c: "provCreate env p pc = Some (e, pc1)"
    using answers [OF assms(1)] by fastforce
  with create_pod [OF c] show ?thesis
    by (simp add: createOrUpdatePod_def get event_frame PodsEqual_def)
next
  case (Some q)
  then have get: "provGetPod env (Namespace p) (Name p) pc = ((Some q, None), pc)"
    by (simp add: get_pod GetPodKey_def)
  obtain e pc1 where c: "provUpdate env p pc = Some (e, pc1)"
    using answers [OF assms(1)] by fastforce
  with update_pod [OF c live] Some show ?thesis
    by (simp add: createOrUpdatePod_def get event_frame PodsEqual_def)
qed

lemma sync_live_pod:
  assumes ends
    and live: "DeletionTimestamp p = None" "Phase (Status p) \<noteq> PodFailed" "Phase (Status p) \<noteq> PodSucceeded"
    and known: "knownPods pc k = Some a"
      "\<And>u. lastPodUsed (kpHeap pc a) = Some u \<Longrightarrow> \<not> podsEffectivelyEqual u p"
  shows "\<exists>pc'. syncPodInProvider env p k pc = Returns (None, pc') \<and>
    (\<exists>q. stored pc' (GetPodKey (Some p)) = Some q \<and> PodsEqual q p) \<and>
    (\<forall>j. j \<noteq> GetPodKey (Some p) \<longrightarrow> stored pc' j = stored pc j)"
proof -
  obtain pc1 where pc1: "createOrUpdatePod env p pc = Returns (None, pc1)"
    "\<exists>q. stored pc1 (GetPodKey (Some p)) = Some q \<and> PodsEqual q p"
    "\<forall>k. k \<noteq> GetPodKey (Some p) \<longrightarrow> stored pc1 k = stored pc k"
    using createOrUpdate_converges [OF assms(1) live(1)] by blast
  let ?pc' = "setKnown a (\<lambda>kp. kp\<lparr>lastPodUsed := Some p\<rparr>) pc1"
  have "syncPodInProvider env p k pc = Returns (None, ?pc')"
    using live known pc1(1)
    by (auto simp: syncPodInProvider_def syncBody_def split: option.split)
  moreover have "stored ?pc' = stored pc1" by (intro stored_world) (simp add: setKnown_def)
  ultimately show ?thesis using pc1(2,3) by simp
qed

lemma handler_live_pod:
  assumes ends and k: "SplitMetaNamespaceKey k = Ok (ns, n)"
    and cached: "cacheGet env ns n pc = (Inr p, pc1)"
    and live: "DeletionTimestamp p = None" "Phase (Status p) \<noteq> PodFailed" "Phase (Status p) \<noteq> PodSucceeded"
    and known: "knownPods pc1 k = Some a"
      "\<And>u. lastPodUsed (kpHeap pc1 a) = Some u \<Longrightarrow> \<not> podsEffectivelyEqual u p"
  shows "\<exists>pc'. syncPodsFromKubernetesHandler env k pc = Returns (None, pc') \<and>
    (\<exists>q. stored pc' (GetPodKey (Some p)) = Some q \<and> PodsEqual q p) \<and>
    (\<forall>j. j \<noteq> GetPodKey (Some p) \<longrightarrow> stored pc' j = stored pc j)"
proof -
  have "stored pc1 = stored pc" using cache_frame [of ns n pc] by (simp add: cached)
  with sync_live_pod [OF assms(1) live known] show ?thesis
    by (simp add: syncPodsFromKubernetesHandler_def k cached)
qed

lemma handler_missing_pod:
  assumes ends and k: "SplitMetaNamespaceKey k = Ok (ns, n)"
    and gone: "cacheGet env ns n pc = (Inl e, pc1)" "IsNotFound e"
    and filed: "\<And>q. stored pc (ns @ ''/'' @ n) = Some q \<Longrightarrow> GetPodKey (Some q) = ns @ ''/'' @ n"
  shows "\<exists>pc'. syncPodsFromKubernetesHandler env k pc = Returns (None, pc') \<and>
    stored pc' = (stored pc)(ns @ ''/'' @ n := None)"
proof -
  have frame: "stored pc1 = stored pc" using cache_frame [of ns n pc] by (simp add: gone)
  have handler: "syncPodsFromKubernetesHandler env k pc = deleteMissingPod env k ns n pc1"
    by (simp add: syncPodsFromKubernetesHandler_def k gone)
  show ?thesis
  proof (cases "stored pc1 (ns @ ''/'' @ n)")
    case None
    have get: "provGetPod env ns n pc1 = ((None, None), pc1)" unfolding get_pod None ..
    show ?thesis
      unfolding handler deleteMissingPod_def get using None frame
      by (simp add: fun_upd_idem del: append_Cons append_Nil)
  next
    case (Some q)
    have get: "provGetPod env ns n pc1 = ((Some q, None), pc1)" unfolding get_pod Some ..
    obtain e' pc2 where d: "provDelete env q pc1 = Some (e', pc2)"
      using answers [OF assms(1)] by fastforce
    have "stored (DeleteKnownPod k pc2) = stored pc2"
      by (rule stored_world) (simp add: DeleteKnownPod_def)
    with delete_pod [OF d] filed [of q] Some frame d show ?thesis
      unfolding handler deleteMissingPod_def get by simp
  qed
qed

text \<open>A pod marked for deletion that still runs leaves the provider, and its deletion from the
  cluster is owed.\<close>

lemma sync_deleted_pod:
  assumes ends
    and going: "DeletionTimestamp p \<noteq> None" "running (Status p)" "DeletionGracePeriodSeconds p = Some g"
    and known: "knownPods pc k = Some a"
      "\<And>u. lastPodUsed (kpHeap pc a) = Some u \<Longrightarrow> \<not> podsEffectivelyEqual u p"
    and owes: "queue_inv (deletePodsFromKubernetes pc)"
      "\<And>pc'. \<not> IsZero (Add (pcNow env pc') (wrap64 (second * g)))"
  shows "\<exists>pc'. syncPodInProvider env p k pc = Returns (None, pc') \<and>
    stored pc' = (stored pc)(GetPodKey (Some p) := None) \<and>
    owed (deletePodsFromKubernetes pc') =
      Set.insert (deletionKey k p) (owed (deletePodsFromKubernetes pc))"
proof -
  obtain e pc1 where d: "provDelete env p pc = Some (e, pc1)"
    using answers [OF assms(1)] by fastforce
  then have e: "e = None" "stored pc1 = (stored pc)(GetPodKey (Some p) := None)"
    using delete_pod by blast+
  let ?pc1 = "recorderEvent env p EventTypeNormal podEventDeleteSuccess pc1"
  let ?pc2 = "enqueueDeleteAfter env (deletionKey k p) (wrap64 (second * g)) ?pc1"
  let ?pc' = "setKnown a (\<lambda>kp. kp\<lparr>lastPodUsed := Some p\<rparr>) ?pc2"
  have run: "syncPodInProvider env p k pc = Returns (None, ?pc')"
    using going known d e(1)
    by (auto simp: syncPodInProvider_def syncBody_def deletePod_def split: option.split)
  have "stored ?pc' = stored ?pc1"
    by (rule stored_world) (simp add: setKnown_def enqueueDeleteAfter_def)
  moreover have "deletePodsFromKubernetes ?pc1 = deletePodsFromKubernetes pc"
    using delete_queue [OF d] by (simp add: event_queue)
  then have "owed (deletePodsFromKubernetes ?pc') =
      Set.insert (deletionKey k p) (owed (deletePodsFromKubernetes pc))"
    using delayed.enq_due [OF owes(1) owes(2) [of ?pc1], of "rlDelete env" "deletionKey k p"]
    by (simp add: setKnown_def enqueueDeleteAfter_def)
  ultimately show ?thesis using run e(2) by (simp add: event_frame)
qed

end

section \<open>The wiring\<close>

text \<open>
  The world of the controller is the provider and the outside: tunnel, API server, cache,
  event sink, clock and the other goroutines, which answer as functions of their own state.
  While the controller polls for a known pod, the watch handlers may add known pods.
\<close>

record 'x vworld =
  vprovider :: VPodProvider
  outer :: 'x

record ('r, 'x) outside =
  oStart :: "string \<Rightarrow> string \<Rightarrow> Container \<Rightarrow> 'x \<Rightarrow> goerror option \<times> 'x"
  oStop :: "string \<Rightarrow> string \<Rightarrow> Container \<Rightarrow> 'x \<Rightarrow> goerror option \<times> 'x"
  oCacheGet :: "string \<Rightarrow> string \<Rightarrow> 'x \<Rightarrow> (goerror + Pod) \<times> 'x"
  oApiGet :: "string \<Rightarrow> string \<Rightarrow> 'x \<Rightarrow> (goerror + Pod) \<times> 'x"
  oDelete :: "Pod \<Rightarrow> int option \<Rightarrow> string option \<Rightarrow> 'x \<Rightarrow> goerror option \<times> 'x"
  oStatusUpdate :: "Pod \<Rightarrow> 'x \<Rightarrow> goerror option \<times> 'x"
  oStatusPatch :: "Pod \<Rightarrow> Pod \<Rightarrow> 'x \<Rightarrow> goerror option \<times> 'x"
  oEvent :: "Pod \<Rightarrow> string \<Rightarrow> string \<Rightarrow> 'x \<Rightarrow> 'x"
  oNow :: "'x \<Rightarrow> gotime"
  oElapse :: "'x \<Rightarrow> Pod list \<times> 'x"
  oTrackerConfig :: defaultTrackerConfig
  oRecord :: "logData \<Rightarrow> 'x \<Rightarrow> 'x"
  oReport :: "logData \<Rightarrow> 'x \<Rightarrow> 'x"
  oCtxWait :: "nat \<Rightarrow> 64 word \<Rightarrow> goerror option"
  oTimedOut :: "nat \<Rightarrow> bool"
  oMetaKey :: "Pod \<Rightarrow> goerror + string"
  oSplitKey :: "string \<Rightarrow> goerror + (string \<times> string)"
  oErrorText :: "goerror \<Rightarrow> string"
  oLimiters :: "'r rateLimiter \<times> 'r rateLimiter \<times> 'r rateLimiter"
  oOrder :: "(string \<rightharpoonup> Container) \<Rightarrow> string list"
  oPodOrder :: "(string \<rightharpoonup> Pod) \<Rightarrow> string list"
  oPolls :: nat

definition onOuter ::
  "('x \<Rightarrow> 'a \<times> 'x) \<Rightarrow> ('r, 'x vworld) pcState \<Rightarrow> 'a \<times> ('r, 'x vworld) pcState" where
  "onOuter f pc =
     (case f (outer (world pc)) of (r, x) \<Rightarrow> (r, pc\<lparr>world := (world pc)\<lparr>outer := x\<rparr>\<rparr>))"

definition updOuter :: "('x \<Rightarrow> 'x) \<Rightarrow> ('r, 'x vworld) pcState \<Rightarrow> ('r, 'x vworld) pcState" where
  "updOuter f pc = pc\<lparr>world := (world pc)\<lparr>outer := f (outer (world pc))\<rparr>\<rparr>"

definition setProvider :: "VPodProvider \<Rightarrow> ('r, 'x vworld) pcState \<Rightarrow> ('r, 'x vworld) pcState" where
  "setProvider b pc = pc\<lparr>world := (world pc)\<lparr>vprovider := b\<rparr>\<rparr>"

text \<open>The environment without a provider: what the callback of the provider needs.\<close>

definition baseEnv :: "('r, 'x) outside \<Rightarrow> ('r, 'x vworld) pcEnv" where
  "baseEnv o' =
     \<lparr>provCreate = (\<lambda>_ _. None), provUpdate = (\<lambda>_ _. None), provDelete = (\<lambda>_ _. None),
      provGetPod = (\<lambda>_ _ pc. ((None, None), pc)), provGetPods = (\<lambda>pc. (Inr [], pc)),
      apiGet = (\<lambda>ns n. onOuter (oApiGet o' ns n)), cacheGet = (\<lambda>ns n. onOuter (oCacheGet o' ns n)),
      apiDelete = (\<lambda>p g u. onOuter (oDelete o' p g u)),
      apiStatusUpdate = (\<lambda>p. onOuter (oStatusUpdate o' p)),
      apiStatusPatch = (\<lambda>p q. onOuter (oStatusPatch o' p q)),
      recorderEvent = (\<lambda>p ty r. updOuter (oEvent o' p ty r)),
      metaKeyFunc = oMetaKey o', splitMetaKey = oSplitKey o', errorText = oErrorText o',
      rlSync = fst (oLimiters o'), rlDelete = fst (snd (oLimiters o')),
      rlStatus = snd (snd (oLimiters o')),
      pcNow = (\<lambda>pc. oNow o' (outer (world pc))),
      elapse = (\<lambda>pc. case onOuter (oElapse o') pc of (pods, pc) \<Rightarrow> fold AddKnownPod pods pc)\<rparr>"

text \<open>The environment of the provider: its callback is the controller.\<close>

definition providerEnvOf :: "('r, 'x) outside \<Rightarrow> ('r, 'x vworld) pcState providerEnv" where
  "providerEnvOf o' =
     \<lparr>StartBiz = (\<lambda>n k c. onOuter (oStart o' n k c)), StopBiz = (\<lambda>n k c. onOuter (oStop o' n k c)),
      notify = enqueuePodStatusUpdate (baseEnv o') (oPolls o'),
      cacheGetPod = (\<lambda>ns n. onOuter (oCacheGet o' ns n)),
      clientGetPod = (\<lambda>ns n. onOuter (oApiGet o' ns n)),
      trk = \<lparr>config = oTrackerConfig o', recordEvent = (\<lambda>d. updOuter (oRecord o' d)),
             report = (\<lambda>d. updOuter (oReport o' d)),
             trackerNow = (\<lambda>pc. oNow o' (outer (world pc)))\<rparr>,
      ctxWait = oCtxWait o', updateTimedOut = oTimedOut o'\<rparr>"

definition withProvider ::
  "(goerror option \<times> VPodProvider \<times> ('r, 'x vworld) pcState) option \<Rightarrow>
   (goerror option \<times> ('r, 'x vworld) pcState) option" where
  "withProvider r = map_option (\<lambda>(e, b, pc). (e, setProvider b pc)) r"

text \<open>The environment of the controller: its provider is VPodProvider.\<close>

definition kubeletEnv :: "('r, 'x) outside \<Rightarrow> ('r, 'x vworld) pcEnv" where
  "kubeletEnv o' = (baseEnv o')
     \<lparr>provCreate := (\<lambda>p pc. withProvider (CreatePod (providerEnvOf o') p (vprovider (world pc)) pc)),
      provUpdate := (\<lambda>p pc.
        (let old = (case GetPodByKey (vPodStore (vprovider (world pc))) (GetPodKey (Some p)) of
                      None \<Rightarrow> [] | Some q \<Rightarrow> elems (Containers q))
         in withProvider (UpdatePod (providerEnvOf o') (oOrder o' (containerMap old))
              (oOrder o' (containerMap (elems (Containers p)))) p (vprovider (world pc)) pc))),
      provDelete := (\<lambda>p pc. withProvider (DeletePod (providerEnvOf o') (Some p) (vprovider (world pc)) pc)),
      provGetPod := (\<lambda>ns n pc. ((GetPod (vprovider (world pc)) ns n, None), pc)),
      provGetPods := (\<lambda>pc. (Inr (GetPods (oPodOrder o' (podKeyToPod (vPodStore (vprovider (world pc)))))
                              (vprovider (world pc))), pc))\<rparr>"

definition storedPods :: "('r, 'x vworld) pcState \<Rightarrow> string \<Rightarrow> Pod option" where
  "storedPods pc = GetPodByKey (vPodStore (vprovider (world pc)))"

section \<open>The provider keeps its contract\<close>

lemma CreatePod_result:
  "CreatePod env p b w = Some (e, b', w') \<Longrightarrow>
     e = None \<and> b' = b\<lparr>vPodStore := PutPod p (vPodStore b)\<rparr>"
  by (auto simp: CreatePod_def Let_def split: option.splits)

lemma DeletePod_result:
  "DeletePod env (Some p) b w = Some (e, b', w') \<Longrightarrow>
     e = None \<and> b' = b\<lparr>vPodStore := storeDeletePod (GetPodKey (Some p)) (vPodStore b)\<rparr>"
  by (auto simp: DeletePod_def Let_def split: option.splits)

lemma UpdatePod_result:
  "UpdatePod env o1 o2 p b w = Some (e, b', w') \<Longrightarrow> DeletionTimestamp p = None \<Longrightarrow>
     GetPodByKey (vPodStore b) (GetPodKey (Some p)) \<noteq> None \<Longrightarrow>
     e = None \<and> b' = b\<lparr>vPodStore := PutPod p (vPodStore b)\<rparr>"
  by (auto simp: UpdatePod_def Let_def split: option.splits if_splits)

text \<open>The operations of the provider return when the context ends some wait.\<close>

lemma retryTunnel_returns:
  assumes "ctxEnds (ctxWait env)"
  shows "retryTunnel env call code w \<noteq> None"
proof -
  let ?call = "\<lambda>(_::nat) w. case call w of (innerErr, w) \<Rightarrow> (innerErr \<noteq> None, innerErr, w)"
  have "\<exists>n. retryEnds ?call DefaultRateLimiter (ctxWait env) w n"
    using assms unfolding ctxEnds_def retryEnds_def by blast
  then obtain n where n: "retryEnds ?call DefaultRateLimiter (ctxWait env) w n"
    "\<forall>k<n. \<not> retryEnds ?call DefaultRateLimiter (ctxWait env) w k"
    using exists_least_iff [of "retryEnds ?call DefaultRateLimiter (ctxWait env) w"] by blast
  show ?thesis
    using CallWithRetry_first_end [OF n]
    by (simp add: retryTunnel_def CallWithRetry_None split: option.split)
qed

lemma FuncTrack_returns: "f w \<noteq> None \<Longrightarrow> FuncTrack t tid sc ev lbl f w \<noteq> None"
  by (auto simp: FuncTrack_def Let_def split: option.splits)

lemma batches_return:
  assumes "ctxEnds (ctxWait env)"
  shows "handleBizBatchStart env b pod cs w \<noteq> None" "handleBizBatchStop env b pod cs w \<noteq> None"
  unfolding handleBizBatchStart_def handleBizBatchStop_def Let_def
  by (rule foldOpt_returns,
      simp add: FuncTrack_returns retryTunnel_returns [OF assms] del: not_None_eq)+

lemma CheckAndFinallyCall_returns:
  assumes "n \<le> m" "timedOut m" "\<And>s. passed s \<noteq> None"
  shows "CheckAndFinallyCall check timedOut passed late n s \<noteq> None"
  using assms(1)
proof (induction arbitrary: s rule: inc_induct)
  case base
  show ?case by (subst CheckAndFinallyCall.simps) (simp add: assms(2))
next
  case (step n)
  obtain f e t where check: "check s = ((f, e), t)" by (metis surj_pair)
  show ?case
    by (subst CheckAndFinallyCall.simps)
      (cases e; cases f; simp add: check assms(3) step.IH del: not_None_eq)
qed

lemma Eventually_returns:
  assumes "timedOut m" "\<And>s. passed s \<noteq> None"
  shows "Eventually t tid sc ev lbl code check timedOut passed late s \<noteq> None"
proof -
  let ?passed = "\<lambda>(s, data, checkTimeout). map_option (\<lambda>s. (s, data, checkTimeout)) (passed s)"
  have passed: "?passed x \<noteq> None" for x :: "'a \<times> logData \<times> bool"
    using assms(2) [of "fst x"] by (cases x) simp
  have "CheckAndFinallyCall c timedOut ?passed l 0 x \<noteq> None" for c l x
    by (rule CheckAndFinallyCall_returns [of 0 m]) (use assms(1) passed in auto)
  then show ?thesis
    unfolding Eventually_def Let_def by (simp split: option.split prod.split del: not_None_eq)
qed

lemma operations_return:
  assumes "ctxEnds (ctxWait env)"
  shows "CreatePod env p b w \<noteq> None" "DeletePod env (Some p) b w \<noteq> None"
    "updateTimedOut env m \<Longrightarrow> UpdatePod env o1 o2 p b w \<noteq> None"
proof -
  show "CreatePod env p b w \<noteq> None" "DeletePod env (Some p) b w \<noteq> None"
    using batches_return [OF assms] by (auto simp: CreatePod_def DeletePod_def Let_def split: option.split)
  show "UpdatePod env o1 o2 p b w \<noteq> None" if "updateTimedOut env m"
    by (simp add: UpdatePod_def Let_def batches_return [OF assms] Eventually_returns [of "updateTimedOut env" m, OF that]
        split: option.split del: not_None_eq)
qed

lemma withProvider_Some:
  "withProvider r = Some (e, pc') \<longleftrightarrow> (\<exists>b pc. r = Some (e, b, pc) \<and> pc' = setProvider b pc)"
  by (auto simp: withProvider_def)

lemma storedPods_set [simp]: "storedPods (setProvider b pc) = GetPodByKey (vPodStore b)"
  by (simp add: storedPods_def setProvider_def)

lemma storedPods_outer [simp]:
  "storedPods (snd (onOuter f pc)) = storedPods pc" "storedPods (updOuter g pc) = storedPods pc"
  by (simp_all add: storedPods_def onOuter_def updOuter_def split: prod.split)

section \<open>What the provider leaves alone\<close>

text \<open>Every function of the environment keeps a property of the world.\<close>

definition env_keeps :: "'w providerEnv \<Rightarrow> ('w \<Rightarrow> bool) \<Rightarrow> bool" where
  "env_keeps env I \<longleftrightarrow>
     (\<forall>n k c w. I w \<longrightarrow> I (snd (StartBiz env n k c w)) \<and> I (snd (StopBiz env n k c w))) \<and>
     (\<forall>p w. I w \<longrightarrow> I (notify env p w)) \<and>
     (\<forall>ns n w. I w \<longrightarrow> I (snd (cacheGetPod env ns n w)) \<and> I (snd (clientGetPod env ns n w))) \<and>
     (\<forall>d w. I w \<longrightarrow> I (recordEvent (trk env) d w) \<and> I (report (trk env) d w))"

lemma CallWithRetry_keeps:
  assumes "CallWithRetry call None waitCtx s = Some (e, t)" "I s"
    and step: "\<And>n s. I s \<Longrightarrow> I (snd (snd (call n s)))"
  shows "I t"
proof -
  have inv: "I (stateAfter call s n)" for n by (induction n) (simp_all add: assms(2) step)
  obtain n where "t = stateAfter call s (Suc n)"
    using CallWithRetry_state [OF assms(1) [unfolded CallWithRetry_None]] ..
  with inv [of "Suc n"] show ?thesis by (simp only:)
qed

lemma tracked_keeps:
  assumes "FuncTrack t tid sc ev lbl (retryTunnel env call code) w = Some (r, w')" "I w"
    and "\<And>w. I w \<Longrightarrow> I (snd (call w))" "\<And>d w. I w \<Longrightarrow> I (recordEvent t d w) \<and> I (report t d w)"
  shows "I w'"
proof -
  obtain e c w1 where 1: "retryTunnel env call code w = Some ((e, c), w1)"
    using assms(1) by (cases "retryTunnel env call code w") (auto simp: FuncTrack_def Let_def)
  then obtain e' where "CallWithRetry (\<lambda>_ w. case call w of (innerErr, w) \<Rightarrow> (innerErr \<noteq> None, innerErr, w))
      None (ctxWait env) w = Some (e', w1)"
    by (auto simp: retryTunnel_def split: option.splits)
  then have "I w1"
    by (rule CallWithRetry_keeps) (use assms in \<open>auto simp: case_prod_beta\<close>)
  then show ?thesis using assms(1,4) 1 by (auto simp: FuncTrack_def Let_def split: if_splits)
qed

lemma handleBizBatchStop_keeps:
  assumes "handleBizBatchStop env b pod cs w = Some w'" "env_keeps env I" "I w"
  shows "I w'"
  using assms(1,3) unfolding handleBizBatchStop_def Let_def
proof (rule foldOpt_preserves [where I = I])
  fix c t t'
  assume "I t" and "map_option snd (FuncTrack (trk env) (mapGetStr (labelMapOf pod) LabelKeyOfTraceID)
      TrackSceneVPodDeploy TrackEventContainerShutdown (labelMapOf pod)
      (retryTunnel env (StopBiz env (nodeName b)
         (if HasSuffix (GetPodKey (Some pod)) ObjectMetaNameNotExistPod then '''' else GetPodKey (Some pod)) c)
       CodeContainerStopFailed) t) = Some t'"
  then show "I t'"
    using assms(2) unfolding env_keeps_def by (auto intro: tracked_keeps [where I = I])
qed

lemma DeletePod_keeps:
  assumes "DeletePod env (Some p) b w = Some (e, b', w')" "env_keeps env I" "I w"
  shows "I w'"
proof -
  obtain w1 where "handleBizBatchStop env (b\<lparr>vPodStore := storeDeletePod (GetPodKey (Some p)) (vPodStore b)\<rparr>)
      p (elems (Containers p)) w = Some w1" "w' = notify env p w1"
    using assms(1) by (auto simp: DeletePod_def Let_def split: option.splits)
  with handleBizBatchStop_keeps [OF this(1) assms(2,3)] assms(2) show ?thesis
    by (simp add: env_keeps_def)
qed

text \<open>The callback of the provider does not touch the deletion queue.\<close>

lemma AddKnownPods_queue:
  "deletePodsFromKubernetes (fold AddKnownPod pods pc) = deletePodsFromKubernetes pc"
  by (induction pods arbitrary: pc) (simp_all add: AddKnownPod_def)

lemma onOuter_queue [simp]:
  "deletePodsFromKubernetes (snd (onOuter f pc)) = deletePodsFromKubernetes pc"
  "deletePodsFromKubernetes (updOuter g pc) = deletePodsFromKubernetes pc"
  by (simp_all add: onOuter_def updOuter_def split: prod.split)

lemma pollKnown_queue:
  "deletePodsFromKubernetes (snd (pollKnown (baseEnv o') n k p pc)) = deletePodsFromKubernetes pc"
proof (induction n arbitrary: p pc)
  case (Suc n)
  have cache: "cacheGet (baseEnv o') ns m = onOuter (oCacheGet o' ns m)" for ns m
    by (simp add: baseEnv_def)
  have "deletePodsFromKubernetes (elapse (baseEnv o') pc1) = deletePodsFromKubernetes pc1" for pc1
    by (simp add: baseEnv_def AddKnownPods_queue case_prod_beta)
  moreover obtain r pc1 where c: "onOuter (oCacheGet o' (Namespace p) (Name p)) pc = (r, pc1)"
    by fastforce
  moreover have "deletePodsFromKubernetes pc1 = deletePodsFromKubernetes pc"
    using onOuter_queue(1) [of "oCacheGet o' (Namespace p) (Name p)" pc] by (simp only: c snd_conv)
  ultimately show ?case by (simp add: Suc.IH cache split: option.split sum.split)
qed simp

lemma enqueuePodStatusUpdate_queue:
  "deletePodsFromKubernetes (enqueuePodStatusUpdate (baseEnv o') n p pc) = deletePodsFromKubernetes pc"
  using pollKnown_queue [of o' n _ p pc]
  by (auto simp: enqueuePodStatusUpdate_def enqueueStatus_def setKnown_def
      split: sum.split prod.split if_splits)
    (metis snd_conv)+

lemma providerEnvOf_keeps_queue:
  "env_keeps (providerEnvOf o') (\<lambda>pc. deletePodsFromKubernetes pc = q)"
  by (simp add: env_keeps_def providerEnvOf_def enqueuePodStatusUpdate_queue)

section \<open>The interpretation\<close>

definition outsideEnds :: "('r, 'x) outside \<Rightarrow> bool" where
  "outsideEnds o' \<longleftrightarrow> ctxEnds (oCtxWait o') \<and> (\<exists>m. oTimedOut o' m)"

lemma provider_answers:
  assumes "outsideEnds o'"
  shows "provCreate (kubeletEnv o') p pc \<noteq> None \<and> provUpdate (kubeletEnv o') p pc \<noteq> None \<and>
    provDelete (kubeletEnv o') p pc \<noteq> None"
proof -
  have env: "ctxWait (providerEnvOf o') = oCtxWait o'" "updateTimedOut (providerEnvOf o') = oTimedOut o'"
    by (simp_all add: providerEnvOf_def)
  obtain m where "ctxEnds (ctxWait (providerEnvOf o'))" "updateTimedOut (providerEnvOf o') m"
    using assms by (auto simp: outsideEnds_def env)
  note returns = operations_return(1,2) [OF this(1)] operations_return(3) [OF this]
  show ?thesis
    by (simp add: kubeletEnv_def withProvider_def Let_def returns del: not_None_eq)
qed

interpretation kubelet: pod_lifecycle "kubeletEnv o'" storedPods "outsideEnds o'"
  for o' :: "('r, 'x) outside"
proof
  fix p e and pc pc' :: "('r, 'x vworld) pcState" and ns n ty r
  show "provGetPod (kubeletEnv o') ns n pc = ((storedPods pc (ns @ ''/'' @ n), None), pc)"
    by (simp add: kubeletEnv_def GetPod_def storedPods_def)
  show "provCreate (kubeletEnv o') p pc = Some (e, pc') \<Longrightarrow>
      e = None \<and> storedPods pc' = (storedPods pc)(GetPodKey (Some p) \<mapsto> p)"
    by (auto simp: kubeletEnv_def withProvider_Some fun_eq_iff vpods.get_put storedPods_def
        setProvider_def dest!: CreatePod_result)
  show "provUpdate (kubeletEnv o') p pc = Some (e, pc') \<Longrightarrow> DeletionTimestamp p = None \<Longrightarrow>
      storedPods pc (GetPodKey (Some p)) \<noteq> None \<Longrightarrow>
      e = None \<and> storedPods pc' = (storedPods pc)(GetPodKey (Some p) \<mapsto> p)"
    by (auto simp: kubeletEnv_def withProvider_Some fun_eq_iff vpods.get_put storedPods_def Let_def
        setProvider_def dest!: UpdatePod_result)
  show "provDelete (kubeletEnv o') p pc = Some (e, pc') \<Longrightarrow>
      e = None \<and> storedPods pc' = (storedPods pc)(GetPodKey (Some p) := None)"
    by (auto simp: kubeletEnv_def withProvider_Some fun_eq_iff vpods.get_del storedPods_def
        setProvider_def dest!: DeletePod_result)
  show "outsideEnds o' \<Longrightarrow> provCreate (kubeletEnv o') p pc \<noteq> None \<and>
      provUpdate (kubeletEnv o') p pc \<noteq> None \<and> provDelete (kubeletEnv o') p pc \<noteq> None"
    by (rule provider_answers)
  show "world pc = world pc' \<Longrightarrow> storedPods pc = storedPods pc'"
    by (simp add: storedPods_def)
  show "storedPods (recorderEvent (kubeletEnv o') p ty r pc) = storedPods pc"
    by (simp add: kubeletEnv_def baseEnv_def)
  show "storedPods (snd (cacheGet (kubeletEnv o') ns n pc)) = storedPods pc"
    by (simp add: kubeletEnv_def baseEnv_def)
  show "deletePodsFromKubernetes (recorderEvent (kubeletEnv o') p ty r pc) = deletePodsFromKubernetes pc"
    by (simp add: kubeletEnv_def baseEnv_def)
  show "provDelete (kubeletEnv o') p pc = Some (e, pc') \<Longrightarrow>
      deletePodsFromKubernetes pc' = deletePodsFromKubernetes pc"
    using DeletePod_keeps [OF _ providerEnvOf_keeps_queue refl]
    by (auto simp: kubeletEnv_def withProvider_Some setProvider_def)
qed

section \<open>Convergence\<close>

lemma kubelet_now: "pcNow (kubeletEnv o') pc = oNow o' (outer (world pc))"
  by (simp add: kubeletEnv_def baseEnv_def)

lemma kubelet_cache:
  "oCacheGet o' ns n (outer (world pc)) = (r, x) \<Longrightarrow>
   cacheGet (kubeletEnv o') ns n pc = (r, pc\<lparr>world := (world pc)\<lparr>outer := x\<rparr>\<rparr>)"
  by (simp add: kubeletEnv_def baseEnv_def onOuter_def)

text \<open>The sync handler converges: for a known pod that the cluster wants to run, and that was not
  synced in this form already, the handler returns nil whatever the tunnel and the API server
  answer, as long as the retries' context ends some wait and the check of an update times out;
  the provider then holds a pod equal to the cluster's, and every other pod is as before.\<close>

theorem live_pod_converges:
  assumes "outsideEnds o'" "SplitMetaNamespaceKey k = Ok (ns, n)"
    "oCacheGet o' ns n (outer (world pc)) = (Inr p, x)"
    "DeletionTimestamp p = None" "Phase (Status p) \<noteq> PodFailed" "Phase (Status p) \<noteq> PodSucceeded"
    "knownPods pc k = Some a"
    "\<And>u. lastPodUsed (kpHeap pc a) = Some u \<Longrightarrow> \<not> podsEffectivelyEqual u p"
  shows "\<exists>pc'. syncPodsFromKubernetesHandler (kubeletEnv o') k pc = Returns (None, pc') \<and>
    (\<exists>q. storedPods pc' (GetPodKey (Some p)) = Some q \<and> PodsEqual q p) \<and>
    (\<forall>j. j \<noteq> GetPodKey (Some p) \<longrightarrow> storedPods pc' j = storedPods pc j)"
  by (rule kubelet.handler_live_pod [OF assms(1,2) kubelet_cache [OF assms(3)] assms(4-6)])
    (use assms(7,8) in auto)

definition quietOutside :: "goerror + Pod \<Rightarrow> (unit, 'x) outside" where
  "quietOutside r =
     \<lparr>oStart = (\<lambda>_ _ _ x. (Some (ErrText ''down''), x)), oStop = (\<lambda>_ _ _ x. (None, x)),
      oCacheGet = (\<lambda>_ _ x. (r, x)), oApiGet = (\<lambda>_ _ x. (r, x)), oDelete = (\<lambda>_ _ _ x. (None, x)),
      oStatusUpdate = (\<lambda>_ x. (None, x)), oStatusPatch = (\<lambda>_ _ x. (None, x)),
      oEvent = (\<lambda>_ _ _ x. x), oNow = (\<lambda>_. GoTime 1), oElapse = (\<lambda>x. ([], x)),
      oTrackerConfig = \<lparr>LogDir = '''', ReportLevel = ''error'', ReportLinks = None\<rparr>,
      oRecord = (\<lambda>_ x. x), oReport = (\<lambda>_ x. x), oCtxWait = sampleWait, oTimedOut = (\<lambda>n. n = 60),
      oMetaKey = (\<lambda>p. Inr (GetPodKey (Some p))), oSplitKey = (\<lambda>_. Inr ('''', '''')),
      oErrorText = (\<lambda>_. ''''), oLimiters = (quietLimiter, quietLimiter, quietLimiter),
      oOrder = (\<lambda>_. [''biz'']), oPodOrder = (\<lambda>_. []), oPolls = 2\<rparr>"

lemma quietOutside_ends: "outsideEnds (quietOutside r)"
  by (simp add: outsideEnds_def quietOutside_def sampleWait_ends)

definition sampleWorld :: "unit vworld" where
  "sampleWorld = \<lparr>vprovider = sampleProvider, outer = ()\<rparr>"

lemma sample_key: "SplitMetaNamespaceKey ''default/p'' = Ok (''default'', ''p'')"
  by (simp add: SplitMetaNamespaceKey_def)

lemma sample_pod: "GetPodKey (Some samplePod) = ''default/p''" "DeletionTimestamp samplePod = None"
  "Phase (Status samplePod) = ''''" "RestartPolicy samplePod = ''''"
  by (simp_all add: samplePod_def zeroPod_def zeroPodStatus_def GetPodKey_def)

lemma live_pod_converges_witness:
  "\<exists>pc' q. syncPodsFromKubernetesHandler (kubeletEnv (quietOutside (Inr samplePod))) ''default/p''
     (AddKnownPod samplePod (freshPc (sampleWorld\<lparr>vprovider := NewVPodProvider '''' '''' ''n''\<rparr>))) =
       Returns (None, pc') \<and> storedPods pc' ''default/p'' = Some q \<and> PodsEqual q samplePod"
proof -
  let ?pc = "AddKnownPod samplePod (freshPc (sampleWorld\<lparr>vprovider := NewVPodProvider '''' '''' ''n''\<rparr>))"
  have cached: "oCacheGet (quietOutside (Inr samplePod)) ''default'' ''p'' (outer (world ?pc)) = (Inr samplePod, ())"
    by (simp add: quietOutside_def)
  have known: "knownPods ?pc ''default/p'' = Some 0" "lastPodUsed (kpHeap ?pc 0) = None"
    by (simp_all add: AddKnownPod_def sample_pod freshPc_def)
  have "\<exists>pc'. syncPodsFromKubernetesHandler (kubeletEnv (quietOutside (Inr samplePod))) ''default/p'' ?pc =
      Returns (None, pc') \<and> (\<exists>q. storedPods pc' (GetPodKey (Some samplePod)) = Some q \<and> PodsEqual q samplePod) \<and>
      (\<forall>j. j \<noteq> GetPodKey (Some samplePod) \<longrightarrow> storedPods pc' j = storedPods ?pc j)"
    by (rule live_pod_converges [OF quietOutside_ends sample_key cached _ _ _ known(1)])
      (simp_all add: sample_pod known(2) phase_defs)
  then show ?thesis by (auto simp: sample_pod)
qed

text \<open>A pod that the cluster no longer has leaves the provider: the sync handler of its key
  returns nil, stops the pod that the provider holds under that key, whatever the tunnel answers,
  and leaves every other pod alone.\<close>

theorem missing_pod_removed:
  assumes "outsideEnds o'" "SplitMetaNamespaceKey k = Ok (ns, n)"
    "oCacheGet o' ns n (outer (world pc)) = (Inl e, x)" "IsNotFound e"
    "\<And>q. storedPods pc (ns @ ''/'' @ n) = Some q \<Longrightarrow> GetPodKey (Some q) = ns @ ''/'' @ n"
  shows "\<exists>pc'. syncPodsFromKubernetesHandler (kubeletEnv o') k pc = Returns (None, pc') \<and>
    storedPods pc' = (storedPods pc)(ns @ ''/'' @ n := None)"
  using kubelet.handler_missing_pod [OF assms(1,2) kubelet_cache [OF assms(3)] assms(4,5)] by blast

lemma missing_pod_removed_witness:
  "\<exists>pc'. syncPodsFromKubernetesHandler (kubeletEnv (quietOutside (Inl (ErrAPI NotFound)))) ''default/p''
     (freshPc sampleWorld) = Returns (None, pc') \<and>
     storedPods pc' = (storedPods (freshPc sampleWorld))(''default/p'' := None)"
proof -
  have cached: "oCacheGet (quietOutside (Inl (ErrAPI NotFound))) ''default'' ''p'' (outer (world (freshPc sampleWorld))) =
      (Inl (ErrAPI NotFound), ())"
    by (simp add: quietOutside_def)
  have "GetPodKey (Some q) = ''default'' @ ''/'' @ ''p''"
    if "storedPods (freshPc sampleWorld) (''default'' @ ''/'' @ ''p'') = Some q" for q
    using that by (simp add: storedPods_def freshPc_def sampleWorld_def sampleProvider_def
        vpods.get_put sample_pod)
  from missing_pod_removed [OF quietOutside_ends sample_key cached _ this] show ?thesis by simp
qed

end
