(* ===== verification/Kubelet_Inv.thy ===== *)
theory Kubelet_Inv
  imports Kubelet
begin

text \<open>
  What the kubelet of a node keeps while its goroutines interleave: the locale
  \<open>pc_invariant\<close> carries a property from the primitive updates of the pod controller and its
  world to every handler, callback and operation of the provider. Its instances say that the three
  queues, the known pods and the stored pods stay consistent, and that only clients touch the queue of
  keys to sync. The rounds of the workers follow, as steps and as a whole.
\<close>

section \<open>Operations of the provider keep a property of the world\<close>

lemma handleBizBatchStart_keeps:
  assumes "handleBizBatchStart env b pod cs w = Some w'" "env_keeps env I" "I w"
  shows "I w'"
  using assms(1,3) unfolding handleBizBatchStart_def Let_def
proof (rule foldOpt_preserves [where I = I])
  fix c t t'
  assume "I t" and "map_option snd (FuncTrack (trk env) (mapGetStr (labelMapOf pod) LabelKeyOfTraceID)
      TrackSceneVPodDeploy TrackEventContainerStart (labelMapOf pod)
      (retryTunnel env (StartBiz env (nodeName b) (GetPodKey (Some pod)) c) CodeContainerStartFailed) t) = Some t'"
  then show "I t'"
    using assms(2) unfolding env_keeps_def by (auto intro: tracked_keeps [where I = I])
qed

lemma CheckAndFinallyCall_keeps:
  assumes run: "CheckAndFinallyCall check timedOut passed late n s = Some (e, s')" and s: "I s"
    and check: "\<And>s. I s \<Longrightarrow> I (snd (check s))"
    and passed: "\<And>s s'. I s \<Longrightarrow> passed s = Some s' \<Longrightarrow> I s'"
    and late: "\<And>s. I s \<Longrightarrow> I (late s)"
  shows "I s'"
proof -
  have "I s \<longrightarrow> (\<forall>s. I s \<longrightarrow> I (snd (check s))) \<longrightarrow>
    (\<forall>s s'. I s \<longrightarrow> passed s = Some s' \<longrightarrow> I s') \<longrightarrow> (\<forall>s. I s \<longrightarrow> I (late s)) \<longrightarrow> I (snd (e, s'))"
  proof (rule CheckAndFinallyCall.raw_induct [where P = "\<lambda>check timedOut passed late n s r.
      I s \<longrightarrow> (\<forall>s. I s \<longrightarrow> I (snd (check s))) \<longrightarrow> (\<forall>s s'. I s \<longrightarrow> passed s = Some s' \<longrightarrow> I s') \<longrightarrow>
      (\<forall>s. I s \<longrightarrow> I (late s)) \<longrightarrow> I (snd r)", OF _ run], intro impI)
    fix CFC check timedOut passed late n s r
    assume IH: "\<And>check timedOut passed late n s r. CFC check timedOut passed late n s = Some r \<Longrightarrow>
        I s \<longrightarrow> (\<forall>s. I s \<longrightarrow> I (snd (check s))) \<longrightarrow> (\<forall>s s'. I s \<longrightarrow> passed s = Some s' \<longrightarrow> I s') \<longrightarrow>
        (\<forall>s. I s \<longrightarrow> I (late s)) \<longrightarrow> I (snd r)"
      and r: "(if timedOut n then Some (Some (ErrText ''check time out''), late s)
        else case check s of ((finished, err), s') \<Rightarrow>
          (case err of Some e \<Rightarrow> Some (Some (ErrWrap ''Error when checking condition'' e), s')
           | None \<Rightarrow> if finished then map_option (Pair None) (passed s')
                     else CFC check timedOut passed late (Suc n) s')) = Some r"
      and h: "I s" "\<forall>s. I s \<longrightarrow> I (snd (check s))" "\<forall>s s'. I s \<longrightarrow> passed s = Some s' \<longrightarrow> I s'"
        "\<forall>s. I s \<longrightarrow> I (late s)"
    obtain f err t where c: "check s = ((f, err), t)" by (metis surj_pair)
    have t: "I t" using h(1,2) c by (metis snd_conv)
    show "I (snd r)"
    proof (cases "timedOut n \<or> err \<noteq> None \<or> f")
      case True
      with r c h t show ?thesis by (auto split: option.splits if_splits)
    next
      case False
      with r c have "CFC check timedOut passed late (Suc n) t = Some r" by simp
      from IH [OF this] t h(2-4) show ?thesis by blast
    qed
  qed
  with assms(2-) show ?thesis by simp
qed

lemma Eventually_keeps:
  assumes run: "Eventually t tid sc ev lbl code check timedOut passed late s = Some s'" and s: "I s"
    and check: "\<And>s. I s \<Longrightarrow> I (snd (check s))"
    and passed: "\<And>s s'. I s \<Longrightarrow> passed s = Some s' \<Longrightarrow> I s'"
    and late: "\<And>s. I s \<Longrightarrow> I (late s)"
    and log: "\<And>d s. I s \<Longrightarrow> I (recordEvent t d s) \<and> I (report t d s)"
  shows "I s'"
proof -
  let ?c = "\<lambda>(s, data :: logData, checkTimeout :: bool). case check s of (r, s') \<Rightarrow> (r, (s', data, checkTimeout))"
  let ?p = "\<lambda>(s, data :: logData, checkTimeout :: bool). map_option (\<lambda>s. (s, data, checkTimeout)) (passed s)"
  let ?l = "\<lambda>(s, data, checkTimeout :: bool). (late s, data\<lparr>Code := code\<rparr>, True)"
  let ?d = "\<lparr>TraceID = tid, Scene = sc, Event = ev, TimeUsed = 0,
                  Result = EventSuccess, Message = None, Code = CodeSuccess, ld_Labels = lbl\<rparr>"
  obtain e s1 d1 b1 where 1: "CheckAndFinallyCall ?c timedOut ?p ?l 0 (s, ?d, False) = Some (e, (s1, d1, b1))"
    using run unfolding Eventually_def Let_def by (auto split: option.splits)
  have "I (fst (s1, d1, b1))"
    by (rule CheckAndFinallyCall_keeps [OF 1, where I = "\<lambda>x. I (fst x)"])
      (use s check passed late in \<open>auto simp: case_prod_beta\<close>)
  then have "I s1" by simp
  with log run 1 show ?thesis unfolding Eventually_def Let_def by (auto split: if_splits)
qed

lemma checkStopped_keeps:
  assumes "env_keeps env I" "I w"
  shows "I (snd (checkStopped env pod cs w))"
proof -
  have "I (snd (clientGetPod env (Namespace pod) (Name pod) w))" using assms by (simp add: env_keeps_def)
  then show ?thesis by (auto simp: checkStopped_def Let_def split: prod.split sum.split)
qed

lemma CreatePod_keeps:
  assumes "CreatePod env p b w = Some (e, b', w')" "env_keeps env I" "I w"
  shows "I w'"
proof -
  obtain w1 where "handleBizBatchStart env (b\<lparr>vPodStore := PutPod p (vPodStore b)\<rparr>)
      p (elems (Containers p)) w = Some w1" "w' = notify env p w1"
    using assms(1) by (auto simp: CreatePod_def Let_def split: option.splits)
  with handleBizBatchStart_keeps [OF this(1) assms(2,3)] assms(2) show ?thesis
    by (simp add: env_keeps_def)
qed

lemma UpdatePod_keeps:
  assumes "UpdatePod env o1 o2 p b w = Some (e, b', w')" "env_keeps env I" "I w"
  shows "I w'"
proof (cases "w' = w")
  case False
  obtain old where old: "GetPodByKey (vPodStore b) (GetPodKey (Some p)) = Some old" "DeletionTimestamp p = None"
    using assms(1) False by (auto simp: UpdatePod_def split: option.splits if_splits)
  let ?new = "containerMap (elems (Containers p))" and ?old = "containerMap (elems (Containers old))"
  let ?stop = "map fst (changedContainers o1 ?old ?new)"
  let ?start = "map snd (changedContainers o1 ?old ?new) @ addedContainers o2 ?old ?new"
  let ?b = "b\<lparr>vPodStore := PutPod p (vPodStore b)\<rparr>"
  have notify: "I w \<Longrightarrow> I (notify env p w)" for w using assms(2) by (simp add: env_keeps_def)
  obtain w1 where w1: "(if ?stop \<noteq> [] then handleBizBatchStop env b old ?stop w else Some w) = Some w1"
    and rest: "?start = [] \<and> w' = notify env p w1 \<or>
      (\<exists>w2. Eventually (trk env) (mapGetStr (Labels p) LabelKeyOfTraceID) TrackSceneVPodDeploy
         TrackEventVPodUpdate (Labels p) CodeContainerStartTimeout (checkStopped env p ?stop)
         (updateTimedOut env) (handleBizBatchStart env ?b p ?start) (\<lambda>w. w) w1 = Some w2 \<and> w' = notify env p w2)"
    using assms(1) old
    by (simp add: UpdatePod_def Let_def split: option.splits if_splits; blast)
  have "I w1"
    using w1 handleBizBatchStop_keeps [OF _ assms(2,3)] assms(3) by (auto split: if_splits)
  from rest show ?thesis
  proof
    assume "\<exists>w2. Eventually (trk env) (mapGetStr (Labels p) LabelKeyOfTraceID) TrackSceneVPodDeploy
         TrackEventVPodUpdate (Labels p) CodeContainerStartTimeout (checkStopped env p ?stop)
         (updateTimedOut env) (handleBizBatchStart env ?b p ?start) (\<lambda>w. w) w1 = Some w2 \<and> w' = notify env p w2"
    then obtain w2 where w2: "Eventually (trk env) (mapGetStr (Labels p) LabelKeyOfTraceID) TrackSceneVPodDeploy
         TrackEventVPodUpdate (Labels p) CodeContainerStartTimeout (checkStopped env p ?stop)
         (updateTimedOut env) (handleBizBatchStart env ?b p ?start) (\<lambda>w. w) w1 = Some w2" "w' = notify env p w2"
      by blast
    have "I w2"
      by (rule Eventually_keeps [OF w2(1), where I = I])
        (use \<open>I w1\<close> assms(2) in \<open>auto simp: checkStopped_keeps env_keeps_def dest: handleBizBatchStart_keeps [OF _ assms(2)]\<close>)
    with w2(2) notify show ?thesis by simp
  qed (use \<open>I w1\<close> notify in simp)
qed (use assms(3) in simp)


section \<open>What an invariant of a kubelet must be closed under\<close>

text \<open>
  A property of the pod controller and the outside, and one of the provider. The locale derives
  from its closure under the primitive updates that every handler, every operation of the
  provider and every callback keeps it.
\<close>

locale pc_invariant =
  fixes o' :: "('r, 'x) outside"
    and I :: "('r, 'x vworld) pcState \<Rightarrow> bool"
    and ok :: "VPodProvider \<Rightarrow> bool"
  assumes outer_changes: "I pc \<Longrightarrow> I (updOuter g pc)"
    and adds_known: "I pc \<Longrightarrow> I (AddKnownPod p pc)"
    and forgets_known: "I pc \<Longrightarrow> I (DeleteKnownPod k pc)"
    and sets_known: "I pc \<Longrightarrow> I (setKnown a f pc)"
    and enqueues_status: "I pc \<Longrightarrow> I (enqueueStatus env k pc)"
    and enqueues_delete: "I pc \<Longrightarrow> I (enqueueDelete env k pc)"
    and enqueues_delete_after: "I pc \<Longrightarrow> I (enqueueDeleteAfter env k d pc)"
    and provider_ok: "I pc \<Longrightarrow> ok (vprovider (world pc))"
    and sets_provider: "I pc \<Longrightarrow> ok b \<Longrightarrow> I (setProvider b pc)"
    and puts_pod: "ok b \<Longrightarrow> ok (b\<lparr>vPodStore := PutPod p (vPodStore b)\<rparr>)"
    and deletes_pod: "ok b \<Longrightarrow> ok (b\<lparr>vPodStore := storeDeletePod k (vPodStore b)\<rparr>)"
begin

lemma onOuter_keeps: "I pc \<Longrightarrow> I (snd (onOuter f pc))"
  using outer_changes [of pc "\<lambda>x. snd (f x)"] by (simp add: onOuter_def updOuter_def case_prod_beta)

lemma onOuter_keeps': "onOuter f pc = (r, pc') \<Longrightarrow> I pc \<Longrightarrow> I pc'"
  using onOuter_keeps [of pc f] by simp

lemma elapse_keeps: "I pc \<Longrightarrow> I (elapse (baseEnv o') pc)"
proof -
  assume I: "I pc"
  obtain pods pc1 where 1: "onOuter (oElapse o') pc = (pods, pc1)" by fastforce
  have "I (fold AddKnownPod pods t)" if "I t" for t
    using that by (induction pods arbitrary: t) (simp_all add: adds_known)
  with onOuter_keeps' [OF 1 I] 1 show ?thesis by (simp add: baseEnv_def)
qed

lemma pollKnown_keeps: "I pc \<Longrightarrow> I (snd (pollKnown (baseEnv o') n k p pc))"
proof (induction n arbitrary: p pc)
  case (Suc n)
  have cache: "cacheGet (baseEnv o') ns m = onOuter (oCacheGet o' ns m)" for ns m
    by (simp add: baseEnv_def)
  obtain r pc1 where c: "onOuter (oCacheGet o' (Namespace p) (Name p)) pc = (r, pc1)" by fastforce
  then have "I pc1" using Suc.prems by (rule onOuter_keeps')
  with Suc c show ?case
    by (simp add: cache elapse_keeps split: option.split sum.split)
qed simp

lemma notify_keeps: "I pc \<Longrightarrow> I (enqueuePodStatusUpdate (baseEnv o') n p pc)"
proof -
  assume "I pc"
  then have poll: "I pc'" if "pollKnown (baseEnv o') n k p pc = (r, pc')" for k r pc'
    using pollKnown_keeps [of pc n k p] that by simp
  then show ?thesis
    using \<open>I pc\<close> by (auto simp: enqueuePodStatusUpdate_def enqueues_status sets_known split: sum.split prod.split)
qed

lemma provider_keeps: "env_keeps (providerEnvOf o') I"
  by (simp add: env_keeps_def providerEnvOf_def onOuter_keeps notify_keeps outer_changes)

section \<open>Operations of the provider\<close>

lemma withProvider_keeps:
  assumes "withProvider r = Some (e, pc')"
    "\<And>b pc. r = Some (e, b, pc) \<Longrightarrow> I pc \<and> ok b"
  shows "I pc'"
  using assms by (auto simp: withProvider_Some sets_provider)

lemma provider_results:
  "CreatePod env p b w = Some (e, b', w') \<Longrightarrow> ok b \<Longrightarrow> ok b'"
  "UpdatePod env o1 o2 p b w = Some (e, b', w') \<Longrightarrow> ok b \<Longrightarrow> ok b'"
  "DeletePod env q b w = Some (e, b', w') \<Longrightarrow> ok b \<Longrightarrow> ok b'"
  by (auto simp: CreatePod_def UpdatePod_def DeletePod_def Let_def puts_pod deletes_pod
      split: option.splits if_splits)

lemma provCreate_keeps: "provCreate (kubeletEnv o') p pc = Some (e, pc') \<Longrightarrow> I pc \<Longrightarrow> I pc'"
  by (simp add: kubeletEnv_def, erule withProvider_keeps)
    (meson CreatePod_keeps provider_keeps provider_results(1) provider_ok)

lemma provUpdate_keeps: "provUpdate (kubeletEnv o') p pc = Some (e, pc') \<Longrightarrow> I pc \<Longrightarrow> I pc'"
  by (simp add: kubeletEnv_def Let_def, erule withProvider_keeps)
    (meson UpdatePod_keeps provider_keeps provider_results(2) provider_ok)

lemma provDelete_keeps: "provDelete (kubeletEnv o') p pc = Some (e, pc') \<Longrightarrow> I pc \<Longrightarrow> I pc'"
  by (simp add: kubeletEnv_def, erule withProvider_keeps)
    (meson DeletePod_keeps provider_keeps provider_results(3) provider_ok)


section \<open>The handlers of the controller\<close>

lemma calls_keep:
  "cacheGet (kubeletEnv o') ns n pc = (r, pc') \<Longrightarrow> I pc \<Longrightarrow> I pc'"
  "apiGet (kubeletEnv o') ns n pc = (r, pc') \<Longrightarrow> I pc \<Longrightarrow> I pc'"
  "apiDelete (kubeletEnv o') p g u pc = (e, pc') \<Longrightarrow> I pc \<Longrightarrow> I pc'"
  "apiStatusUpdate (kubeletEnv o') p pc = (e, pc') \<Longrightarrow> I pc \<Longrightarrow> I pc'"
  "apiStatusPatch (kubeletEnv o') p q pc = (e, pc') \<Longrightarrow> I pc \<Longrightarrow> I pc'"
  by (simp_all add: kubeletEnv_def baseEnv_def onOuter_keeps')

lemma gets_keep: "\<exists>q. provGetPod (kubeletEnv o') ns n pc = (q, pc)" "\<exists>l. provGetPods (kubeletEnv o') pc = (l, pc)"
  by (simp_all add: kubeletEnv_def)

lemma event_keeps: "I pc \<Longrightarrow> I (recorderEvent (kubeletEnv o') p ty r pc)"
  by (simp add: kubeletEnv_def baseEnv_def outer_changes)

lemma providerFailed_keeps:
  "providerFailed (kubeletEnv o') e r p pc = Returns (e', pc') \<Longrightarrow> I pc \<Longrightarrow> I pc'"
  by (auto simp: providerFailed_def handleProviderError_def Let_def case_prod_beta
      intro!: event_keeps intro: calls_keep(4) [OF surjective_pairing])

lemma createOrUpdatePod_keeps:
  assumes "createOrUpdatePod (kubeletEnv o') p pc = Returns (e, pc')" "I pc"
  shows "I pc'"
proof -
  obtain q e1 where get: "provGetPod (kubeletEnv o') (Namespace p) (Name p) pc = ((q, e1), pc)"
    using gets_keep(1) by (metis surj_pair)
  with get assms show ?thesis
    by (auto simp: createOrUpdatePod_def intro!: event_keeps split: option.splits if_splits)
      (blast dest: provCreate_keeps provUpdate_keeps providerFailed_keeps)+
qed

lemma deletePod_keeps:
  "deletePod (kubeletEnv o') p pc = Returns (e, pc') \<Longrightarrow> I pc \<Longrightarrow> I pc'"
  by (auto simp: deletePod_def intro!: event_keeps elim: provDelete_keeps split: option.splits)

lemma syncBody_keeps:
  "syncBody (kubeletEnv o') p k pc = Returns (e, pc') \<Longrightarrow> I pc \<Longrightarrow> I pc'"
  by (auto simp: syncBody_def intro!: enqueues_delete_after elim: deletePod_keeps createOrUpdatePod_keeps
      split: run.splits option.splits if_splits)

lemma syncPodInProvider_keeps:
  "syncPodInProvider (kubeletEnv o') p k pc = Returns (e, pc') \<Longrightarrow> I pc \<Longrightarrow> I pc'"
  by (auto simp: syncPodInProvider_def intro!: enqueues_delete sets_known elim: syncBody_keeps
      split: run.splits option.splits if_splits)

lemma deleteMissingPod_keeps:
  assumes "deleteMissingPod (kubeletEnv o') k ns n pc = Returns (e, pc')" "I pc"
  shows "I pc'"
proof -
  obtain q e1 where get: "provGetPod (kubeletEnv o') ns n pc = ((q, e1), pc)"
    using gets_keep(1) by (metis surj_pair)
  with get assms show ?thesis
    by (auto simp: deleteMissingPod_def intro!: forgets_known split: option.splits if_splits)
      (blast dest: provDelete_keeps)+
qed

lemma syncHandler_keeps:
  "syncPodsFromKubernetesHandler (kubeletEnv o') k pc = Returns (e, pc') \<Longrightarrow> I pc \<Longrightarrow> I pc'"
  by (auto simp: syncPodsFromKubernetesHandler_def
      elim: calls_keep(1) deleteMissingPod_keeps [OF _ calls_keep(1)] syncPodInProvider_keeps [OF _ calls_keep(1)]
      split: outcome.splits prod.splits sum.splits if_splits)

lemma deleteFromProvider_keeps:
  "deleteFromProvider (kubeletEnv o') p q pc = (e, pc') \<Longrightarrow> I pc \<Longrightarrow> I pc'"
  by (auto simp: deleteFromProvider_def Let_def dest: calls_keep(3) split: option.splits prod.splits if_splits)

lemma statusHandler_keeps:
  "syncPodStatusFromProviderHandler (kubeletEnv o') k pc = (e, pc') \<Longrightarrow> I pc \<Longrightarrow> I pc'"
  by (auto simp: syncPodStatusFromProviderHandler_def updatePodStatus_def Let_def
      dest: calls_keep(2,5) deleteFromProvider_keeps
      split: sum.splits prod.splits option.splits if_splits)

lemma deleteHandler_keeps:
  "deletePodsFromKubernetesHandler (kubeletEnv o') k pc = Returns (e, pc') \<Longrightarrow> I pc \<Longrightarrow> I pc'"
  by (auto simp: deletePodsFromKubernetesHandler_def dest: calls_keep(2,3)
      split: outcome.splits sum.splits prod.splits option.splits if_splits)

lemma collectDangling_keeps:
  "collectDangling (kubeletEnv o') ps ptd pc = (r, pc') \<Longrightarrow> I pc \<Longrightarrow> I pc'"
  by (induction ps arbitrary: ptd pc) (auto dest: calls_keep(1) split: prod.splits sum.splits if_splits)

lemma deleteDanglingPods_keeps:
  assumes "deleteDanglingPods (kubeletEnv o') arrange pc = Some pc'" "I pc"
  shows "I pc'"
proof -
  have deletions: "I t'" if run: "foldOpt (\<lambda>pod pc. map_option snd (provDelete (kubeletEnv o') pod pc)) ps t = Some t'"
    and t: "I t" for ps t t'
    using run t by (rule foldOpt_preserves [where I = I]) (auto dest: provDelete_keeps)
  obtain l where get: "provGetPods (kubeletEnv o') pc = (l, pc)" using gets_keep(2) by blast
  with get assms show ?thesis
    by (auto simp: deleteDanglingPods_def dest: deletions collectDangling_keeps
        split: sum.splits option.splits prod.splits)
qed

lemma checkStatus_keeps:
  "CheckAndUpdatePodStatus env k p pc = Ok pc' \<Longrightarrow> I pc \<Longrightarrow> I pc'"
  by (auto simp: CheckAndUpdatePodStatus_def Let_def sets_known enqueues_status split: option.splits if_splits)

section \<open>Status reports\<close>

text \<open>The operations of the provider that the tunnel calls work on the provider and the rest.\<close>

definition both :: "VPodProvider \<times> ('r, 'x vworld) pcState \<Rightarrow> bool" where
  "both s \<longleftrightarrow> ok (fst s) \<and> I (snd s)"

lemma notify_both: "I pc \<Longrightarrow> I (notify (providerEnvOf o') p pc)"
  using provider_keeps by (simp add: env_keeps_def)

lemma syncBiz_keeps:
  "syncBizStatusToKube (providerEnvOf o') t1 t2 d s = Ok s' \<Longrightarrow> both s \<Longrightarrow> both s'"
  by (auto simp: syncBizStatusToKube_def both_def Let_def puts_pod notify_both
      split: prod.splits option.splits outcome.splits)

lemma cacheGetPod_keeps: "cacheGetPod (providerEnvOf o') ns n pc = (r, pc') \<Longrightarrow> I pc \<Longrightarrow> I pc'"
  by (simp add: providerEnvOf_def onOuter_keeps')

lemma SyncBiz_keeps:
  "SyncBizStatusToKube (providerEnvOf o') t1 t2 d s = Ok s' \<Longrightarrow> both s \<Longrightarrow> both s'"
  by (auto simp: SyncBizStatusToKube_def both_def
      dest!: syncBiz_keeps [unfolded both_def] dest: cacheGetPod_keeps split: prod.splits sum.splits if_splits)

lemma syncEach_keeps: "syncEach (providerEnvOf o') clk ds s = Ok s' \<Longrightarrow> both s \<Longrightarrow> both s'"
  by (induction ds arbitrary: clk s) (auto dest: syncBiz_keeps split: outcome.splits)

lemma collectOne_keeps: "I (snd s) \<Longrightarrow> I (snd (collectOne (providerEnvOf o') d s))"
  by (auto simp: collectOne_def dest: cacheGetPod_keeps split: prod.splits sum.splits)

lemma collectUpdates_keeps:
  assumes "I pc"
  shows "I (snd (collectUpdates (providerEnvOf o') now ds pods pc))"
proof -
  have containers: "I (snd (fold (\<lambda>c. collectOne (providerEnvOf o') (f c)) cs s))" if "I (snd s)" for f cs s
    using that by (induction cs arbitrary: s) (simp_all add: collectOne_keeps)
  have "I (snd (fold (\<lambda>pod. fold (\<lambda>c. collectOne (providerEnvOf o') (f pod c)) (elems (Containers pod))) pods s))"
    if "I (snd s)" for f s
    using that by (induction pods arbitrary: s) (simp_all add: containers)
  with assms show ?thesis by (simp add: collectUpdates_def)
qed

lemma SyncAll_keeps:
  assumes "SyncAllBizStatusToKube (providerEnvOf o') order now clk ds s = Ok s'" "both s"
  shows "both s'"
proof -
  obtain b pc l pc1 where s: "s = (b, pc)"
    "collectUpdates (providerEnvOf o') now ds (sortedPods order (vPodStore b)) pc = (l, pc1)" by (metis surj_pair)
  then have "I pc1" using collectUpdates_keeps [of pc now ds "sortedPods order (vPodStore b)"] assms(2)
    by (simp add: both_def)
  moreover have "syncEach (providerEnvOf o') clk l (b, pc1) = Ok s'"
    using assms(1) s by (simp add: SyncAllBizStatusToKube_def)
  ultimately show ?thesis using syncEach_keeps assms(2) s(1) by (simp add: both_def)
qed

lemma deletion_keeps:
  "DeletePod (providerEnvOf o') (Some p) b pc = Some (e, s') \<Longrightarrow> both (b, pc) \<Longrightarrow> both s'"
  by (cases s') (auto simp: both_def dest: DeletePod_keeps [OF _ provider_keeps] provider_results(3))

end


section \<open>The kubelet of a node is consistent\<close>

definition kubelet_ok :: "('r, 'x vworld) pcState \<Rightarrow> bool" where
  "kubelet_ok pc \<longleftrightarrow>
     queue_inv (syncPodsFromKubernetes pc) \<and> queue_inv (deletePodsFromKubernetes pc) \<and>
     queue_inv (syncPodStatusFromProvider pc) \<and> known_ok pc \<and> vpods.filed (vPodStore (vprovider (world pc)))"

lemma known_ok_cong:
  "knownPods pc' = knownPods pc \<Longrightarrow> kpFresh pc' = kpFresh pc \<Longrightarrow> known_ok pc' = known_ok pc"
  by (simp add: known_ok_def)

interpretation consistent: pc_invariant o' kubelet_ok "\<lambda>b. vpods.filed (vPodStore b)"
  for o' :: "('r, 'x) outside"
proof
  fix pc :: "('r, 'x vworld) pcState" and b :: VPodProvider and env g p k a f d
  show "kubelet_ok pc \<Longrightarrow> kubelet_ok (updOuter g pc)"
    by (simp add: kubelet_ok_def updOuter_def known_ok_def)
  show "kubelet_ok pc \<Longrightarrow> kubelet_ok (AddKnownPod p pc)"
    using known_ok_add [of pc p] by (simp add: kubelet_ok_def AddKnownPod_def)
  show "kubelet_ok pc \<Longrightarrow> kubelet_ok (DeleteKnownPod k pc)"
    using known_ok_delete [of pc k] by (simp add: kubelet_ok_def DeleteKnownPod_def)
  show "kubelet_ok pc \<Longrightarrow> kubelet_ok (setKnown a f pc)"
    using known_ok_set [of a f pc] by (simp add: kubelet_ok_def setKnown_def)
  show "kubelet_ok pc \<Longrightarrow> kubelet_ok (enqueueStatus env k pc)"
    by (simp add: kubelet_ok_def enqueueStatus_def known_ok_def rated.enq_ok)
  show "kubelet_ok pc \<Longrightarrow> kubelet_ok (enqueueDelete env k pc)"
    by (simp add: kubelet_ok_def enqueueDelete_def known_ok_def prompt.enq_ok)
  show "kubelet_ok pc \<Longrightarrow> kubelet_ok (enqueueDeleteAfter env k d pc)"
    by (simp add: kubelet_ok_def enqueueDeleteAfter_def known_ok_def delayed.enq_ok)
  show "kubelet_ok pc \<Longrightarrow> vpods.filed (vPodStore (vprovider (world pc)))"
    by (simp add: kubelet_ok_def)
  show "kubelet_ok pc \<Longrightarrow> vpods.filed (vPodStore b) \<Longrightarrow> kubelet_ok (setProvider b pc)"
    by (simp add: kubelet_ok_def setProvider_def known_ok_def)
  show "vpods.filed (vPodStore b) \<Longrightarrow> vpods.filed (vPodStore (b\<lparr>vPodStore := PutPod p (vPodStore b)\<rparr>))"
    by (simp add: vpods.filed_put)
  show "vpods.filed (vPodStore b) \<Longrightarrow> vpods.filed (vPodStore (b\<lparr>vPodStore := storeDeletePod k (vPodStore b)\<rparr>))"
    by (simp add: vpods.filed_del)
qed

text \<open>No handler, operation of the provider or callback touches the queue of keys to sync.\<close>

interpretation quietSync: pc_invariant o' "\<lambda>pc. syncPodsFromKubernetes pc = q" "\<lambda>_. True"
  for o' :: "('r, 'x) outside" and q
  by unfold_locales (simp_all add: updOuter_def AddKnownPod_def DeleteKnownPod_def setKnown_def
      enqueueStatus_def enqueueDelete_def enqueueDeleteAfter_def setProvider_def)

section \<open>A round of a worker\<close>

text \<open>
  \<open>handleQueueItem\<close> with the handler of its queue: a key is taken, handled and finished. The
  queue is a part of the state that the handler works on; \<open>now\<close> is the clock when the worker
  looks, \<open>until\<close> and \<open>later\<close> when it finishes.
\<close>

definition handleQueueItem ::
  "(('r, 'w) pcState \<Rightarrow> 'r queue) \<Rightarrow> ('r queue \<Rightarrow> ('r, 'w) pcState \<Rightarrow> ('r, 'w) pcState) \<Rightarrow> 'r rateLimiter \<Rightarrow>
   (string \<Rightarrow> ('r, 'w) pcState \<Rightarrow> (goerror option \<times> ('r, 'w) pcState) run) \<Rightarrow> gotime \<Rightarrow> gotime \<Rightarrow> gotime \<Rightarrow>
   ('r, 'w) pcState \<Rightarrow> ('r, 'w) pcState run" where
  "handleQueueItem get put rl handler now until later pc =
     (case getNextItem now (get pc) of
        (Take a, q) \<Rightarrow>
          (case handler (key (heap q a)) (put q pc) of
             Returns (err, pc) \<Rightarrow>
               Returns (put (snd (handleQueueItemObject rl DefaultRetryFunc until later err a (get pc))) pc)
           | Panics \<Rightarrow> Panics
           | Diverges \<Rightarrow> Diverges)
      | (_, q) \<Rightarrow> Returns (put q pc))"

text \<open>The three queues with their handlers, as \<open>NewPodController\<close> wires them.\<close>

definition syncWork ::
  "('r, 'w) pcEnv \<Rightarrow> gotime \<Rightarrow> gotime \<Rightarrow> gotime \<Rightarrow> ('r, 'w) pcState \<Rightarrow> ('r, 'w) pcState run" where
  "syncWork env = handleQueueItem syncPodsFromKubernetes (\<lambda>q pc. pc\<lparr>syncPodsFromKubernetes := q\<rparr>)
     (rlSync env) (syncPodsFromKubernetesHandler env)"

definition deleteWork ::
  "('r, 'w) pcEnv \<Rightarrow> gotime \<Rightarrow> gotime \<Rightarrow> gotime \<Rightarrow> ('r, 'w) pcState \<Rightarrow> ('r, 'w) pcState run" where
  "deleteWork env = handleQueueItem deletePodsFromKubernetes (\<lambda>q pc. pc\<lparr>deletePodsFromKubernetes := q\<rparr>)
     (rlDelete env) (deletePodsFromKubernetesHandler env)"

definition statusWork ::
  "('r, 'w) pcEnv \<Rightarrow> gotime \<Rightarrow> gotime \<Rightarrow> gotime \<Rightarrow> ('r, 'w) pcState \<Rightarrow> ('r, 'w) pcState run" where
  "statusWork env = handleQueueItem syncPodStatusFromProvider (\<lambda>q pc. pc\<lparr>syncPodStatusFromProvider := q\<rparr>)
     (rlStatus env) (\<lambda>k pc. Returns (syncPodStatusFromProviderHandler env k pc))"

text \<open>What the queue owes after an undisturbed round whose handler succeeded: no longer its key.\<close>

lemma round_owed:
  assumes inv: "queue_inv q" and take: "getNextItem now q = (Take a, q1)"
    and q2: "q2 = snd (handleQueueItemObject rl retry until later None a q1)"
  shows "queue_inv q2" "owed q2 = owed q - {key (heap q a)}"
    "working (absQueue q2) = (working (absQueue q))(key (heap q a) := None)"
proof -
  note t = getNextItem_Take [OF inv take]
  have q1: "queue_inv q1" using getNextItem_inv [OF inv, of now] take by simp
  then show "queue_inv q2" unfolding q2 by (rule handleQueueItemObject_inv)
  have a: "isProcessing q1 a" using t by (simp add: isProcessing_def)
  have "redirtiedAt (heap q1 a) = zeroTime" "\<not> forget (heap q1 a)"
    using inv_item [OF inv, of a] t by auto
  then have "nextStart rl retry until later None (heap q1 a) (limiter q1) = None"
    by (simp add: nextStart_def redirtyStart_def IsZero_def)
  then have "absQueue q2 = finish (key (heap q a)) None (start (key (heap q a)) (absQueue q))"
    using handleQueueItemObject_abs [OF q1 a, of rl retry until later None] getNextItem_abs(1) [OF inv take] t(4)
    by (simp add: q2)
  then show "owed q2 = owed q - {key (heap q a)}"
    "working (absQueue q2) = (working (absQueue q))(key (heap q a) := None)"
    by (auto simp: owed_def finish_def start_def simp del: absQueue_simps)
qed


section \<open>The steps of a kubelet\<close>

text \<open>
  What the goroutines of a running pod controller do, next to the operations that the virtual node
  calls: a worker takes, handles or finishes a key of one of the queues, in any interleaving with
  the others; the pods that dangle are deleted; a status that was skipped is looked at again.
\<close>

inductive kubeletStep :: "('r, 'x) outside \<Rightarrow> ('r, 'x vworld) pcState \<Rightarrow> ('r, 'x vworld) pcState \<Rightarrow> bool"
  for o' :: "('r, 'x) outside"
where
  SyncTake: "getNextItem now (syncPodsFromKubernetes pc) = (i, q) \<Longrightarrow>
    kubeletStep o' pc (pc\<lparr>syncPodsFromKubernetes := q\<rparr>)"
| SyncHandle: "syncPodsFromKubernetesHandler (kubeletEnv o') k pc = Returns (e, pc') \<Longrightarrow> kubeletStep o' pc pc'"
| SyncFinish: "handleQueueItemObject (rlSync (kubeletEnv o')) DefaultRetryFunc until later e a
      (syncPodsFromKubernetes pc) = (e', q) \<Longrightarrow> kubeletStep o' pc (pc\<lparr>syncPodsFromKubernetes := q\<rparr>)"
| DeleteTake: "getNextItem now (deletePodsFromKubernetes pc) = (i, q) \<Longrightarrow>
    kubeletStep o' pc (pc\<lparr>deletePodsFromKubernetes := q\<rparr>)"
| DeleteHandle: "deletePodsFromKubernetesHandler (kubeletEnv o') k pc = Returns (e, pc') \<Longrightarrow> kubeletStep o' pc pc'"
| DeleteFinish: "handleQueueItemObject (rlDelete (kubeletEnv o')) DefaultRetryFunc until later e a
      (deletePodsFromKubernetes pc) = (e', q) \<Longrightarrow> kubeletStep o' pc (pc\<lparr>deletePodsFromKubernetes := q\<rparr>)"
| StatusTake: "getNextItem now (syncPodStatusFromProvider pc) = (i, q) \<Longrightarrow>
    kubeletStep o' pc (pc\<lparr>syncPodStatusFromProvider := q\<rparr>)"
| StatusHandle: "syncPodStatusFromProviderHandler (kubeletEnv o') k pc = (e, pc') \<Longrightarrow> kubeletStep o' pc pc'"
| StatusFinish: "handleQueueItemObject (rlStatus (kubeletEnv o')) DefaultRetryFunc until later e a
      (syncPodStatusFromProvider pc) = (e', q) \<Longrightarrow> kubeletStep o' pc (pc\<lparr>syncPodStatusFromProvider := q\<rparr>)"
| Dangling: "deleteDanglingPods (kubeletEnv o') arrange pc = Some pc' \<Longrightarrow> kubeletStep o' pc pc'"
| Recheck: "CheckAndUpdatePodStatus (kubeletEnv o') k p pc = Ok pc' \<Longrightarrow> kubeletStep o' pc pc'"

lemma kubelet_ok_queues:
  "kubelet_ok pc \<Longrightarrow> queue_inv q \<Longrightarrow> kubelet_ok (pc\<lparr>syncPodsFromKubernetes := q\<rparr>)"
  "kubelet_ok pc \<Longrightarrow> queue_inv q \<Longrightarrow> kubelet_ok (pc\<lparr>deletePodsFromKubernetes := q\<rparr>)"
  "kubelet_ok pc \<Longrightarrow> queue_inv q \<Longrightarrow> kubelet_ok (pc\<lparr>syncPodStatusFromProvider := q\<rparr>)"
  by (simp_all add: kubelet_ok_def known_ok_def)

lemma kubelet_ok_inv:
  "kubelet_ok pc \<Longrightarrow> queue_inv (syncPodsFromKubernetes pc)"
  "kubelet_ok pc \<Longrightarrow> queue_inv (deletePodsFromKubernetes pc)"
  "kubelet_ok pc \<Longrightarrow> queue_inv (syncPodStatusFromProvider pc)"
  by (simp_all add: kubelet_ok_def)

lemma queue_ops_inv:
  "getNextItem now q = (i, q') \<Longrightarrow> queue_inv q \<Longrightarrow> queue_inv q'"
  "handleQueueItemObject rl retry until later e a q = (e', q') \<Longrightarrow> queue_inv q \<Longrightarrow> queue_inv q'"
  using getNextItem_inv [of q now] handleQueueItemObject_inv [of q rl retry until later e a] by simp_all

lemma kubeletStep_ok: "kubeletStep o' pc pc' \<Longrightarrow> kubelet_ok pc \<Longrightarrow> kubelet_ok pc'"
  by (induction rule: kubeletStep.induct)
    (blast intro: kubelet_ok_queues queue_ops_inv kubelet_ok_inv dest: consistent.syncHandler_keeps
       consistent.deleteHandler_keeps consistent.statusHandler_keeps consistent.deleteDanglingPods_keeps
       consistent.checkStatus_keeps)+

text \<open>A round of a worker of any of the queues is a sequence of steps, when its parts are.\<close>

lemma handleQueueItem_steps:
  assumes run: "handleQueueItem get put rl handler now until later p = Returns p'"
    and take: "\<And>p i q. getNextItem now (get p) = (i, q) \<Longrightarrow> R p (put q p)"
    and handle: "\<And>p k e p'. handler k p = Returns (e, p') \<Longrightarrow> R p p'"
    and finish: "\<And>p e a e' q. handleQueueItemObject rl DefaultRetryFunc until later e a (get p) = (e', q) \<Longrightarrow>
      R p (put q p)"
  shows "R\<^sup>*\<^sup>* p p'"
proof -
  obtain i q where look: "getNextItem now (get p) = (i, q)" by fastforce
  show ?thesis
  proof (cases i)
    case (Take a)
    with run look obtain e p2 where 2: "handler (key (heap q a)) (put q p) = Returns (e, p2)"
      and p': "p' = put (snd (handleQueueItemObject rl DefaultRetryFunc until later e a (get p2))) p2"
      by (auto simp: handleQueueItem_def split: run.splits)
    have "R p2 p'" unfolding p' by (rule finish [OF surjective_pairing])
    with take [OF look] handle [OF 2] show ?thesis
      by (meson converse_rtranclp_into_rtranclp rtranclp.rtrancl_refl)
  qed (use run look take [OF look] in \<open>auto simp: handleQueueItem_def\<close>)
qed

lemma syncWork_steps:
  "syncWork (kubeletEnv o') now until later p = Returns p' \<Longrightarrow> (kubeletStep o')\<^sup>*\<^sup>* p p'"
  unfolding syncWork_def
  by (erule handleQueueItem_steps) (fact SyncTake SyncHandle SyncFinish)+

lemma deleteWork_steps:
  "deleteWork (kubeletEnv o') now until later p = Returns p' \<Longrightarrow> (kubeletStep o')\<^sup>*\<^sup>* p p'"
  unfolding deleteWork_def
  by (erule handleQueueItem_steps) (fact DeleteTake DeleteHandle DeleteFinish)+

lemma statusWork_steps:
  "statusWork (kubeletEnv o') now until later p = Returns p' \<Longrightarrow> (kubeletStep o')\<^sup>*\<^sup>* p p'"
  unfolding statusWork_def
  by (erule handleQueueItem_steps) (simp_all add: StatusTake StatusHandle StatusFinish)

section \<open>A round converges\<close>

text \<open>What a successful handler of a queue leaves behind when its round is over.\<close>

lemma handleQueueItem_success:
  assumes inv: "queue_inv (get p)"
    and take: "getNextItem now (get p) = (Take a, q)" "key (heap q a) = k"
    and run: "handler k (put q p) = Returns (None, p1)" "get p1 = q"
  shows "\<exists>q2. handleQueueItem get put rl handler now until later p = Returns (put q2 p1) \<and>
    owed q2 = owed (get p) - {k}"
  using round_owed(2) [OF inv take(1) refl] getNextItem_Take(4) [OF inv take(1)] take run
  by (simp add: handleQueueItem_def) blast

lemma syncWork_success:
  assumes inv: "queue_inv (syncPodsFromKubernetes p)"
    and take: "getNextItem now (syncPodsFromKubernetes p) = (Take a, q)" "key (heap q a) = k"
    and run: "syncPodsFromKubernetesHandler (kubeletEnv o') k (p\<lparr>syncPodsFromKubernetes := q\<rparr>) = Returns (None, p1)"
  shows "\<exists>p'. syncWork (kubeletEnv o') now until later p = Returns p' \<and> world p' = world p1 \<and>
    owed (syncPodsFromKubernetes p') = owed (syncPodsFromKubernetes p) - {k}"
proof -
  have quiet: "syncPodsFromKubernetes p1 = q" by (rule quietSync.syncHandler_keeps [OF run]) simp
  show ?thesis
    using handleQueueItem_success [where get = syncPodsFromKubernetes and put = "\<lambda>q p. p\<lparr>syncPodsFromKubernetes := q\<rparr>" and
        p = p and handler = "syncPodsFromKubernetesHandler (kubeletEnv o')" and ?p1.0 = p1, OF inv take run quiet,
        of "rlSync (kubeletEnv o')" until later]
    by (auto simp: syncWork_def)
qed

lemma storedPods_queue [simp]: "storedPods (pc\<lparr>syncPodsFromKubernetes := q\<rparr>) = storedPods pc"
  by (simp add: storedPods_def)

lemma storedPods_world: "world pc = world pc' \<Longrightarrow> storedPods pc = storedPods pc'"
  by (simp add: storedPods_def)

text \<open>Enqueueing a key that no other precedes: it is the first one taken once it is due.\<close>

lemma first_taken:
  assumes inv: "queue_inv q" and idle: "items q = []" "itemsBeingProcessed q k = None"
    and due: "startTime rl now k True None (limiter q) \<le> t"
  shows "\<exists>a q1. getNextItem t (Enqueue rl now k q) = (Take a, q1) \<and> key (heap q1 a) = k"
proof -
  have index: "itemsInQueue q = Map.empty"
  proof
    show "itemsInQueue q j = None" for j using inv_index [OF inv, of j] idle(1) by (cases "itemsInQueue q j") auto
  qed
  obtain val l where s: "scheduleNew rl now k True None (limiter q) = (val, l)" by fastforce
  have val: "key val = k" "plannedToStartWorkAt val = startTime rl now k True None (limiter q)"
    using s by (auto simp: scheduleNew_def newItem_def startTime_def split: prod.splits)
  have e: "Enqueue rl now k q = q\<lparr>heap := (heap q)(fresh q := val), fresh := Suc (fresh q), limiter := l,
      items := [fresh q], itemsInQueue := [k \<mapsto> fresh q], wakeupCh := True\<rparr>"
    by (simp add: Enqueue_def insertItem_def insertNew_def idle index s Let_def)
  show ?thesis
    using due val by (simp add: e getNextItem_def Let_def Sub_le_0_iff)
qed

text \<open>A round of the status queue that reaches the cluster.\<close>

lemma kubelet_api:
  "apiGet (kubeletEnv o') ns n = onOuter (oApiGet o' ns n)"
  "apiStatusPatch (kubeletEnv o') p r = onOuter (oStatusPatch o' p r)"
  "splitMetaKey (kubeletEnv o') = oSplitKey o'"
  by (simp_all add: kubeletEnv_def baseEnv_def)

lemma statusWork_delivers:
  assumes inv: "queue_inv (syncPodStatusFromProvider p)"
    and take: "getNextItem now (syncPodStatusFromProvider p) = (Take i, q)" "key (heap q i) = k"
    and k: "oSplitKey o' k = Inr (ns, n)"
    and api: "oApiGet o' ns n (outer (world p)) = (Inr c, x)" "\<not> shouldSkipPodStatusUpdate c"
    and known: "knownPods p k = Some a" "lastPodStatusReceivedFromProvider (kpHeap p a) = r" "DeletionTimestamp r = None"
    and patch: "oStatusPatch o' (c\<lparr>Status := Status r\<rparr>) c x = (None, y)"
  shows "\<exists>p'. statusWork (kubeletEnv o') now until later p = Returns p' \<and>
    world p' = (world p)\<lparr>outer := y\<rparr> \<and>
    owed (syncPodStatusFromProvider p') = owed (syncPodStatusFromProvider p) - {k}"
proof -
  let ?p = "p\<lparr>syncPodStatusFromProvider := q\<rparr>"
  let ?p1 = "?p\<lparr>world := (world p)\<lparr>outer := y\<rparr>\<rparr>"
  have run: "syncPodStatusFromProviderHandler (kubeletEnv o') k ?p = (None, ?p1)"
    using api known patch
    by (simp add: syncPodStatusFromProviderHandler_def kubelet_api k onOuter_def updatePodStatus_def deleteFromProvider_def Let_def)
  then show ?thesis
    using handleQueueItem_success [where get = syncPodStatusFromProvider and
        put = "\<lambda>q p. p\<lparr>syncPodStatusFromProvider := q\<rparr>" and p = p and
        handler = "\<lambda>k p. Returns (syncPodStatusFromProviderHandler (kubeletEnv o') k p)" and ?p1.0 = ?p1,
        OF inv take, of "rlStatus (kubeletEnv o')" until later]
    by (auto simp: statusWork_def)
qed

text \<open>The report of a biz: the provider takes the status over, and the controller owes it to the cluster.\<close>

lemma report_owed:
  assumes stored: "storedPods p (PodKey d) = Some pod"
    and cached: "GetNameSpaceAndNameFromPodKey (PodKey d) = (ns, n)" "oCacheGet o' ns n (outer (world p)) = (Inr c, x)"
      "CheckContainerStatusNeedSync c d"
    and st: "GetPodStatus t1 t2 pod d (vprovider (world p)) = Ok st"
    and known: "oMetaKey o' (pod\<lparr>Status := st\<rparr>) = Inr k" "knownPods p k = Some a" "oPolls o' \<noteq> 0"
      "lastPodStatusReceivedFromProvider (kpHeap p a) \<noteq> pod\<lparr>Status := st\<rparr>"
  shows "SyncBizStatusToKube (providerEnvOf o') t1 t2 d (vprovider (world p), p) =
    Ok ((vprovider (world p))\<lparr>vPodStore := PutPod (pod\<lparr>Status := st\<rparr>) (vPodStore (vprovider (world p)))\<rparr>,
      enqueueStatus (baseEnv o') k (setKnown a (\<lambda>kp. kp\<lparr>lastPodStatusUpdateSkipped := False,
         lastPodStatusReceivedFromProvider := pod\<lparr>Status := st\<rparr>\<rparr>) (p\<lparr>world := (world p)\<lparr>outer := x\<rparr>\<rparr>)))"
proof -
  obtain m where m: "oPolls o' = Suc m" using known(3) by (cases "oPolls o'") auto
  have "metaKeyFunc (baseEnv o') = oMetaKey o'" by (simp add: baseEnv_def)
  then show ?thesis
    using stored cached st known
    by (simp add: SyncBizStatusToKube_def syncBizStatusToKube_def storedPods_def providerEnvOf_def onOuter_def
        enqueuePodStatusUpdate_def m Let_def)
qed

end
