(* ===== verification/Kubelet_Calls.thy ===== *)
theory Kubelet_Calls
  imports Kubelet_Inv
begin

text \<open>
  The calls that the kubelet of a node makes to its tunnel. A record \<open>L\<close> of the calls is any
  observation of the outside to which starting and stopping a biz add themselves and that nothing else
  changes; the lemmas say by which calls an operation of the provider or a handler extends it.
\<close>

section \<open>Operations of the provider\<close>

text \<open>An environment whose calls to the tunnel are recorded.\<close>

definition records :: "('w \<Rightarrow> providerCall list) \<Rightarrow> 'w providerEnv \<Rightarrow> bool" where
  "records L env \<longleftrightarrow>
     (\<forall>n k c w. L (snd (StartBiz env n k c w)) = L w @ [CStart n k c] \<and>
        L (snd (StopBiz env n k c w)) = L w @ [CStop n k c]) \<and>
     (\<forall>p w. L (notify env p w) = L w) \<and>
     (\<forall>ns n w. L (snd (cacheGetPod env ns n w)) = L w \<and> L (snd (clientGetPod env ns n w)) = L w) \<and>
     (\<forall>d w. L (recordEvent (trk env) d w) = L w \<and> L (report (trk env) d w) = L w)"

lemma retried_calls:
  assumes run: "FuncTrack t tid sc ev lbl (retryTunnel env call code) w = Some (r, w')"
    and call: "\<And>w. L (snd (call w)) = L w @ [c]"
    and log: "\<And>d w. L (recordEvent t d w) = L w \<and> L (report t d w) = L w"
  shows "\<exists>n. L w' = L w @ replicate (Suc n) c"
proof -
  let ?call = "\<lambda>(_::nat) w. case call w of (innerErr, w) \<Rightarrow> (innerErr \<noteq> None, innerErr, w)"
  obtain e code' w1 where 1: "retryTunnel env call code w = Some ((e, code'), w1)"
    using run by (cases "retryTunnel env call code w") (auto simp: FuncTrack_def Let_def)
  then obtain e' where r: "CallWithRetry ?call None (ctxWait env) w = Some (e', w1)"
    by (auto simp: retryTunnel_def split: option.splits)
  obtain n where n: "w1 = stateAfter ?call w (Suc n)"
    using CallWithRetry_state [OF r [unfolded CallWithRetry_None]] ..
  have "L (stateAfter ?call w m) = L w @ replicate m c" for m
    by (induction m) (simp_all add: call case_prod_beta replicate_append_same)
  then have "L w1 = L w @ replicate (Suc n) c" unfolding n .
  moreover have "L w' = L w1" using run 1 log by (auto simp: FuncTrack_def Let_def split: if_splits)
  ultimately show ?thesis by metis
qed

lemma foldOpt_calls:
  assumes "foldOpt f xs w = Some w'"
    and "\<And>x w w'. f x w = Some w' \<Longrightarrow> \<exists>n. L w' = L w @ replicate (Suc n) (c x)"
  shows "\<exists>tr. L w' = L w @ tr \<and> repeats (map c xs) tr"
  using assms(1)
proof (induction xs arbitrary: w)
  case (Cons x xs)
  then obtain w1 where w1: "f x w = Some w1" "foldOpt f xs w1 = Some w'" by (auto split: option.splits)
  obtain n where "L w1 = L w @ replicate (Suc n) (c x)" using assms(2) [OF w1(1)] by blast
  moreover obtain tr where "L w' = L w1 @ tr" "repeats (map c xs) tr" using Cons.IH [OF w1(2)] by blast
  ultimately show ?case by (intro exI [of _ "replicate (Suc n) (c x) @ tr"]) auto
qed simp

lemma batch_calls:
  assumes "records L env"
  shows "handleBizBatchStart env b pod cs w = Some w' \<Longrightarrow>
      \<exists>tr. L w' = L w @ tr \<and> repeats (map (CStart (nodeName b) (GetPodKey (Some pod))) cs) tr"
    and "handleBizBatchStop env b pod cs w = Some w' \<Longrightarrow>
      \<exists>tr. L w' = L w @ tr \<and> repeats (map (CStop (nodeName b) (stopKey pod)) cs) tr"
proof -
  have env: "L (snd (StartBiz env n k c w)) = L w @ [CStart n k c]" "L (snd (StopBiz env n k c w)) = L w @ [CStop n k c]"
    "L (recordEvent (trk env) d w) = L w \<and> L (report (trk env) d w) = L w" for n k c d w
    using assms by (simp_all add: records_def)
  have tracked: "\<exists>n. L w' = L w @ replicate (Suc n) c"
    if "map_option snd (FuncTrack (trk env) tid sc ev lbl (retryTunnel env call code) w) = Some w'"
      "\<And>w. L (snd (call w)) = L w @ [c]" for tid sc ev lbl call code c w w'
    using that retried_calls [where L = L, OF _ that(2) env(3)] by (auto simp del: replicate.simps)
  show "handleBizBatchStart env b pod cs w = Some w' \<Longrightarrow>
      \<exists>tr. L w' = L w @ tr \<and> repeats (map (CStart (nodeName b) (GetPodKey (Some pod))) cs) tr"
    unfolding handleBizBatchStart_def Let_def by (erule foldOpt_calls) (erule tracked, rule env)
  show "handleBizBatchStop env b pod cs w = Some w' \<Longrightarrow>
      \<exists>tr. L w' = L w @ tr \<and> repeats (map (CStop (nodeName b) (stopKey pod)) cs) tr"
    unfolding handleBizBatchStop_def Let_def stopKey_def by (erule foldOpt_calls) (erule tracked, rule env)
qed

lemma CreatePod_calls:
  assumes "records L env" "CreatePod env p b w = Some (e, b', w')"
  shows "\<exists>tr. L w' = L w @ tr \<and> repeats (map (CStart (nodeName b) (GetPodKey (Some p))) (elems (Containers p))) tr"
proof -
  obtain w1 where w1: "handleBizBatchStart env (b\<lparr>vPodStore := PutPod p (vPodStore b)\<rparr>) p (elems (Containers p)) w = Some w1"
    "w' = notify env p w1"
    using assms(2) by (auto simp: CreatePod_def Let_def split: option.splits)
  then have "L w' = L w1" using assms(1) by (simp add: records_def)
  with batch_calls(1) [OF assms(1) w1(1)] show ?thesis by simp
qed

lemma DeletePod_calls:
  assumes "records L env" "DeletePod env (Some p) b w = Some (e, b', w')"
  shows "\<exists>tr. L w' = L w @ tr \<and> repeats (map (CStop (nodeName b) (stopKey p)) (elems (Containers p))) tr"
proof -
  obtain w1 where w1: "handleBizBatchStop env (b\<lparr>vPodStore := storeDeletePod (GetPodKey (Some p)) (vPodStore b)\<rparr>) p
      (elems (Containers p)) w = Some w1" "w' = notify env p w1"
    using assms(2) by (auto simp: DeletePod_def Let_def split: option.splits)
  then have "L w' = L w1" using assms(1) by (simp add: records_def)
  with batch_calls(2) [OF assms(1) w1(1)] show ?thesis by simp
qed

text \<open>An update first stops what changed; what it starts then, all or nothing, it starts in one go.\<close>

definition updateCalls ::
  "((string \<rightharpoonup> Container) \<Rightarrow> string list) \<Rightarrow> string \<Rightarrow> Pod \<Rightarrow> Pod \<Rightarrow> providerCall list \<Rightarrow> bool" where
  "updateCalls order node old p tr \<longleftrightarrow>
     (let o1 = order (containerMap (elems (Containers old))); o2 = order (containerMap (elems (Containers p)))
      in \<exists>ts tt. tr = ts @ tt \<and> repeats (map (CStop node (stopKey old)) (stopsOf o1 old p)) ts \<and>
           (tt = [] \<or> repeats (map (CStart node (GetPodKey (Some p))) (startsOf o1 o2 old p)) tt))"

lemma CheckAndFinallyCall_calls:
  assumes "n \<le> m" "timedOut m" "CheckAndFinallyCall check timedOut passed late n x = Some (e, x')"
    and check: "\<And>x. M (snd (check x)) = M x" and late: "\<And>x. M (late x) = M x"
    and passed: "\<And>x x'. passed x = Some x' \<Longrightarrow> \<exists>tr. M x' = M x @ tr \<and> R tr"
  shows "\<exists>tr. M x' = M x @ tr \<and> (tr = [] \<or> R tr)"
  using assms(1-3)
proof (induction arbitrary: x rule: inc_induct)
  case base
  then show ?case by (subst (asm) CheckAndFinallyCall.simps) (auto simp: late)
next
  case (step n)
  obtain b err t where c: "check x = ((b, err), t)" by (metis surj_pair)
  have M: "M t = M x" using check [of x] by (simp add: c)
  have unfold: "CheckAndFinallyCall check timedOut passed late n x = (if timedOut n then Some (Some (ErrText ''check time out''), late x)
      else case err of Some e' \<Rightarrow> Some (Some (ErrWrap ''Error when checking condition'' e'), t)
      | None \<Rightarrow> if b then map_option (Pair None) (passed t)
          else CheckAndFinallyCall check timedOut passed late (Suc n) t)"
    by (subst CheckAndFinallyCall.simps) (simp add: c)
  note run = step.prems(2) [unfolded unfold]
  consider "timedOut n" | e' where "\<not> timedOut n" "err = Some e'"
    | "\<not> timedOut n" "err = None" b | "\<not> timedOut n" "err = None" "\<not> b" by (cases err) auto
  then show ?case
  proof cases
    case 3
    with run passed M show ?thesis by fastforce
  next
    case 4
    with run have "CheckAndFinallyCall check timedOut passed late (Suc n) t = Some (e, x')" by simp
    from step.IH [OF step.prems(1) this] M show ?thesis by simp
  qed (use run late M in auto)
qed

lemma Eventually_calls:
  assumes run: "Eventually t tid sc ev lbl code check timedOut passed (\<lambda>w. w) s = Some s'" and "timedOut m"
    and check: "\<And>s. L (snd (check s)) = L s"
    and passed: "\<And>s s'. passed s = Some s' \<Longrightarrow> \<exists>tr. L s' = L s @ tr \<and> R tr"
    and log: "\<And>d s. L (recordEvent t d s) = L s \<and> L (report t d s) = L s"
  shows "\<exists>tr. L s' = L s @ tr \<and> (tr = [] \<or> R tr)"
proof -
  let ?c = "\<lambda>(s, data :: logData, checkTimeout :: bool). case check s of (r, s') \<Rightarrow> (r, (s', data, checkTimeout))"
  let ?p = "\<lambda>(s, data :: logData, checkTimeout :: bool). map_option (\<lambda>s. (s, data, checkTimeout)) (passed s)"
  let ?l = "\<lambda>(s, data, checkTimeout :: bool). (s, data\<lparr>Code := code\<rparr>, True)"
  let ?d = "\<lparr>TraceID = tid, Scene = sc, Event = ev, TimeUsed = 0,
                  Result = EventSuccess, Message = None, Code = CodeSuccess, ld_Labels = lbl\<rparr>"
  obtain e s1 d1 b1 where 1: "CheckAndFinallyCall ?c timedOut ?p ?l 0 (s, ?d, False) = Some (e, (s1, d1, b1))"
    using run unfolding Eventually_def Let_def by (auto split: option.splits)
  have "\<exists>tr. L (fst (s1, d1, b1)) = L (fst (s, ?d, False)) @ tr \<and> (tr = [] \<or> R tr)"
    by (rule CheckAndFinallyCall_calls [where M = "\<lambda>x. L (fst x)", OF _ assms(2) 1])
      (use check passed in \<open>auto simp: case_prod_beta\<close>)
  moreover have "L s' = L s1" using run 1 log unfolding Eventually_def Let_def by (auto split: if_splits)
  ultimately show ?thesis by simp
qed

lemma UpdatePod_calls_made:
  assumes env: "records L env" "updateTimedOut env m"
    and run: "UpdatePod env (order (containerMap (elems (Containers old)))) (order (containerMap (elems (Containers p)))) p b w = Some (e, b', w')"
    and old: "DeletionTimestamp p = None" "GetPodByKey (vPodStore b) (GetPodKey (Some p)) = Some old"
  shows "\<exists>tr. L w' = L w @ tr \<and> updateCalls order (nodeName b) old p tr"
proof -
  let ?o1 = "order (containerMap (elems (Containers old)))" and ?o2 = "order (containerMap (elems (Containers p)))"
  let ?stop = "stopsOf ?o1 old p" and ?start = "startsOf ?o1 ?o2 old p"
  let ?b = "b\<lparr>vPodStore := PutPod p (vPodStore b)\<rparr>"
  let ?R = "repeats (map (CStart (nodeName b) (GetPodKey (Some p))) ?start)"
  have notify: "L (notify env p w) = L w" for w using env(1) by (simp add: records_def)
  obtain w1 where w1: "(if ?stop \<noteq> [] then handleBizBatchStop env b old ?stop w else Some w) = Some w1"
    and rest: "?start = [] \<and> w' = notify env p w1 \<or>
      (\<exists>w2. Eventually (trk env) (mapGetStr (Labels p) LabelKeyOfTraceID) TrackSceneVPodDeploy
         TrackEventVPodUpdate (Labels p) CodeContainerStartTimeout (checkStopped env p ?stop)
         (updateTimedOut env) (handleBizBatchStart env ?b p ?start) (\<lambda>w. w) w1 = Some w2 \<and> w' = notify env p w2)"
    using run old unfolding stopsOf_def startsOf_def
    by (simp add: UpdatePod_def Let_def split: option.splits if_splits; blast)
  obtain ts where ts: "L w1 = L w @ ts" "repeats (map (CStop (nodeName b) (stopKey old)) ?stop) ts"
  proof (cases "?stop = []")
    case False
    with w1 batch_calls(2) [OF env(1), of b old ?stop w w1] that show ?thesis by auto
  qed (use w1 that [of "[]"] in simp)
  from rest have "\<exists>tt. L w' = L w1 @ tt \<and> (tt = [] \<or> ?R tt)"
  proof (elim disjE exE conjE)
    fix w2
    assume 2: "Eventually (trk env) (mapGetStr (Labels p) LabelKeyOfTraceID) TrackSceneVPodDeploy
         TrackEventVPodUpdate (Labels p) CodeContainerStartTimeout (checkStopped env p ?stop)
         (updateTimedOut env) (handleBizBatchStart env ?b p ?start) (\<lambda>w. w) w1 = Some w2" and w': "w' = notify env p w2"
    have "L (snd (checkStopped env p ?stop x)) = L x" for x
    proof -
      have "L (snd (clientGetPod env (Namespace p) (Name p) x)) = L x" using env(1) by (simp add: records_def)
      then show ?thesis by (auto simp: checkStopped_def Let_def split: prod.split sum.split)
    qed
    then have "\<exists>tr. L w2 = L w1 @ tr \<and> (tr = [] \<or> ?R tr)"
      by (rule Eventually_calls [where L = L, OF 2 env(2)])
        (use env(1) batch_calls(1) [OF env(1), of ?b p ?start] in \<open>auto simp: records_def\<close>)
    then show ?thesis by (simp add: w' notify)
  qed (simp add: notify)
  with ts show ?thesis unfolding updateCalls_def Let_def by (metis append.assoc)
qed

section \<open>Status reports make no call\<close>

lemma syncBiz_calls:
  assumes "records L env" "syncBizStatusToKube env t1 t2 d s = Ok s'"
  shows "L (snd s') = L (snd s)"
  using assms(2,1)
  by (auto simp: syncBizStatusToKube_def records_def Let_def split: prod.splits option.splits outcome.splits)

lemma syncEach_calls:
  assumes "records L env"
  shows "syncEach env clk ds s = Ok s' \<Longrightarrow> L (snd s') = L (snd s)"
  by (induction ds arbitrary: clk s) (auto dest: syncBiz_calls [OF assms] split: outcome.splits)

lemma collectOne_calls: "records L env \<Longrightarrow> L (snd (collectOne env d s)) = L (snd s)"
  by (auto simp: collectOne_def records_def split: prod.splits sum.splits) (metis snd_conv)+

lemma SyncAll_calls:
  assumes rec: "records L env" and run: "SyncAllBizStatusToKube env order now clk ds s = Ok s'"
  shows "L (snd s') = L (snd s)"
proof -
  have containers: "L (snd (fold (\<lambda>c. collectOne env (f c)) cs t)) = L (snd t)" for f cs t
    by (induction cs arbitrary: t) (simp_all add: collectOne_calls [OF rec])
  have collect: "L (snd (collectUpdates env now ds pods w)) = L w" for pods w
  proof -
    have "L (snd (fold (\<lambda>pod. fold (\<lambda>c. collectOne env (f pod c)) (elems (Containers pod))) pods t)) = L (snd t)"
      for f t by (induction pods arbitrary: t) (simp_all add: containers)
    then show ?thesis by (simp add: collectUpdates_def)
  qed
  obtain b w l w1 where s: "s = (b, w)" "collectUpdates env now ds (sortedPods order (vPodStore b)) w = (l, w1)"
    by (metis surj_pair)
  then have "L w1 = L w" using collect [of "sortedPods order (vPodStore b)" w] by simp
  moreover have "syncEach env clk l (b, w1) = Ok s'" using run s by (simp add: SyncAllBizStatusToKube_def)
  ultimately show ?thesis using syncEach_calls [OF rec] s(1) by fastforce
qed

section \<open>What a handler asks of the tunnel\<close>

text \<open>
  The calls by which a pod is synced to a provider that holds the given pod, or none, under its key;
  \<open>replaces\<close> says how an update calls.
\<close>

definition syncCalls ::
  "(string \<Rightarrow> Pod \<Rightarrow> Pod \<Rightarrow> providerCall list \<Rightarrow> bool) \<Rightarrow> string \<Rightarrow> Pod option \<Rightarrow> Pod \<Rightarrow> providerCall list \<Rightarrow> bool" where
  "syncCalls replaces node held p tr \<longleftrightarrow>
     (case held of
        None \<Rightarrow> repeats (map (CStart node (GetPodKey (Some p))) (elems (Containers p))) tr
      | Some old \<Rightarrow> if PodsEqual old p then tr = [] else replaces node old p tr)"

text \<open>The calls by which the given pod, or none, is stopped.\<close>

definition stopCalls :: "string \<Rightarrow> Pod option \<Rightarrow> providerCall list \<Rightarrow> bool" where
  "stopCalls node held tr \<longleftrightarrow>
     (case held of
        None \<Rightarrow> tr = []
      | Some old \<Rightarrow> repeats (map (CStop node (stopKey old)) (elems (Containers old))) tr)"

locale observed_lifecycle = pod_lifecycle env stored ends
  for env :: "('r, 'w) pcEnv" and stored and ends +
  fixes seen :: "('r, 'w) pcState \<Rightarrow> providerCall list"
    and node :: "('r, 'w) pcState \<Rightarrow> string"
    and replaces :: "string \<Rightarrow> Pod \<Rightarrow> Pod \<Rightarrow> providerCall list \<Rightarrow> bool"
    and recorded :: bool
  assumes create_calls: "recorded \<Longrightarrow> provCreate env p pc = Some (e, pc') \<Longrightarrow>
          \<exists>tr. seen pc' = seen pc @ tr \<and> repeats (map (CStart (node pc) (GetPodKey (Some p))) (elems (Containers p))) tr"
    and update_calls: "recorded \<Longrightarrow> provUpdate env p pc = Some (e, pc') \<Longrightarrow> DeletionTimestamp p = None \<Longrightarrow>
          stored pc (GetPodKey (Some p)) = Some old \<Longrightarrow> \<exists>tr. seen pc' = seen pc @ tr \<and> replaces (node pc) old p tr"
    and delete_calls: "recorded \<Longrightarrow> provDelete env p pc = Some (e, pc') \<Longrightarrow>
          \<exists>tr. seen pc' = seen pc @ tr \<and> repeats (map (CStop (node pc) (stopKey p)) (elems (Containers p))) tr"
    and seen_world: "world pc = world pc' \<Longrightarrow> seen pc = seen pc'"
    and event_calls: "recorded \<Longrightarrow> seen (recorderEvent env p ty r pc) = seen pc"
    and cache_calls: "recorded \<Longrightarrow> seen (snd (cacheGet env ns n pc)) = seen pc"
    and cache_node: "node (snd (cacheGet env ns n pc)) = node pc"
begin

lemma createOrUpdate_calls:
  assumes recorded "createOrUpdatePod env p pc = Returns (None, pc')" "DeletionTimestamp p = None"
  shows "\<exists>tr. seen pc' = seen pc @ tr \<and> syncCalls replaces (node pc) (stored pc (GetPodKey (Some p))) p tr"
proof (cases "stored pc (GetPodKey (Some p))")
  case None
  then have "provGetPod env (Namespace p) (Name p) pc = ((None, None), pc)" by (simp add: get_pod GetPodKey_def)
  moreover have "e = None" if "provCreate env p pc = Some (e, pc1)" for e pc1 using create_pod [OF that] ..
  ultimately obtain e pc1 where 1: "provCreate env p pc = Some (e, pc1)"
    "pc' = recorderEvent env p EventTypeNormal podEventCreateSuccess pc1"
    using assms(2) by (auto simp: createOrUpdatePod_def split: option.splits)
  with create_calls [OF assms(1) 1(1)] assms(1) None show ?thesis by (simp add: event_calls syncCalls_def)
next
  case (Some old)
  then have get: "provGetPod env (Namespace p) (Name p) pc = ((Some old, None), pc)" by (simp add: get_pod GetPodKey_def)
  show ?thesis
  proof (cases "PodsEqual old p")
    case True
    with assms(2) get Some show ?thesis by (simp add: createOrUpdatePod_def syncCalls_def)
  next
    case False
    have "e = None" if "provUpdate env p pc = Some (e, pc1)" for e pc1
      using update_pod [OF that assms(3)] Some by simp
    with False get obtain e pc1 where 1: "provUpdate env p pc = Some (e, pc1)"
      "pc' = recorderEvent env p EventTypeNormal podEventUpdateSuccess pc1"
      using assms(2) by (auto simp: createOrUpdatePod_def split: option.splits)
    with update_calls [OF assms(1) 1(1) assms(3) Some] assms(1) Some False show ?thesis
      by (simp add: event_calls syncCalls_def)
  qed
qed

lemma setKnown_seen: "seen (setKnown a f pc) = seen pc"
  by (rule seen_world) (simp add: setKnown_def)

lemma sync_live_calls:
  assumes recorded "syncPodInProvider env p k pc = Returns (None, pc')"
    and live: "DeletionTimestamp p = None" "Phase (Status p) \<noteq> PodFailed" "Phase (Status p) \<noteq> PodSucceeded"
    and known: "knownPods pc k = Some a" "\<And>u. lastPodUsed (kpHeap pc a) = Some u \<Longrightarrow> \<not> podsEffectivelyEqual u p"
  shows "\<exists>tr. seen pc' = seen pc @ tr \<and> syncCalls replaces (node pc) (stored pc (GetPodKey (Some p))) p tr"
proof -
  have "\<not> (case lastPodUsed (kpHeap pc a) of None \<Rightarrow> False | Some u \<Rightarrow> podsEffectivelyEqual u p)"
    using known(2) by (simp split: option.split)
  then obtain pc1 where 1: "createOrUpdatePod env p pc = Returns (None, pc1)"
    "pc' = setKnown a (\<lambda>k. k\<lparr>lastPodUsed := Some p\<rparr>) pc1"
    using assms(2) live known(1)
    by (auto simp: syncPodInProvider_def syncBody_def split: run.splits option.splits prod.splits)
  with createOrUpdate_calls [OF assms(1) 1(1) live(1)] show ?thesis by (simp add: setKnown_seen)
qed

lemma handler_live_calls:
  assumes recorded "syncPodsFromKubernetesHandler env k pc = Returns (None, pc')"
    and k: "SplitMetaNamespaceKey k = Ok (ns, n)" and cached: "cacheGet env ns n pc = (Inr p, pc1)"
    and live: "DeletionTimestamp p = None" "Phase (Status p) \<noteq> PodFailed" "Phase (Status p) \<noteq> PodSucceeded"
    and known: "knownPods pc1 k = Some a" "\<And>u. lastPodUsed (kpHeap pc1 a) = Some u \<Longrightarrow> \<not> podsEffectivelyEqual u p"
  shows "\<exists>tr. seen pc' = seen pc @ tr \<and> syncCalls replaces (node pc) (stored pc (GetPodKey (Some p))) p tr"
proof -
  have "syncPodInProvider env p k pc1 = Returns (None, pc')"
    using assms(2) by (simp add: syncPodsFromKubernetesHandler_def k cached)
  from sync_live_calls [OF assms(1) this live known] show ?thesis
    using cache_calls [OF assms(1), of ns n pc] cache_node [of ns n pc] cache_frame [of ns n pc] by (simp add: cached)
qed

lemma handler_missing_calls:
  assumes recorded "syncPodsFromKubernetesHandler env k pc = Returns (None, pc')"
    and k: "SplitMetaNamespaceKey k = Ok (ns, n)" and gone: "cacheGet env ns n pc = (Inl e, pc1)" "IsNotFound e"
  shows "\<exists>tr. seen pc' = seen pc @ tr \<and> stopCalls (node pc) (stored pc (ns @ ''/'' @ n)) tr"
proof -
  have frame: "stored pc1 = stored pc" "seen pc1 = seen pc" "node pc1 = node pc"
    using cache_calls [OF assms(1), of ns n pc] cache_node [of ns n pc] cache_frame [of ns n pc] by (simp_all add: gone)
  have run: "deleteMissingPod env k ns n pc1 = Returns (None, pc')"
    using assms(2) by (simp add: syncPodsFromKubernetesHandler_def k gone)
  show ?thesis
  proof (cases "stored pc1 (ns @ ''/'' @ n)")
    case None
    have get: "provGetPod env ns n pc1 = ((None, None), pc1)" unfolding get_pod None ..
    from run frame None show ?thesis unfolding deleteMissingPod_def get
      by (simp add: stopCalls_def del: append_Cons append_Nil)
  next
    case (Some q)
    have get: "provGetPod env ns n pc1 = ((Some q, None), pc1)" unfolding get_pod Some ..
    obtain e' pc2 where d: "provDelete env q pc1 = Some (e', pc2)"
      using run unfolding deleteMissingPod_def get by (cases "provDelete env q pc1") auto
    have "e' = None" using delete_pod [OF d] ..
    with run d have "pc' = DeleteKnownPod k pc2" unfolding deleteMissingPod_def get by simp
    then have "seen pc' = seen pc2" by (intro seen_world) (simp add: DeleteKnownPod_def)
    with delete_calls [OF assms(1) d] Some frame show ?thesis by (simp add: stopCalls_def del: append_Cons append_Nil)
  qed
qed

lemma sync_deleted_calls:
  assumes recorded "syncPodInProvider env p k pc = Returns (None, pc')"
    and going: "DeletionTimestamp p \<noteq> None" "running (Status p)" "DeletionGracePeriodSeconds p = Some g"
    and known: "knownPods pc k = Some a" "\<And>u. lastPodUsed (kpHeap pc a) = Some u \<Longrightarrow> \<not> podsEffectivelyEqual u p"
  shows "\<exists>tr. seen pc' = seen pc @ tr \<and> stopCalls (node pc) (Some p) tr"
proof -
  have new: "\<not> (case lastPodUsed (kpHeap pc a) of None \<Rightarrow> False | Some u \<Rightarrow> podsEffectivelyEqual u p)"
    using known(2) by (simp split: option.split)
  obtain e pc1 where d: "provDelete env p pc = Some (e, pc1)"
    using assms(2) going known(1) new
    by (cases "provDelete env p pc") (auto simp: syncPodInProvider_def syncBody_def deletePod_def)
  have "e = None" using delete_pod [OF d] ..
  with assms(2) going known(1) new d have
    "pc' = setKnown a (\<lambda>kp. kp\<lparr>lastPodUsed := Some p\<rparr>) (enqueueDeleteAfter env (deletionKey k p) (wrap64 (second * g))
       (recorderEvent env p EventTypeNormal podEventDeleteSuccess pc1))"
    by (simp add: syncPodInProvider_def syncBody_def deletePod_def)
  then have "seen pc' = seen pc1"
    using event_calls [OF assms(1)] seen_world [of "enqueueDeleteAfter env (deletionKey k p) (wrap64 (second * g))
       (recorderEvent env p EventTypeNormal podEventDeleteSuccess pc1)" "recorderEvent env p EventTypeNormal podEventDeleteSuccess pc1"]
    by (simp add: setKnown_seen enqueueDeleteAfter_def)
  with delete_calls [OF assms(1) d] show ?thesis by (simp add: stopCalls_def)
qed

end

section \<open>The kubelet of a node is observed\<close>

text \<open>A record of the calls to the tunnel that the outside keeps.\<close>

definition recordedBy :: "('x \<Rightarrow> providerCall list) \<Rightarrow> ('r, 'x) outside \<Rightarrow> bool" where
  "recordedBy L o' \<longleftrightarrow>
     (\<forall>n k c x. L (snd (oStart o' n k c x)) = L x @ [CStart n k c] \<and> L (snd (oStop o' n k c x)) = L x @ [CStop n k c]) \<and>
     (\<forall>ns n x. L (snd (oCacheGet o' ns n x)) = L x \<and> L (snd (oApiGet o' ns n x)) = L x) \<and>
     (\<forall>p ty r x. L (oEvent o' p ty r x) = L x) \<and> (\<forall>x. L (snd (oElapse o' x)) = L x) \<and>
     (\<forall>d x. L (oRecord o' d x) = L x \<and> L (oReport o' d x) = L x)"

definition tunnelCalls :: "('x \<Rightarrow> providerCall list) \<Rightarrow> ('r, 'x vworld) pcState \<Rightarrow> providerCall list" where
  "tunnelCalls L pc = L (outer (world pc))"

lemma tunnelCalls_outer:
  "tunnelCalls L (snd (onOuter f pc)) = L (snd (f (outer (world pc))))"
  "tunnelCalls L (updOuter g pc) = L (g (outer (world pc)))"
  by (simp_all add: tunnelCalls_def onOuter_def updOuter_def split: prod.split)

lemma tunnelCalls_world: "world pc = world pc' \<Longrightarrow> tunnelCalls L pc = tunnelCalls L pc'"
  by (simp add: tunnelCalls_def)

lemma pollKnown_calls:
  assumes "recordedBy L o'"
  shows "tunnelCalls L (snd (pollKnown (baseEnv o') m k p pc)) = tunnelCalls L pc"
proof (induction m arbitrary: p pc)
  case (Suc m)
  have cache: "cacheGet (baseEnv o') ns n = onOuter (oCacheGet o' ns n)" for ns n by (simp add: baseEnv_def)
  have "world (fold AddKnownPod pods pc1) = world pc1" for pods and pc1 :: "('b, 'a vworld) pcState"
    by (induction pods arbitrary: pc1) (simp_all add: AddKnownPod_def)
  then have "tunnelCalls L (elapse (baseEnv o') pc1) = tunnelCalls L (snd (onOuter (oElapse o') pc1))" for pc1
    by (simp add: baseEnv_def case_prod_beta tunnelCalls_def)
  then have elapse: "tunnelCalls L (elapse (baseEnv o') pc1) = tunnelCalls L pc1" for pc1
    using assms by (simp add: tunnelCalls_outer recordedBy_def) (simp add: tunnelCalls_def)
  obtain r pc1 where c: "onOuter (oCacheGet o' (Namespace p) (Name p)) pc = (r, pc1)" by fastforce
  moreover have "tunnelCalls L pc1 = tunnelCalls L pc"
    using tunnelCalls_outer(1) [of L "oCacheGet o' (Namespace p) (Name p)" pc] assms
    by (simp add: c recordedBy_def tunnelCalls_def)
  ultimately show ?case by (simp add: Suc.IH cache elapse split: option.split sum.split)
qed simp

lemma notify_calls:
  assumes "recordedBy L o'"
  shows "tunnelCalls L (enqueuePodStatusUpdate (baseEnv o') m p pc) = tunnelCalls L pc"
proof -
  have "tunnelCalls L pc1 = tunnelCalls L pc" if "pollKnown (baseEnv o') m k p pc = (r, pc1)" for k r pc1
    using pollKnown_calls [OF assms, of m k p pc] that by simp
  then show ?thesis
    by (auto simp: enqueuePodStatusUpdate_def enqueueStatus_def setKnown_def tunnelCalls_def split: sum.split prod.split)
qed

lemma providerEnvOf_records: "recordedBy L o' \<Longrightarrow> records (tunnelCalls L) (providerEnvOf o')"
  by (simp add: records_def providerEnvOf_def notify_calls)
    (simp add: tunnelCalls_outer recordedBy_def, simp add: tunnelCalls_def)

lemma setProvider_calls [simp]: "tunnelCalls L (setProvider b pc) = tunnelCalls L pc"
  by (simp add: tunnelCalls_def setProvider_def)

definition observable :: "('x \<Rightarrow> providerCall list) \<Rightarrow> ('r, 'x) outside \<Rightarrow> bool" where
  "observable L o' \<longleftrightarrow> recordedBy L o' \<and> outsideEnds o'"

interpretation observed: observed_lifecycle "kubeletEnv o'" storedPods "outsideEnds o'" "tunnelCalls L"
    "\<lambda>pc. nodeName (vprovider (world pc))" "updateCalls (oOrder o')" "observable L o'"
  for o' :: "('r, 'x) outside" and L
proof
  fix p e old and pc pc' :: "('r, 'x vworld) pcState" and ns n ty r
  assume obs: "observable L o'"
  then have records: "records (tunnelCalls L) (providerEnvOf o')"
    and ends: "\<exists>m. updateTimedOut (providerEnvOf o') m"
    by (simp_all add: observable_def providerEnvOf_records outsideEnds_def) (auto simp: providerEnvOf_def)
  show "provCreate (kubeletEnv o') p pc = Some (e, pc') \<Longrightarrow>
      \<exists>tr. tunnelCalls L pc' = tunnelCalls L pc @ tr \<and>
        repeats (map (CStart (nodeName (vprovider (world pc))) (GetPodKey (Some p))) (elems (Containers p))) tr"
    by (auto simp: kubeletEnv_def withProvider_Some dest: CreatePod_calls [OF records])
  show "provDelete (kubeletEnv o') p pc = Some (e, pc') \<Longrightarrow>
      \<exists>tr. tunnelCalls L pc' = tunnelCalls L pc @ tr \<and>
        repeats (map (CStop (nodeName (vprovider (world pc))) (stopKey p)) (elems (Containers p))) tr"
    by (auto simp: kubeletEnv_def withProvider_Some dest: DeletePod_calls [OF records])
  show "provUpdate (kubeletEnv o') p pc = Some (e, pc') \<Longrightarrow> DeletionTimestamp p = None \<Longrightarrow>
      storedPods pc (GetPodKey (Some p)) = Some old \<Longrightarrow>
      \<exists>tr. tunnelCalls L pc' = tunnelCalls L pc @ tr \<and> updateCalls (oOrder o') (nodeName (vprovider (world pc))) old p tr"
    using ends by (auto simp: kubeletEnv_def withProvider_Some Let_def storedPods_def dest: UpdatePod_calls_made [OF records])
  show "tunnelCalls L (recorderEvent (kubeletEnv o') p ty r pc) = tunnelCalls L pc"
    using obs by (simp add: kubeletEnv_def baseEnv_def tunnelCalls_outer observable_def recordedBy_def) (simp add: tunnelCalls_def)
  show "tunnelCalls L (snd (cacheGet (kubeletEnv o') ns n pc)) = tunnelCalls L pc"
    using obs by (simp add: kubeletEnv_def baseEnv_def tunnelCalls_outer observable_def recordedBy_def) (simp add: tunnelCalls_def)
next
  fix pc pc' :: "('r, 'x vworld) pcState" and ns n
  show "world pc = world pc' \<Longrightarrow> tunnelCalls L pc = tunnelCalls L pc'" by (rule tunnelCalls_world)
  show "nodeName (vprovider (world (snd (cacheGet (kubeletEnv o') ns n pc)))) = nodeName (vprovider (world pc))"
    by (simp add: kubeletEnv_def baseEnv_def onOuter_def split: prod.split)
qed

section \<open>A round of a worker, with its calls\<close>

lemma tunnelCalls_queue [simp]: "tunnelCalls L (pc\<lparr>syncPodsFromKubernetes := q\<rparr>) = tunnelCalls L pc"
  by (simp add: tunnelCalls_def)

text \<open>The calls of a node's kubelet by which it syncs or stops the pod that its provider holds under a key.\<close>

abbreviation syncsBy :: "('r, 'x) outside \<Rightarrow> VPodProvider \<Rightarrow> Pod \<Rightarrow> providerCall list \<Rightarrow> bool" where
  "syncsBy o' b p \<equiv> syncCalls (updateCalls (oOrder o')) (nodeName b) (GetPodByKey (vPodStore b) (GetPodKey (Some p))) p"

abbreviation stopsBy :: "VPodProvider \<Rightarrow> string \<Rightarrow> providerCall list \<Rightarrow> bool" where
  "stopsBy b k \<equiv> stopCalls (nodeName b) (GetPodByKey (vPodStore b) k)"

lemma syncWork_live:
  assumes inv: "queue_inv (syncPodsFromKubernetes pc)" and obs: "observable L o'"
    and take: "getNextItem now (syncPodsFromKubernetes pc) = (Take a, q)" "key (heap q a) = k"
    and k: "SplitMetaNamespaceKey k = Ok (ns, n)"
    and cached: "oCacheGet o' ns n (outer (world pc)) = (Inr p, x)"
    and live: "DeletionTimestamp p = None" "Phase (Status p) \<noteq> PodFailed" "Phase (Status p) \<noteq> PodSucceeded"
    and known: "knownPods pc k = Some b" "lastPodUsed (kpHeap pc b) = None"
  shows "\<exists>pc' r tr. syncWork (kubeletEnv o') now until later pc = Returns pc' \<and>
    storedPods pc' (GetPodKey (Some p)) = Some r \<and> PodsEqual r p \<and>
    (\<forall>j. j \<noteq> GetPodKey (Some p) \<longrightarrow> storedPods pc' j = storedPods pc j) \<and>
    owed (syncPodsFromKubernetes pc') = owed (syncPodsFromKubernetes pc) - {k} \<and>
    tunnelCalls L pc' = tunnelCalls L pc @ tr \<and> syncsBy o' (vprovider (world pc)) p tr"
proof -
  let ?pc = "pc\<lparr>syncPodsFromKubernetes := q\<rparr>"
  have ends: "outsideEnds o'" using obs by (simp add: observable_def)
  have cached': "cacheGet (kubeletEnv o') ns n ?pc = (Inr p, ?pc\<lparr>world := (world ?pc)\<lparr>outer := x\<rparr>\<rparr>)"
    by (rule kubelet_cache) (simp add: cached)
  obtain pc1 where 1: "syncPodsFromKubernetesHandler (kubeletEnv o') k ?pc = Returns (None, pc1)"
    "\<exists>r. storedPods pc1 (GetPodKey (Some p)) = Some r \<and> PodsEqual r p"
    "\<forall>j. j \<noteq> GetPodKey (Some p) \<longrightarrow> storedPods pc1 j = storedPods ?pc j"
    using kubelet.handler_live_pod [OF ends k cached' live, of b] known by auto
  have calls: "\<exists>tr. tunnelCalls L pc1 = tunnelCalls L pc @ tr \<and> syncsBy o' (vprovider (world pc)) p tr"
    using observed.handler_live_calls [OF obs 1(1) k cached' live, of b] known by (simp add: storedPods_def)
  obtain pc' where pc': "syncWork (kubeletEnv o') now until later pc = Returns pc'" "world pc' = world pc1"
    "owed (syncPodsFromKubernetes pc') = owed (syncPodsFromKubernetes pc) - {k}"
    using syncWork_success [OF inv take 1(1)] by blast
  with 1(2,3) calls storedPods_world [OF pc'(2)] tunnelCalls_world [OF pc'(2), of L] show ?thesis by auto
qed

lemma syncWork_missing:
  assumes ok: "kubelet_ok w" and obs: "observable L o'"
    and take: "getNextItem now (syncPodsFromKubernetes w) = (Take a, q)" "key (heap q a) = k"
    and k: "SplitMetaNamespaceKey k = Ok (ns, n)" "ns @ ''/'' @ n = k"
    and gone: "oCacheGet o' ns n (outer (world w)) = (Inl e, x)" "IsNotFound e"
  shows "\<exists>w' tr. syncWork (kubeletEnv o') now until later w = Returns w' \<and>
    storedPods w' = (storedPods w)(k := None) \<and>
    owed (syncPodsFromKubernetes w') = owed (syncPodsFromKubernetes w) - {k} \<and>
    tunnelCalls L w' = tunnelCalls L w @ tr \<and> stopsBy (vprovider (world w)) k tr"
proof -
  let ?w = "w\<lparr>syncPodsFromKubernetes := q\<rparr>"
  have ends: "outsideEnds o'" using obs by (simp add: observable_def)
  have gone': "cacheGet (kubeletEnv o') ns n ?w = (Inl e, ?w\<lparr>world := (world ?w)\<lparr>outer := x\<rparr>\<rparr>)"
    by (rule kubelet_cache) (simp add: gone)
  have "GetPodKey (Some r) = ns @ ''/'' @ n" if "storedPods ?w (ns @ ''/'' @ n) = Some r" for r
    using ok that by (simp add: kubelet_ok_def vpods.filed_def storedPods_def)
  from kubelet.handler_missing_pod [OF ends k(1) gone' gone(2) this] obtain w1
    where 1: "syncPodsFromKubernetesHandler (kubeletEnv o') k ?w = Returns (None, w1)"
      "storedPods w1 = (storedPods w)(k := None)" by (auto simp: k(2) [symmetric])
  have calls: "\<exists>tr. tunnelCalls L w1 = tunnelCalls L w @ tr \<and> stopsBy (vprovider (world w)) k tr"
    using observed.handler_missing_calls [OF obs 1(1) k(1) gone' gone(2)]
    by (simp add: storedPods_def k(2) del: append_Cons append_Nil)
  obtain w' where w': "syncWork (kubeletEnv o') now until later w = Returns w'" "world w' = world w1"
    "owed (syncPodsFromKubernetes w') = owed (syncPodsFromKubernetes w) - {k}"
    using syncWork_success [OF kubelet_ok_inv(1) [OF ok] take 1(1)] by blast
  with 1(2) calls storedPods_world [OF w'(2)] tunnelCalls_world [OF w'(2), of L] show ?thesis by auto
qed

section \<open>A pod marked for deletion\<close>

text \<open>C26. A pod that the cluster marks for deletion while it still runs is stopped. Let the pod be known under
  the key, not have been synced in this form already, and have a grace period; let retries come to an end
  and the clock not read zero when the grace period is over. Then the sync of the pod returns nil,
  whatever the tunnel answers; the calls to the tunnel that it makes stop each container of the pod at
  least once, one after the other in the order of the spec, with the pod's key, and start none; the
  provider forgets the pod and keeps all others; and the deletion of exactly this pod, by key and UID,
  becomes owed in the deletion queue, next to whatever was owed there.\<close>

theorem deleted_pod_leaves:
  assumes "observable L o'"
    "DeletionTimestamp p \<noteq> None" "running (Status p)" "DeletionGracePeriodSeconds p = Some g"
    "knownPods pc k = Some a"
    "\<And>u. lastPodUsed (kpHeap pc a) = Some u \<Longrightarrow> \<not> podsEffectivelyEqual u p"
    "queue_inv (deletePodsFromKubernetes pc)"
    "\<And>x. \<not> IsZero (Add (oNow o' x) (wrap64 (second * g)))"
  shows "\<exists>pc' tr. syncPodInProvider (kubeletEnv o') p k pc = Returns (None, pc') \<and>
    L (outer (world pc')) = L (outer (world pc)) @ tr \<and>
    repeats (map (CStop (nodeName (vprovider (world pc))) (stopKey p)) (elems (Containers p))) tr \<and>
    storedPods pc' = (storedPods pc)(GetPodKey (Some p) := None) \<and>
    owed (deletePodsFromKubernetes pc') =
      Set.insert (deletionKey k p) (owed (deletePodsFromKubernetes pc))"
proof -
  have ends: "outsideEnds o'" using assms(1) by (simp add: observable_def)
  obtain pc' where pc': "syncPodInProvider (kubeletEnv o') p k pc = Returns (None, pc')"
    "storedPods pc' = (storedPods pc)(GetPodKey (Some p) := None)"
    "owed (deletePodsFromKubernetes pc') = Set.insert (deletionKey k p) (owed (deletePodsFromKubernetes pc))"
    using kubelet.sync_deleted_pod [OF ends assms(2-7)] assms(8) by (auto simp: kubelet_now)
  with observed.sync_deleted_calls [OF assms(1) pc'(1) assms(2-6)] show ?thesis
    by (auto simp: stopCalls_def tunnelCalls_def)
qed

text \<open>A quiet outside that keeps the calls to the tunnel; starts fail, so that they are retried.\<close>

definition recordingOutside :: "goerror + Pod \<Rightarrow> (unit, providerCall list) outside" where
  "recordingOutside r =
     \<lparr>oStart = (\<lambda>n k c x. (Some (ErrText ''down''), x @ [CStart n k c])),
      oStop = (\<lambda>n k c x. (None, x @ [CStop n k c])),
      oCacheGet = (\<lambda>_ _ x. (r, x)), oApiGet = (\<lambda>_ _ x. (r, x)), oDelete = (\<lambda>_ _ _ x. (None, x)),
      oStatusUpdate = (\<lambda>_ x. (None, x)), oStatusPatch = (\<lambda>_ _ x. (None, x)),
      oEvent = (\<lambda>_ _ _ x. x), oNow = (\<lambda>_. GoTime 1), oElapse = (\<lambda>x. ([], x)),
      oTrackerConfig = \<lparr>LogDir = '''', ReportLevel = ''error'', ReportLinks = None\<rparr>,
      oRecord = (\<lambda>_ x. x), oReport = (\<lambda>_ x. x), oCtxWait = sampleWait, oTimedOut = (\<lambda>n. n = 60),
      oMetaKey = (\<lambda>p. Inr (GetPodKey (Some p))), oSplitKey = (\<lambda>_. Inr ('''', '''')),
      oErrorText = (\<lambda>_. ''''), oLimiters = (quietLimiter, quietLimiter, quietLimiter),
      oOrder = (\<lambda>_. [''biz'']), oPodOrder = (\<lambda>_. []), oPolls = 2\<rparr>"

lemma recordingOutside_observable: "observable (\<lambda>l. l) (recordingOutside r)"
  by (simp add: observable_def recordedBy_def outsideEnds_def recordingOutside_def sampleWait_ends)

definition recordingWorld :: "providerCall list vworld" where
  "recordingWorld = \<lparr>vprovider = sampleProvider, outer = []\<rparr>"

definition deletedPod :: Pod where
  "deletedPod = samplePod\<lparr>DeletionTimestamp := Some (GoTime 5), DeletionGracePeriodSeconds := Some 30,
     Status := zeroPodStatus\<lparr>ContainerStatuses := Some [\<lparr>cs_Name = ''biz'', cs_ContainerID = '''',
       cs_State = emptyState, cs_Ready = True, cs_Started = None, cs_Image = '''', cs_ImageID = '''', cs_rest = 0\<rparr>]\<rparr>\<rparr>"

lemma deleted_pod_leaves_witness:
  "\<exists>pc'. syncPodInProvider (kubeletEnv (recordingOutside (Inr samplePod))) deletedPod ''default/p''
     (AddKnownPod samplePod (freshPc recordingWorld)) = Returns (None, pc') \<and>
     CStop ''n'' ''default/p'' \<lparr>c_Name = ''biz'', c_Image = ''biz.jar'', c_Env = None, c_rest = 0\<rparr> \<in>
       set (outer (world pc'))"
  (is "\<exists>pc'. syncPodInProvider ?env _ ?k ?pc = _ \<and> ?c \<in> _")
proof -
  have pod: "elems (Containers deletedPod) = [\<lparr>c_Name = ''biz'', c_Image = ''biz.jar'', c_Env = None, c_rest = 0\<rparr>]"
    "stopKey deletedPod = ''default/p''"
    by (simp_all add: deletedPod_def samplePod_def stopKey_def GetPodKey_def HasSuffix_def suffix_def
        ObjectMetaNameNotExistPod_def)
  have "\<exists>pc' tr. syncPodInProvider ?env deletedPod ?k ?pc = Returns (None, pc') \<and>
      outer (world pc') = outer (world ?pc) @ tr \<and>
      repeats (map (CStop (nodeName (vprovider (world ?pc))) (stopKey deletedPod)) (elems (Containers deletedPod))) tr \<and>
      storedPods pc' = (storedPods ?pc)(GetPodKey (Some deletedPod) := None) \<and>
      owed (deletePodsFromKubernetes pc') =
        Set.insert (deletionKey ?k deletedPod) (owed (deletePodsFromKubernetes ?pc))"
    by (rule deleted_pod_leaves [OF recordingOutside_observable, where a = 0 and g = 30])
      (simp_all add: deletedPod_def running_def emptyState_def AddKnownPod_def sample_pod freshPc_def queue_inv_New
        recordingOutside_def IsZero_def Add_def zeroTime_def wrap64_def second_def signed_take_bit_int_eq_self)
  then obtain pc' tr where 1: "syncPodInProvider ?env deletedPod ?k ?pc = Returns (None, pc')"
    "outer (world pc') = outer (world ?pc) @ tr"
    and tr: "repeats (map (CStop (nodeName (vprovider (world ?pc))) (stopKey deletedPod)) (elems (Containers deletedPod))) tr"
    by blast
  have "nodeName (vprovider (world ?pc)) = ''n''"
    by (simp add: AddKnownPod_def freshPc_def recordingWorld_def sampleProvider_def)
  with repeats_set [OF tr] have "?c \<in> set tr" by (simp add: pod)
  with 1 show ?thesis by auto
qed

end
