(* ===== verification/NodeController.thy ===== *)
theory NodeController
  imports PodController
begin

text \<open>
  virtual_kubelet/node/node.go and virtual_kubelet/node/nodeutil/controller.go: the controller
  that registers a node object with the API server and keeps its status up to date, and the
  node that runs it beside the pod controller. The API client and the retry helper of client-go
  are functions on the world; the channels are buffers and flags.
\<close>

section \<open>State and environment\<close>

text \<open>
  \<open>nodeStatusPatch\<close> takes the new object and the one it is compared with, and answers with
  the object as the server stores it. \<open>RetryOnConflict\<close> calls a function that returns an
  error and assigns a variable of the caller.
\<close>

record 'w nodeEnv =
  nodeGet :: "string \<Rightarrow> string \<Rightarrow> 'w \<Rightarrow> (goerror + Node) \<times> 'w"
  nodeStatusPatch :: "Node \<Rightarrow> Node \<Rightarrow> 'w \<Rightarrow> (goerror + Node) \<times> 'w"
  nodeCreate :: "Node \<Rightarrow> 'w \<Rightarrow> (goerror + Node) \<times> 'w"
  RetryOnConflict :: "(Node option \<times> 'w \<Rightarrow> goerror option \<times> Node option \<times> 'w) \<Rightarrow>
    Node option \<times> 'w \<Rightarrow> goerror option \<times> Node option \<times> 'w"
  nodeNow :: "'w \<Rightarrow> gotime"

record 'w NodeController =
  serverNode :: "Node option"
  pingInterval :: duration
  statusInterval :: duration
  chStatusUpdate :: "Node list option"
  nodeStatusUpdateErrorHandler :: "(goerror \<Rightarrow> 'w \<Rightarrow> goerror option \<times> 'w) option"
  nc_chReady :: bool
  nc_chDone :: bool
  nc_err :: "goerror option"

definition DefaultPingInterval :: duration where "DefaultPingInterval = 10 * second"
definition DefaultStatusUpdateInterval :: duration where
  "DefaultStatusUpdateInterval = 60 * second"

section \<open>Construction\<close>

type_synonym 'w NodeControllerOpt = "'w NodeController \<Rightarrow> 'w NodeController outcome"

definition WithNodeStatusUpdateErrorHandler ::
  "(goerror \<Rightarrow> 'w \<Rightarrow> goerror option \<times> 'w) option \<Rightarrow> 'w NodeControllerOpt" where
  "WithNodeStatusUpdateErrorHandler h n = Ok (n\<lparr>nodeStatusUpdateErrorHandler := h\<rparr>)"

fun applyOpts :: "('a \<Rightarrow> 'a outcome) list \<Rightarrow> 'a \<Rightarrow> 'a outcome" where
  "applyOpts [] n = Ok n"
| "applyOpts (opt # opts) n = (case opt n of Ok n \<Rightarrow> applyOpts opts n | Err e \<Rightarrow> Err e | Panic \<Rightarrow> Panic)"

definition NewNodeController ::
  "Node option \<Rightarrow> 'w NodeControllerOpt list \<Rightarrow> 'w NodeController outcome" where
  "NewNodeController node opts =
     (case applyOpts opts \<lparr>serverNode = node, pingInterval = 0, statusInterval = 0,
             chStatusUpdate = None, nodeStatusUpdateErrorHandler = None, nc_chReady = False,
             nc_chDone = False, nc_err = None\<rparr> of
        Ok n \<Rightarrow>
          (let n = (if pingInterval n = 0 then n\<lparr>pingInterval := DefaultPingInterval\<rparr> else n)
           in Ok (if statusInterval n = 0 then n\<lparr>statusInterval := DefaultStatusUpdateInterval\<rparr> else n))
      | Err e \<Rightarrow> Err (ErrWrap ''error applying node option'' e)
      | Panic \<Rightarrow> Panic)"

section \<open>Updating the status\<close>

definition updateNodeStatusHeartbeat :: "gotime \<Rightarrow> Node \<Rightarrow> Node" where
  "updateNodeStatusHeartbeat now n =
     n\<lparr>n_Status := (n_Status n)
        \<lparr>ns_Conditions := map_option (map (\<lambda>c. c\<lparr>nc_LastHeartbeatTime := now\<rparr>))
                           (ns_Conditions (n_Status n))\<rparr>\<rparr>"

definition patchOnce ::
  "'w nodeEnv \<Rightarrow> Node \<Rightarrow> Node option \<times> 'w \<Rightarrow> goerror option \<times> Node option \<times> 'w" where
  "patchOnce env nodeFromProvider s =
     (case s of (updatedNode, w) \<Rightarrow>
        (case nodeGet env (n_Namespace nodeFromProvider) (n_Name nodeFromProvider) w of
           (Inl err, w) \<Rightarrow> (Some err, updatedNode, w)
         | (Inr apiServerNode, w) \<Rightarrow>
             (case nodeStatusPatch env nodeFromProvider apiServerNode w of
                (Inl err, w) \<Rightarrow> (Some err, Some nodeFromProvider, w)
              | (Inr updatedNode, w) \<Rightarrow> (None, Some updatedNode, w))))"

text \<open>The log line at the end reads the updated node.\<close>

definition updateNodeStatus :: "'w nodeEnv \<Rightarrow> Node \<Rightarrow> 'w \<Rightarrow> Node outcome \<times> 'w" where
  "updateNodeStatus env nodeFromProvider w =
     (case RetryOnConflict env (patchOnce env nodeFromProvider) (None, w) of
        (Some err, _, w) \<Rightarrow> (Err err, w)
      | (None, None, w) \<Rightarrow> (Panic, w)
      | (None, Some updatedNode, w) \<Rightarrow> (Ok updatedNode, w))"

text \<open>The provider node is changed in place: the result holds its new value.\<close>

type_synonym 'w ncState = "'w NodeController \<times> Node \<times> 'w"

definition setServerNode :: "Node \<Rightarrow> 'w NodeController \<Rightarrow> 'w NodeController" where
  "setServerNode node n = n\<lparr>serverNode := Some node\<rparr>"

definition updateStatus ::
  "'w nodeEnv \<Rightarrow> bool \<Rightarrow> 'w ncState \<Rightarrow> (goerror option \<times> 'w ncState) run" where
  "updateStatus env skipErrorCb s =
     (case s of (n, providerNode, w) \<Rightarrow>
        (let providerNode = updateNodeStatusHeartbeat (nodeNow env w) providerNode
         in case updateNodeStatus env providerNode w of
              (Panic, w) \<Rightarrow> Panics
            | (Ok node, w) \<Rightarrow> Returns (None, setServerNode node n, providerNode, w)
            | (Err err, w) \<Rightarrow>
                (case (if skipErrorCb then None else nodeStatusUpdateErrorHandler n) of
                   None \<Rightarrow> Returns (Some err, n, providerNode, w)
                 | Some h \<Rightarrow>
                     (case h err w of
                        (Some err, w) \<Rightarrow> Returns (Some err, n, providerNode, w)
                      | (None, w) \<Rightarrow>
                          (case updateNodeStatus env providerNode w of
                             (Panic, w) \<Rightarrow> Panics
                           | (Err err, w) \<Rightarrow> Returns (Some err, n, providerNode, w)
                           | (Ok node, w) \<Rightarrow> Returns (None, setServerNode node n, providerNode, w))))))"

section \<open>Running\<close>

text \<open>Creating a nil node panics.\<close>

definition ensureNode :: "'w nodeEnv \<Rightarrow> 'w ncState \<Rightarrow> (goerror option \<times> 'w ncState) run" where
  "ensureNode env s =
     (case updateStatus env True s of
        Returns (err, n, providerNode, w) \<Rightarrow>
          (case err of
             None \<Rightarrow> Returns (None, n, providerNode, w)
           | Some e \<Rightarrow>
               if \<not> IsNotFound e then Returns (Some e, n, providerNode, w)
               else (case serverNode n of
                       None \<Rightarrow> Panics
                     | Some serverNode' \<Rightarrow>
                         (case nodeCreate env serverNode' w of
                            (Inl err, w) \<Rightarrow>
                              Returns (Some (ErrWrap ''error registering node with kubernetes'' err), n, providerNode, w)
                          | (Inr node, w) \<Rightarrow>
                              Returns (None, setServerNode node n,
                                providerNode\<lparr>n_Name := n_Name node, n_Namespace := n_Namespace node,
                                             n_UID := n_UID node\<rparr>, w))))
      | Panics \<Rightarrow> Panics
      | Diverges \<Rightarrow> Diverges)"

text \<open>One round of the control loop that receives an update; its error is logged only.\<close>

definition controlStep :: "'w nodeEnv \<Rightarrow> Node \<Rightarrow> 'w ncState \<Rightarrow> 'w ncState run" where
  "controlStep env updated s =
     (case s of (n, providerNode, w) \<Rightarrow>
        (let providerNode = providerNode\<lparr>n_Taints := n_Taints updated, n_Status := n_Status updated,
                              n_Annotations := n_Annotations updated, n_Labels := n_Labels updated\<rparr>
         in case updateStatus env False (n, providerNode, w) of
              Returns (_, s) \<Rightarrow> Returns s
            | Panics \<Rightarrow> Panics
            | Diverges \<Rightarrow> Diverges))"

text \<open>
  The control loop until the context ends, for the updates that it receives before that. It
  first closes the ready channel, which panics when it is closed already.
\<close>

fun controlRounds :: "'w nodeEnv \<Rightarrow> Node list \<Rightarrow> 'w ncState \<Rightarrow> 'w ncState run" where
  "controlRounds env [] s = Returns s"
| "controlRounds env (u # us) s =
     (case controlStep env u s of
        Returns s \<Rightarrow> controlRounds env us s
      | Panics \<Rightarrow> Panics
      | Diverges \<Rightarrow> Diverges)"

definition controlLoop :: "'w nodeEnv \<Rightarrow> Node list \<Rightarrow> 'w ncState \<Rightarrow> 'w ncState run" where
  "controlLoop env updates s =
     (case s of (n, providerNode, w) \<Rightarrow>
        if nc_chReady n then Panics
        else controlRounds env updates (n\<lparr>nc_chReady := True\<rparr>, providerNode, w))"

text \<open>The end of \<open>Run\<close>: it keeps the error and closes the done channel.\<close>

definition ncDone :: "goerror option \<Rightarrow> 'w NodeController \<Rightarrow> 'w \<Rightarrow> (goerror option \<times> 'w NodeController \<times> 'w) run" where
  "ncDone retErr n w =
     (if nc_chDone n then Panics else Returns (retErr, n\<lparr>nc_err := retErr, nc_chDone := True\<rparr>, w))"

text \<open>\<open>NodeController.Run\<close>. A nil server node has no fields to update.\<close>

definition NodeControllerRun ::
  "'w nodeEnv \<Rightarrow> Node list \<Rightarrow> 'w NodeController \<Rightarrow> 'w \<Rightarrow> (goerror option \<times> 'w NodeController \<times> 'w) run" where
  "NodeControllerRun env updates n w =
     (let n = n\<lparr>chStatusUpdate := Some []\<rparr>
      in case serverNode n of
           None \<Rightarrow> Panics
         | Some providerNode \<Rightarrow>
             (case ensureNode env (n, providerNode, w) of
                Returns (Some err, n, _, w) \<Rightarrow> ncDone (Some err) n w
              | Returns (None, s) \<Rightarrow>
                  (case controlLoop env updates s of
                     Returns (n, _, w) \<Rightarrow> ncDone None n w
                   | Panics \<Rightarrow> Panics
                   | Diverges \<Rightarrow> Diverges)
              | Panics \<Rightarrow> Panics
              | Diverges \<Rightarrow> Diverges))"

text \<open>
  The callback that \<open>Run\<close> registers with the provider: a send on a channel with a buffer of
  one. \<open>None\<close> means that the sender blocks; a receive takes the oldest update.
\<close>

definition sendStatus :: "Node \<Rightarrow> 'w NodeController \<Rightarrow> 'w NodeController option" where
  "sendStatus node n =
     (case chStatusUpdate n of
        Some [] \<Rightarrow> Some (n\<lparr>chStatusUpdate := Some [node]\<rparr>)
      | _ \<Rightarrow> None)"

definition receiveStatus :: "'w NodeController \<Rightarrow> (Node \<times> 'w NodeController) option" where
  "receiveStatus n =
     (case chStatusUpdate n of
        Some (node # nodes) \<Rightarrow> Some (node, n\<lparr>chStatusUpdate := Some nodes\<rparr>)
      | _ \<Rightarrow> None)"

definition getServerNode :: "'w NodeController \<Rightarrow> Node outcome" where
  "getServerNode n =
     (case serverNode n of
        None \<Rightarrow> Err (ErrText ''Server node does not yet exist'')
      | Some node \<Rightarrow> Ok node)"

section \<open>The node that runs both controllers\<close>

definition NodePending :: string where "NodePending = ''Pending''"

record NodeConfig =
  cfgHasClient :: bool
  cfgHasCache :: bool
  cfgNode :: Node
  cfgHasEventRecorder :: bool
  NumWorkers :: int

definition WithClient :: "bool \<Rightarrow> NodeConfig \<Rightarrow> NodeConfig outcome" where
  "WithClient c cfg = Ok (cfg\<lparr>cfgHasClient := c\<rparr>)"

definition WithCache :: "bool \<Rightarrow> NodeConfig \<Rightarrow> NodeConfig outcome" where
  "WithCache c cfg = Ok (cfg\<lparr>cfgHasCache := c\<rparr>)"

definition bareCondition :: "string \<Rightarrow> NodeCondition" where
  "bareCondition ty = \<lparr>nc_Type = ty, nc_Status = '''', nc_LastHeartbeatTime = zeroTime, nc_rest = 0\<rparr>"

definition defaultNodeConfig :: "int \<Rightarrow> string \<Rightarrow> NodeConfig" where
  "defaultNodeConfig numCPU name =
     \<lparr>cfgHasClient = False, cfgHasCache = False,
      cfgNode = \<lparr>n_Name = name, n_Namespace = '''', n_UID = '''',
        n_Labels = Some [''type'' \<mapsto> ''virtual-kubelet'', ''kubernetes.io/role'' \<mapsto> ''agent'',
                         ''kubernetes.io/hostname'' \<mapsto> name],
        n_Annotations = None, n_Taints = None,
        n_Status = \<lparr>ns_Phase = NodePending, ns_Addresses = None,
          ns_Conditions = Some (map bareCondition
            [NodeReady, NodeDiskPressure, NodeMemoryPressure, NodePIDPressure, NodeNetworkUnavailable]),
          ns_Capacity = None, ns_Allocatable = None, ns_rest = 0\<rparr>,
        n_rest = 0\<rparr>,
      cfgHasEventRecorder = False, NumWorkers = numCPU\<rparr>"

text \<open>The channels and the error of the pod controller.\<close>

record pcChannels =
  pcReady :: bool
  pcDone :: bool
  pcErr :: "goerror option"

text \<open>\<open>Node\<close> of nodeutil; the name is that of the API object.\<close>

record ('r, 'w, 'v) kubeletNode =
  nc :: "'v NodeController"
  pc :: "('r, 'w) pcState"
  pcCh :: pcChannels
  kn_ready :: bool
  kn_done :: bool
  kn_err :: "goerror option"
  workers :: int

text \<open>
  \<open>NewNode\<close>. \<open>newProvider\<close> gets the node and returns the initial state of the pod
  provider, with which the pod controller starts. The event recorder is created when missing.
\<close>

definition NewNode ::
  "int \<Rightarrow> ('r rateLimiter \<times> 'r) \<Rightarrow> string \<Rightarrow> (Node \<Rightarrow> 'w outcome) \<Rightarrow> (NodeConfig \<Rightarrow> NodeConfig outcome) list \<Rightarrow>
   ('r, 'w, 'v) kubeletNode outcome" where
  "NewNode numCPU dflt name newProvider opts =
     (case applyOpts opts (defaultNodeConfig numCPU name) of
        Err e \<Rightarrow> Err e
      | Panic \<Rightarrow> Panic
      | Ok cfg \<Rightarrow>
          if \<not> cfgHasClient cfg then Err (ErrText ''no client provided'')
          else (case newProvider (cfgNode cfg) of
             Err e \<Rightarrow> Err (ErrWrap ''error creating provider'' e)
           | Panic \<Rightarrow> Panic
           | Ok provider \<Rightarrow>
               (case NewNodeController (Some (cfgNode cfg)) [] of
                  Err e \<Rightarrow> Err (ErrWrap ''error creating node controller'' e)
                | Panic \<Rightarrow> Panic
                | Ok nodeController \<Rightarrow>
                    (case NewPodController dflt
                       \<lparr>hasEventRecorder = True, hasProvider = True, hasClient = cfgHasClient cfg,
                        hasCache = cfgHasCache cfg, SyncPodsFromKubernetesRateLimiter = None,
                        DeletePodsFromKubernetesRateLimiter = None,
                        SyncPodStatusFromProviderRateLimiter = None\<rparr> provider of
                       Err e \<Rightarrow> Err (ErrWrap ''error creating pod controller'' e)
                     | Panic \<Rightarrow> Panic
                     | Ok (podController, _) \<Rightarrow>
                         Ok \<lparr>nc = nodeController, pc = podController,
                             pcCh = \<lparr>pcReady = False, pcDone = False, pcErr = None\<rparr>, kn_ready = False,
                             kn_done = False, kn_err = None, workers = NumWorkers cfg\<rparr>))))"

text \<open>
  \<open>Run\<close> of the node: three selects. Each event says which channel the select takes; the
  result has the error, whether the ready channel was closed, the controllers that were
  started, and those whose end was awaited by the deferred calls, in order.
\<close>

datatype firstSelect = Ctx1 | PodReady | PodDone
datatype secondSelect = Ctx2 | NodeReady' | NodeDone
datatype lastSelect = NodeEnds | PodEnds
datatype controllerName = PodCtl | NodeCtl

record nodeRun =
  runErr :: "goerror option"
  runReady :: bool
  started :: "controllerName list"
  awaited :: "controllerName list"

definition NodeRun ::
  "firstSelect \<Rightarrow> secondSelect \<Rightarrow> lastSelect \<Rightarrow> goerror option \<Rightarrow> goerror option \<Rightarrow> goerror \<Rightarrow>
   goerror option \<Rightarrow> nodeRun" where
  "NodeRun s1 s2 s3 podErr ncErr ctxErr err0 =
     (case s1 of
        Ctx1 \<Rightarrow> \<lparr>runErr = err0, runReady = False, started = [PodCtl], awaited = [PodCtl]\<rparr>
      | PodDone \<Rightarrow> \<lparr>runErr = podErr, runReady = False, started = [PodCtl], awaited = [PodCtl]\<rparr>
      | PodReady \<Rightarrow>
          (case s2 of
             Ctx2 \<Rightarrow> \<lparr>runErr = Some ctxErr, runReady = False, started = [PodCtl, NodeCtl],
                       awaited = [NodeCtl, PodCtl]\<rparr>
           | NodeDone \<Rightarrow> \<lparr>runErr = ncErr, runReady = False, started = [PodCtl, NodeCtl],
                           awaited = [NodeCtl, PodCtl]\<rparr>
           | NodeReady' \<Rightarrow>
               \<lparr>runErr = (case s3 of NodeEnds \<Rightarrow> ncErr | PodEnds \<Rightarrow> podErr), runReady = True,
                started = [PodCtl, NodeCtl], awaited = [NodeCtl, PodCtl]\<rparr>))"

text \<open>\<open>WaitReady\<close> of the node; the select takes one of the channels that are ready.\<close>

datatype waitSelect = WaitReady' | WaitDone | WaitCtx goerror

definition NodeWaitReady :: "waitSelect \<Rightarrow> goerror option \<Rightarrow> goerror option" where
  "NodeWaitReady s err =
     (case s of
        WaitReady' \<Rightarrow> None
      | WaitDone \<Rightarrow> Some (case err of None \<Rightarrow> ErrText ''controller exited before ready''
                                   | Some e \<Rightarrow> ErrWrap ''controller exited before ready'' e)
      | WaitCtx e \<Rightarrow> Some e)"

definition NodeErr :: "('r, 'w, 'v) kubeletNode \<Rightarrow> goerror option" where
  "NodeErr n = (if kn_done n then kn_err n else None)"

section \<open>Running the controllers\<close>

text \<open>
  \<open>Run\<close> of the pod controller. \<open>untilDone\<close> is what the workers and the rest of the program do
  until the context ends. The queues are started in goroutines of their own, and a panic there ends
  the process; closing a channel that is closed panics. At least one worker is assumed where
  dangling pods are deleted, for the semaphore of the deletions has that many slots.
\<close>

definition startQueues :: "int \<Rightarrow> ('r, 'w) pcState \<Rightarrow> ('r, 'w) pcState outcome" where
  "startQueues podSyncWorkers p =
     (case (RunStart podSyncWorkers (syncPodsFromKubernetes p), RunStart podSyncWorkers (deletePodsFromKubernetes p),
            RunStart podSyncWorkers (syncPodStatusFromProvider p)) of
        (Ok q1, Ok q2, Ok q3) \<Rightarrow>
          Ok (p\<lparr>syncPodsFromKubernetes := q1, deletePodsFromKubernetes := q2, syncPodStatusFromProvider := q3\<rparr>)
      | _ \<Rightarrow> Panic)"

definition stopQueues :: "('r, 'w) pcState \<Rightarrow> ('r, 'w) pcState" where
  "stopQueues p = p\<lparr>syncPodsFromKubernetes := RunEnd (syncPodsFromKubernetes p),
     deletePodsFromKubernetes := RunEnd (deletePodsFromKubernetes p),
     syncPodStatusFromProvider := RunEnd (syncPodStatusFromProvider p)\<rparr>"

definition PodControllerRun ::
  "('r, 'w) pcEnv \<Rightarrow> (Pod list \<Rightarrow> Pod list) \<Rightarrow> (('r, 'w) pcState \<Rightarrow> ('r, 'w) pcState) \<Rightarrow> int \<Rightarrow>
   pcChannels \<times> ('r, 'w) pcState \<Rightarrow> (pcChannels \<times> ('r, 'w) pcState) run" where
  "PodControllerRun env arrange untilDone podSyncWorkers s =
     (case s of (ch, p) \<Rightarrow>
        (case deleteDanglingPods env arrange p of
           None \<Rightarrow> Diverges
         | Some p \<Rightarrow>
             (case startQueues podSyncWorkers p of
                Ok p \<Rightarrow>
                  if pcReady ch then Panics
                  else (let p = stopQueues (untilDone p)
                        in if pcDone ch then Panics
                           else Returns (ch\<lparr>pcReady := True, pcDone := True, pcErr := None\<rparr>, p))
              | _ \<Rightarrow> Panics)))"

text \<open>
  \<open>Run\<close> of the node with the runs of its two controllers, which it awaits; the node controller is
  started only when the pod controller is ready.
\<close>

definition KubeletRun ::
  "firstSelect \<Rightarrow> secondSelect \<Rightarrow> lastSelect \<Rightarrow> goerror \<Rightarrow>
   (int \<Rightarrow> pcChannels \<times> ('r, 'w) pcState \<Rightarrow> (pcChannels \<times> ('r, 'w) pcState) run) \<Rightarrow>
   ('v NodeController \<Rightarrow> 'v NodeController run) \<Rightarrow> ('r, 'w, 'v) kubeletNode \<Rightarrow>
   (goerror option \<times> ('r, 'w, 'v) kubeletNode) run" where
  "KubeletRun s1 s2 s3 ctxErr runPods runNode n =
     (case runPods (workers n) (pcCh n, pc n) of
        Panics \<Rightarrow> Panics
      | Diverges \<Rightarrow> Diverges
      | Returns (ch, p) \<Rightarrow>
          (case (if s1 = PodReady then runNode (nc n) else Returns (nc n)) of
             Panics \<Rightarrow> Panics
           | Diverges \<Rightarrow> Diverges
           | Returns c \<Rightarrow>
               (let r = NodeRun s1 s2 s3 (pcErr ch) (nc_err c) ctxErr (kn_err n)
                in if runReady r \<and> kn_ready n then Panics
                   else if kn_done n then Panics
                   else Returns (runErr r, n\<lparr>nc := c, pc := p, pcCh := ch, kn_ready := kn_ready n \<or> runReady r,
                                             kn_done := True, kn_err := runErr r\<rparr>))))"

section \<open>What the controllers tell of themselves\<close>

text \<open>A channel that is only closed is the flag that it is closed; an error is read under its lock.\<close>

definition ncDoneClosed :: "'w NodeController \<Rightarrow> bool" where
  "ncDoneClosed n = nc_chDone n"

definition ncErr :: "'w NodeController \<Rightarrow> goerror option" where
  "ncErr n = nc_err n"

definition ncReadyClosed :: "'w NodeController \<Rightarrow> bool" where
  "ncReadyClosed n = nc_chReady n"

definition pcReadyClosed :: "pcChannels \<Rightarrow> bool" where
  "pcReadyClosed ch = pcReady ch"

definition pcDoneClosed :: "pcChannels \<Rightarrow> bool" where
  "pcDoneClosed ch = pcDone ch"

definition pcErrOf :: "pcChannels \<Rightarrow> goerror option" where
  "pcErrOf ch = pcErr ch"

definition knNodeController :: "('r, 'w, 'v) kubeletNode \<Rightarrow> 'v NodeController" where
  "knNodeController n = nc n"

definition knPodController :: "('r, 'w, 'v) kubeletNode \<Rightarrow> ('r, 'w) pcState" where
  "knPodController n = pc n"

definition knReadyClosed :: "('r, 'w, 'v) kubeletNode \<Rightarrow> bool" where
  "knReadyClosed n = kn_ready n"

definition knDoneClosed :: "('r, 'w, 'v) kubeletNode \<Rightarrow> bool" where
  "knDoneClosed n = kn_done n"

section \<open>Tracing\<close>

text \<open>\<open>taintsStringer.String\<close>: the separator depends on what was written, not on the position.\<close>

definition taintText :: "Taint \<Rightarrow> string" where
  "taintText t = taint_Key t @ ''='' @ taint_Value t @ '':'' @ taint_Effect t"

definition taintsString :: "Taint list \<Rightarrow> string" where
  "taintsString ts = fold (\<lambda>t s. if s = '''' then taintText t else s @ '', '' @ taintText t) ts ''''"

definition addNodeAttributes :: "Node \<Rightarrow> (string \<times> string) list" where
  "addNodeAttributes n =
     [(''node.UID'', n_UID n), (''node.name'', n_Name n), (''node.taints'', taintsString (elems (n_Taints n)))]"

end
