(* ===== verification/VNode.thy ===== *)
theory VNode
  imports Kubelet_Calls NodeController
begin

text \<open>
  provider/vnode.go and provider/vnode_provider.go: a virtual node with its channels, its
  lease, its liveness and its two providers. A channel that is only closed is a flag, the
  buffered channel of a new leadership is a flag for its one token, and a send on the
  unbuffered channel of a lost leadership succeeds when somebody receives.
  The node's pod controller is kept with its own provider only; an operation puts it into the
  outside world, which all virtual nodes share, and takes it out again.
\<close>

section \<open>The node provider\<close>

record BuildVNodeConfig =
  BaseIP :: string
  BaseHostName :: string
  bc_NodeIP :: string
  bc_NodeName :: string
  NodeVersion :: string
  bc_BaseName :: string
  VPodType :: string
  bc_ClusterName :: string
  bc_Env :: string
  bc_CustomTaints :: "Taint slice"
  bc_CustomLabels :: "(string, string) gomap"
  bc_CustomAnnotations :: "(string, string) gomap"
  WorkerNum :: int
  bcHasClient :: bool
  bcHasCache :: bool

record 'x VNodeProvider =
  nodeConfig :: BuildVNodeConfig
  notifyNode :: "(Node \<Rightarrow> 'x \<Rightarrow> 'x) option"

definition NewVNodeProvider :: "BuildVNodeConfig \<Rightarrow> 'x VNodeProvider" where
  "NewVNodeProvider cfg = \<lparr>nodeConfig = cfg, notifyNode = None\<rparr>"

definition NotifyNodeStatus :: "(Node \<Rightarrow> 'x \<Rightarrow> 'x) \<Rightarrow> 'x VNodeProvider \<Rightarrow> 'x VNodeProvider" where
  "NotifyNodeStatus cb v = v\<lparr>notifyNode := Some cb\<rparr>"

definition Ping :: "'x VNodeProvider \<Rightarrow> goerror option" where
  "Ping v = None"

text \<open>
  \<open>Notify\<close>. \<open>cacheNode\<close> is the lookup of a node in the cache; a callback that was not
  set yet is a nil function, and calling it panics. \<open>order\<close> is the order of the range over
  the conditions.
\<close>

definition Notify ::
  "(string \<Rightarrow> 'x \<Rightarrow> (goerror + Node) \<times> 'x) \<Rightarrow> string list \<Rightarrow> NodeStatusData \<Rightarrow> 'x VNodeProvider \<Rightarrow> 'x \<Rightarrow>
   'x outcome" where
  "Notify cacheNode order data v x =
     (case cacheNode (bc_NodeName (nodeConfig v)) x of
        (Inl err, x) \<Rightarrow> Ok x
      | (Inr node, x) \<Rightarrow>
          (let vnodeCopy = MergeNodeFromProvider order node data
           in case notifyNode v of None \<Rightarrow> Panic | Some cb \<Rightarrow> Ok (cb vnodeCopy x)))"

section \<open>The virtual node\<close>

record ('r, 'x) VNode =
  vn_name :: string
  vn_env :: string
  vn_vpodType :: string
  nodeProvider :: "'x VNodeProvider"
  podController :: "('r, VPodProvider) pcState"
  exitClosed :: bool
  readyClosed :: bool
  doneClosed :: bool
  acquiredByMe :: bool
  awaitsOthers :: bool
  othersCame :: bool
  lease :: "Lease option"
  liveness :: Liveness
  TakeOvered :: bool
  vn_err :: "goerror option"

definition GetNodeName :: "('r, 'x) VNode \<Rightarrow> string" where
  "GetNodeName v = vn_name v"

definition GetLease :: "('r, 'x) VNode \<Rightarrow> Lease option" where
  "GetLease v = lease v"

definition SetLease :: "Lease option \<Rightarrow> ('r, 'x) VNode \<Rightarrow> ('r, 'x) VNode" where
  "SetLease l v = v\<lparr>lease := l\<rparr>"

text \<open>The holder and the renewal time of a lease are pointers; reading a nil one panics.\<close>

definition IsLeader :: "string \<Rightarrow> gotime \<Rightarrow> ('r, 'x) VNode \<Rightarrow> bool outcome" where
  "IsLeader clientId now v =
     (case lease v of
        None \<Rightarrow> Ok False
      | Some l \<Rightarrow>
          (case l_HolderIdentity l of
             None \<Rightarrow> Panic
           | Some holder \<Rightarrow>
               if holder = '''' then Ok False
               else if holder \<noteq> clientId then Ok False
               else (case l_RenewTime l of
                       None \<Rightarrow> Panic
                     | Some renew \<Rightarrow>
                         (let expiredTime = Add renew (second * NodeLeaseDurationSeconds)
                          in Ok (\<not> After now expiredTime)))))"

definition NamespaceNodeLease :: string where "NamespaceNodeLease = ''kube-node-lease''"
definition NamespaceDefault :: string where "NamespaceDefault = ''default''"

definition NewLease :: "gotime \<Rightarrow> string \<Rightarrow> ('r, 'x) VNode \<Rightarrow> Lease" where
  "NewLease now holderIdentity v =
     \<lparr>l_Name = vn_name v, l_Namespace = NamespaceNodeLease,
      l_Labels = Some [LabelKeyOfEnv \<mapsto> vn_env v, LabelKeyOfComponent \<mapsto> ComponentVNodeLease],
      l_HolderIdentity = Some holderIdentity, l_LeaseDurationSeconds = Some NodeLeaseDurationSeconds,
      l_RenewTime = Some now, l_ResourceVersion = ''''\<rparr>"

section \<open>Channels\<close>

text \<open>\<open>activate\<close> closes the ready channel; closing it twice panics.\<close>

definition activate :: "('r, 'x) VNode \<Rightarrow> ('r, 'x) VNode outcome" where
  "activate v = (if readyClosed v then Panic else Ok (v\<lparr>readyClosed := True\<rparr>))"

definition IsReady :: "('r, 'x) VNode \<Rightarrow> bool" where
  "IsReady v \<longleftrightarrow> readyClosed v"

definition resetActivationStatus :: "('r, 'x) VNode \<Rightarrow> ('r, 'x) VNode" where
  "resetActivationStatus v = v\<lparr>readyClosed := False\<rparr>"

definition Shutdown :: "('r, 'x) VNode \<Rightarrow> ('r, 'x) VNode" where
  "Shutdown v = (if exitClosed v then v else v\<lparr>exitClosed := True\<rparr>)"

definition ToDone :: "('r, 'x) VNode \<Rightarrow> ('r, 'x) VNode" where
  "ToDone v = (if doneClosed v then v else v\<lparr>doneClosed := True\<rparr>)"

text \<open>What others see of the channels of a node.\<close>

definition DoneClosed :: "('r, 'x) VNode \<Rightarrow> bool" where
  "DoneClosed v = doneClosed v"

definition ExitClosed :: "('r, 'x) VNode \<Rightarrow> bool" where
  "ExitClosed v = exitClosed v"

text \<open>
  Sending to an unbuffered channel without waiting: the signal arrives when its receiver waits for it, and is
  lost otherwise. The receiver is the last select of the take-over.
\<close>

definition LeaderAcquiredByOthers :: "('r, 'x) VNode \<Rightarrow> ('r, 'x) VNode" where
  "LeaderAcquiredByOthers v =
     (if awaitsOthers v then v\<lparr>awaitsOthers := False, othersCame := True\<rparr> else v)"

definition LeaderAcquiredByMe :: "('r, 'x) VNode \<Rightarrow> ('r, 'x) VNode" where
  "LeaderAcquiredByMe v = (if acquiredByMe v then v else v\<lparr>acquiredByMe := True\<rparr>)"

definition VNodeErr :: "('r, 'x) VNode \<Rightarrow> goerror option" where
  "VNodeErr v = vn_err v"

text \<open>\<open>WaitReady\<close> of the virtual node; its own context replaces the caller's.\<close>

definition VNodeWaitReady :: "waitSelect \<Rightarrow> ('r, 'x) VNode \<Rightarrow> goerror option" where
  "VNodeWaitReady s v =
     (case s of
        WaitReady' \<Rightarrow> None
      | WaitDone \<Rightarrow> Some (case vn_err v of None \<Rightarrow> ErrText ''vnode exited before ready''
                                        | Some e \<Rightarrow> ErrWrap ''vnode exited before ready'' e)
      | WaitCtx e \<Rightarrow> Some e)"

section \<open>Removing a node\<close>

text \<open>The client of the node and its lease: each call changes the outside.\<close>

record 'x removeEnv =
  deleteNode :: "string \<Rightarrow> 'x \<Rightarrow> goerror option \<times> 'x"
  getNode :: "string \<Rightarrow> 'x \<Rightarrow> goerror option \<times> 'x"
  deleteLease :: "Lease option \<Rightarrow> 'x \<Rightarrow> goerror option \<times> 'x"

definition Remove :: "'x removeEnv \<Rightarrow> ('r, 'x) VNode \<Rightarrow> 'x \<Rightarrow> goerror option \<times> 'x" where
  "Remove env v x =
     (case deleteNode env (vn_name v) x of (err, x) \<Rightarrow>
        if err \<noteq> None \<and> \<not> IsNotFound (the err) then (err, x)
        else (case getNode env (vn_name v) x of (err, x) \<Rightarrow>
          if err \<noteq> None \<and> \<not> IsNotFound (the err) then (err, x)
          else (case deleteLease env (lease v) x of (err, x) \<Rightarrow>
            if err \<noteq> None \<and> \<not> IsNotFound (the err) then (err, x)
            else (err, x))))"

section \<open>The pod controller of the node\<close>

text \<open>An operation of the pod controller inside the outside world.\<close>

definition enter :: "('r, VPodProvider) pcState \<Rightarrow> 'x \<Rightarrow> ('r, 'x vworld) pcState" where
  "enter p x =
     \<lparr>knownPods = knownPods p, kpHeap = kpHeap p, kpFresh = kpFresh p,
      syncPodsFromKubernetes = syncPodsFromKubernetes p,
      deletePodsFromKubernetes = deletePodsFromKubernetes p,
      syncPodStatusFromProvider = syncPodStatusFromProvider p,
      world = \<lparr>vprovider = world p, outer = x\<rparr>\<rparr>"

definition leave :: "('r, 'x vworld) pcState \<Rightarrow> ('r, VPodProvider) pcState \<times> 'x" where
  "leave p =
     (\<lparr>knownPods = knownPods p, kpHeap = kpHeap p, kpFresh = kpFresh p,
       syncPodsFromKubernetes = syncPodsFromKubernetes p,
       deletePodsFromKubernetes = deletePodsFromKubernetes p,
       syncPodStatusFromProvider = syncPodStatusFromProvider p,
       world = vprovider (world p)\<rparr>, outer (world p))"

definition onPods ::
  "(('r, 'x vworld) pcState \<Rightarrow> ('r, 'x vworld) pcState) \<Rightarrow> ('r, 'x) VNode \<times> 'x \<Rightarrow> ('r, 'x) VNode \<times> 'x" where
  "onPods f s =
     (case s of (v, x) \<Rightarrow> (case leave (f (enter (podController v) x)) of (p, x) \<Rightarrow>
        (v\<lparr>podController := p\<rparr>, x)))"

definition VNodeSyncEnqueue ::
  "('r, 'x) outside \<Rightarrow> string \<Rightarrow> ('r, 'x) VNode \<times> 'x \<Rightarrow> ('r, 'x) VNode \<times> 'x" where
  "VNodeSyncEnqueue o' k = onPods (SyncPodsFromKubernetesEnqueue (kubeletEnv o') k)"

definition VNodeDeleteForget :: "string \<Rightarrow> ('r, 'x) VNode \<times> 'x \<Rightarrow> ('r, 'x) VNode \<times> 'x" where
  "VNodeDeleteForget k = onPods (DeletePodsFromKubernetesForget k)"

definition AddKnowPod :: "Pod \<Rightarrow> ('r, 'x) VNode \<times> 'x \<Rightarrow> ('r, 'x) VNode \<times> 'x" where
  "AddKnowPod pod = onPods (AddKnownPod pod)"

definition VNodeGetKnownPod :: "('r, 'x) VNode \<Rightarrow> string \<Rightarrow> knownPod option" where
  "VNodeGetKnownPod v k = GetKnownPod (podController v) k"

definition VNodeDeleteKnownPod :: "string \<Rightarrow> ('r, 'x) VNode \<times> 'x \<Rightarrow> ('r, 'x) VNode \<times> 'x" where
  "VNodeDeleteKnownPod k = onPods (DeleteKnownPod k)"

section \<open>Status from the tunnel\<close>

text \<open>An operation of the pod provider that may panic or not return.\<close>

definition onProvider ::
  "(VPodProvider \<times> ('r, 'x vworld) pcState \<Rightarrow> (VPodProvider \<times> ('r, 'x vworld) pcState) run) \<Rightarrow>
   ('r, 'x) VNode \<times> 'x \<Rightarrow> (('r, 'x) VNode \<times> 'x) run" where
  "onProvider f s =
     (case s of (v, x) \<Rightarrow>
        (let p = enter (podController v) x
         in case f (vprovider (world p), p) of
              Returns (b, p) \<Rightarrow>
                (case leave (setProvider b p) of (p, x) \<Rightarrow> Returns (v\<lparr>podController := p\<rparr>, x))
            | Panics \<Rightarrow> Panics
            | Diverges \<Rightarrow> Diverges))"

definition runOf :: "'a outcome \<Rightarrow> 'a run" where
  "runOf r = (case r of Ok a \<Rightarrow> Returns a | _ \<Rightarrow> Panics)"

text \<open>The pod whose containers the provider runs but no pod of the cluster has.\<close>

definition notExistPod :: "string \<Rightarrow> string \<Rightarrow> Pod" where
  "notExistPod bizName bizVersion =
     zeroPod\<lparr>Name := ObjectMetaNameNotExistPod, Namespace := NamespaceDefault,
       Containers := Some [\<lparr>c_Name = bizName, c_Image = '''',
         c_Env = Some [\<lparr>ev_Name = ''BIZ_VERSION'', ev_Value = bizVersion, ev_rest = 0\<rparr>], c_rest = 0\<rparr>]\<rparr>"

fun syncNotExistBizPodToProvider ::
  "'w providerEnv \<Rightarrow> BizStatusData list \<Rightarrow> VPodProvider \<times> 'w \<Rightarrow> (VPodProvider \<times> 'w) run" where
  "syncNotExistBizPodToProvider env [] s = Returns s"
| "syncNotExistBizPodToProvider env (bizStatus # rest) (b, w) =
     (case GetBizNameAndVersionFromUniqueKey (b_Key bizStatus) of (bizName, bizVersion) \<Rightarrow>
        (case DeletePod env (Some (notExistPod bizName bizVersion)) b w of
           None \<Rightarrow> Diverges
         | Some (err, b, w) \<Rightarrow> syncNotExistBizPodToProvider env rest (b, w)))"

text \<open>\<open>clk\<close> gives the clock readings of one operation of the provider.\<close>

definition syncBatch ::
  "'w providerEnv \<Rightarrow> string list \<Rightarrow> gotime \<Rightarrow> (nat \<Rightarrow> gotime) \<Rightarrow> BizStatusData list \<Rightarrow> BizStatusData list \<Rightarrow>
   VPodProvider \<times> 'w \<Rightarrow> (VPodProvider \<times> 'w) run" where
  "syncBatch env order now clk toUpdateInKube toDeleteInProvider s =
     (case runOf (SyncAllBizStatusToKube env order now clk toUpdateInKube s) of
        Returns s \<Rightarrow> syncNotExistBizPodToProvider env toDeleteInProvider s
      | Panics \<Rightarrow> Panics
      | Diverges \<Rightarrow> Diverges)"

definition SyncBatchBizStatusToKube ::
  "('r, 'x) outside \<Rightarrow> string list \<Rightarrow> gotime \<Rightarrow> (nat \<Rightarrow> gotime) \<Rightarrow> BizStatusData list \<Rightarrow>
   BizStatusData list \<Rightarrow> ('r, 'x) VNode \<times> 'x \<Rightarrow> (('r, 'x) VNode \<times> 'x) run" where
  "SyncBatchBizStatusToKube o' order now clk toUpdateInKube toDeleteInProvider =
     onProvider (syncBatch (providerEnvOf o') order now clk toUpdateInKube toDeleteInProvider)"

fun syncOneByOne ::
  "'w providerEnv \<Rightarrow> (nat \<Rightarrow> gotime) \<Rightarrow> BizStatusData list \<Rightarrow> VPodProvider \<times> 'w \<Rightarrow> (VPodProvider \<times> 'w) run" where
  "syncOneByOne env clk [] s = Returns s"
| "syncOneByOne env clk (d # ds) s =
     (case runOf (SyncBizStatusToKube env (clk 0) (clk 1) d s) of
        Returns s \<Rightarrow> syncOneByOne env (\<lambda>n. clk (n + 2)) ds s
      | Panics \<Rightarrow> Panics
      | Diverges \<Rightarrow> Diverges)"

definition SyncOneNodeBizStatusToKube ::
  "('r, 'x) outside \<Rightarrow> (nat \<Rightarrow> gotime) \<Rightarrow> BizStatusData list \<Rightarrow> BizStatusData list \<Rightarrow>
   ('r, 'x) VNode \<times> 'x \<Rightarrow> (('r, 'x) VNode \<times> 'x) run" where
  "SyncOneNodeBizStatusToKube o' clk toUpdateInKube toDeleteInProvider =
     onProvider (\<lambda>s. case syncOneByOne (providerEnvOf o') clk toUpdateInKube s of
         Returns s \<Rightarrow> syncNotExistBizPodToProvider (providerEnvOf o') toDeleteInProvider s
       | Panics \<Rightarrow> Panics
       | Diverges \<Rightarrow> Diverges)"

definition SyncNodeStatus ::
  "(string \<Rightarrow> 'x \<Rightarrow> (goerror + Node) \<times> 'x) \<Rightarrow> string list \<Rightarrow> NodeStatusData \<Rightarrow>
   ('r, 'x) VNode \<times> 'x \<Rightarrow> (('r, 'x) VNode \<times> 'x) run" where
  "SyncNodeStatus cacheNode order data s =
     (case s of (v, x) \<Rightarrow>
        (case Notify cacheNode order data (nodeProvider v) x of
           Ok x \<Rightarrow> Returns (v, x)
         | _ \<Rightarrow> Panics))"

section \<open>Construction\<close>

definition overlay :: "(string, string) gomap \<Rightarrow> (string, string) gomap \<Rightarrow> (string, string) gomap" where
  "overlay old new =
     Some ((case old of None \<Rightarrow> Map.empty | Some m \<Rightarrow> m) ++ (case new of None \<Rightarrow> Map.empty | Some m \<Rightarrow> m))"

definition LabelHostname :: string where "LabelHostname = ''kubernetes.io/hostname''"
definition TaintEffectNoExecute :: string where "TaintEffectNoExecute = ''NoExecute''"

text \<open>
  \<open>buildNode\<close>. Its labels first, then the custom ones; the status replaces the old one as a
  whole. \<open>MustParse\<close> is the parser of quantities of the API package.
\<close>

definition buildNode :: "(string \<Rightarrow> Quantity) \<Rightarrow> BuildVNodeConfig \<Rightarrow> Node \<Rightarrow> Node" where
  "buildNode MustParse cfg node =
     (let own = [LabelKeyOfBaseName \<mapsto> bc_BaseName cfg, LabelKeyOfBaseClusterName \<mapsto> bc_ClusterName cfg,
                 LabelKeyOfComponent \<mapsto> ComponentVNode, LabelKeyOfEnv \<mapsto> bc_Env cfg,
                 LabelKeyOfBaseVersion \<mapsto> NodeVersion cfg, LabelHostname \<mapsto> BaseHostName cfg,
                 LabelKeyOfBaseHostName \<mapsto> BaseHostName cfg];
          pods = Some [''pods'' \<mapsto> MustParse ''65535'']
      in node\<lparr>n_Labels := overlay (overlay (n_Labels node) (Some own)) (bc_CustomLabels cfg),
              n_Annotations := overlay (n_Annotations node) (bc_CustomAnnotations cfg),
              n_Taints := Some ([\<lparr>taint_Key = TaintKeyOfVnode, taint_Value = ''True'', taint_Effect = TaintEffectNoExecute\<rparr>,
                                 \<lparr>taint_Key = TaintKeyOfEnv, taint_Value = bc_Env cfg, taint_Effect = TaintEffectNoExecute\<rparr>] @
                                elems (bc_CustomTaints cfg)),
              n_Status := \<lparr>ns_Phase = NodeRunning,
                ns_Addresses = Some [\<lparr>addr_Type = NodeInternalIP, addr_Address = OrElse '''' (bc_NodeIP cfg) (BaseIP cfg)\<rparr>,
                                     \<lparr>addr_Type = NodeHostName, addr_Address = BaseHostName cfg\<rparr>],
                ns_Conditions = Some [newNodeCondition NodeReady ConditionTrue,
                  newNodeCondition NodeMemoryPressure ConditionFalse, newNodeCondition NodeDiskPressure ConditionFalse,
                  newNodeCondition NodePIDPressure ConditionFalse, newNodeCondition NodeNetworkUnavailable ConditionFalse],
                ns_Capacity = pods, ns_Allocatable = pods, ns_rest = 0\<rparr>\<rparr>)"

text \<open>
  \<open>NewVNode\<close>. The second option sets the architecture and the operating system of the node
  (\<open>platform\<close> stands for a status with them set) and the number of workers; the third one
  builds the node.
\<close>

definition vnodeOpts ::
  "(string \<Rightarrow> Quantity) \<Rightarrow> opaque \<Rightarrow> BuildVNodeConfig \<Rightarrow> (NodeConfig \<Rightarrow> NodeConfig outcome) list" where
  "vnodeOpts MustParse platform cfg =
     [\<lambda>c. Ok (c\<lparr>cfgNode := (cfgNode c)\<lparr>n_Status := (n_Status (cfgNode c))\<lparr>ns_rest := platform\<rparr>\<rparr>,
                NumWorkers := WorkerNum cfg\<rparr>),
      \<lambda>c. Ok (c\<lparr>cfgNode := buildNode MustParse cfg (cfgNode c)\<rparr>),
      WithClient (bcHasClient cfg), WithCache (bcHasCache cfg)]"

text \<open>The liveness of a new node: its zero value, a very old time.\<close>

definition NewVNode ::
  "(string \<Rightarrow> Quantity) \<Rightarrow> opaque \<Rightarrow> int \<Rightarrow> ('r rateLimiter \<times> 'r) \<Rightarrow> BuildVNodeConfig \<Rightarrow>
   (('r, 'x) VNode \<times> ('r, VPodProvider, 'x) kubeletNode) outcome" where
  "NewVNode MustParse platform numCPU dflt cfg =
     (if bc_NodeName cfg = '''' then Err (ErrText ''node name cannot be empty'')
      else case NewNode numCPU dflt (bc_NodeName cfg)
                  (\<lambda>node. Ok (NewVPodProvider (n_Namespace node) (BaseIP cfg) (bc_NodeName cfg)))
                  (vnodeOpts MustParse platform cfg) of
             Err e \<Rightarrow> Err e
           | Panic \<Rightarrow> Panic
           | Ok cm \<Rightarrow>
               Ok (\<lparr>vn_name = bc_NodeName cfg, vn_env = bc_Env cfg, vn_vpodType = VPodType cfg,
                    nodeProvider = NewVNodeProvider cfg, podController = pc cm, exitClosed = False,
                    readyClosed = False, doneClosed = False, acquiredByMe = False, awaitsOthers = False, othersCame = False, lease = None,
                    liveness = \<lparr>isClose = False, LatestHeartBeatTime = zeroTime\<rparr>,
                    TakeOvered = False, vn_err = None\<rparr>, cm))"

section \<open>Running\<close>

text \<open>
  What \<open>Run\<close> starts and waits for: the goroutine that runs the node (\<open>KubeletRun\<close>), whose panic
  (None), as at a second run of the same node, ends the process; the node controller's readiness, the
  polls of the cache, and the registration in the tunnel. \<open>pollsEnd\<close> says in which round the
  check's minute is over.
\<close>

record 'x runEnv =
  runNode :: "'x \<Rightarrow> 'x option"
  nodeReady :: "waitSelect"
  nodeError :: "goerror option"
  cacheHasNode :: "string \<Rightarrow> 'x \<Rightarrow> goerror option \<times> 'x"
  pollsEnd :: "nat \<Rightarrow> bool"
  RegisterNode :: "NodeInfo \<Rightarrow> 'x \<Rightarrow> goerror option \<times> 'x"
  UnRegisterNode :: "string \<Rightarrow> 'x \<Rightarrow> 'x"
  listPods :: "string \<Rightarrow> string \<Rightarrow> 'x \<Rightarrow> (goerror + Pod list) \<times> 'x"

definition checkNodeExistsInClient ::
  "'x runEnv \<Rightarrow> string \<Rightarrow> 'x \<Rightarrow> (bool \<times> goerror option) \<times> 'x" where
  "checkNodeExistsInClient env name x =
     (case cacheHasNode env name x of (err, x) \<Rightarrow> ((err = None, err), x))"

definition discoveryPreviousPods ::
  "('r, 'x) outside \<Rightarrow> 'x runEnv \<Rightarrow> ('r, 'x) VNode \<times> 'x \<Rightarrow> ('r, 'x) VNode \<times> 'x" where
  "discoveryPreviousPods o' env s =
     (case s of (v, x) \<Rightarrow>
        (case listPods env (vn_name v) (vn_vpodType v) x of
           (Inl err, x) \<Rightarrow> (v, x)
         | (Inr pods, x) \<Rightarrow>
             fold (\<lambda>pod. VNodeSyncEnqueue o' (GetPodKey (Some pod))) pods (v, x)))"

text \<open>The deferred function of \<open>Run\<close> keeps the error.\<close>

definition runResult ::
  "goerror option \<Rightarrow> ('r, 'x) VNode \<Rightarrow> 'x \<Rightarrow> (goerror option \<times> ('r, 'x) VNode \<times> 'x) run" where
  "runResult err v x = Returns (err, v\<lparr>vn_err := err\<rparr>, x)"

definition VNodeRun ::
  "('r, 'x) outside \<Rightarrow> 'x runEnv \<Rightarrow> NodeInfo \<Rightarrow> ('r, 'x) VNode \<Rightarrow> 'x \<Rightarrow>
   (goerror option \<times> ('r, 'x) VNode \<times> 'x) run" where
  "VNodeRun o' env initData v x =
     (let v = resetActivationStatus v
      in case runNode env x of
           None \<Rightarrow> Panics
         | Some x \<Rightarrow>
             (case NodeWaitReady (nodeReady env) (nodeError env) of
                Some err \<Rightarrow> runResult (Some err) v x
              | None \<Rightarrow>
                  (case CheckAndFinallyCall (checkNodeExistsInClient env (vn_name v)) (pollsEnd env) Some (\<lambda>x. x) 0 x of
                     None \<Rightarrow> Diverges
                   | Some (Some err, x) \<Rightarrow> runResult (Some err) v x
                   | Some (None, x) \<Rightarrow>
                       (case RegisterNode env initData x of
                          (Some err, x) \<Rightarrow> runResult (Some err) v x
                        | (None, x) \<Rightarrow>
                            (case activate v of
                               Ok v \<Rightarrow> (case discoveryPreviousPods o' env (v, x) of (v, x) \<Rightarrow> runResult None v x)
                             | _ \<Rightarrow> Panics)))))"

text \<open>
  The goroutine that \<open>Run\<close> leaves behind: it cleans up when the node exits, and is then done,
  or when it is released.
\<close>

definition cleanUp :: "'x runEnv \<Rightarrow> ('r, 'x) VNode \<times> 'x \<Rightarrow> ('r, 'x) VNode \<times> 'x" where
  "cleanUp env s =
     (case s of (v, x) \<Rightarrow> (resetActivationStatus v, UnRegisterNode env (vn_name v) x))"

definition exitWatcher ::
  "'x runEnv \<Rightarrow> bool \<Rightarrow> ('r, 'x) VNode \<times> 'x \<Rightarrow> ('r, 'x) VNode \<times> 'x" where
  "exitWatcher env exits s =
     (if exits then (case cleanUp env s of (v, x) \<Rightarrow> (ToDone v, x)) else cleanUp env s)"

end
