(* ===== verification/VNodeStore.thy ===== *)
theory VNodeStore
  imports VNode
begin

text \<open>
  provider/vnode_store.go: the virtual nodes of a controller by name. The store holds pointers
  to the nodes, which the goroutines of the controller share, so the nodes live in an explicit
  heap. Each operation runs under the lock of the store and is atomic. A range over the map
  takes the order it visits the names in.
\<close>

section \<open>State and operations\<close>

record ('r, 'x) VNodeStore =
  nodeNameToVNode :: "string \<rightharpoonup> addr"
  vnHeap :: "addr \<Rightarrow> ('r, 'x) VNode"
  vnFresh :: addr

definition NewVNodeStore :: "(addr \<Rightarrow> ('r, 'x) VNode) \<Rightarrow> ('r, 'x) VNodeStore" where
  "NewVNodeStore h = \<lparr>nodeNameToVNode = Map.empty, vnHeap = h, vnFresh = 0\<rparr>"

text \<open>A new node at an address not in use, and a change of the node at an address.\<close>

definition allocVNode :: "('r, 'x) VNode \<Rightarrow> ('r, 'x) VNodeStore \<Rightarrow> addr \<times> ('r, 'x) VNodeStore" where
  "allocVNode v r = (vnFresh r, r\<lparr>vnHeap := (vnHeap r)(vnFresh r := v), vnFresh := Suc (vnFresh r)\<rparr>)"

definition setVNode :: "addr \<Rightarrow> ('r, 'x) VNode \<Rightarrow> ('r, 'x) VNodeStore \<Rightarrow> ('r, 'x) VNodeStore" where
  "setVNode a v r = r\<lparr>vnHeap := (vnHeap r)(a := v)\<rparr>"

definition AddVNode :: "string \<Rightarrow> addr \<Rightarrow> ('r, 'x) VNodeStore \<Rightarrow> ('r, 'x) VNodeStore outcome" where
  "AddVNode vname a r =
     (if nodeNameToVNode r vname \<noteq> None then Err (ErrText ''node already exists'')
      else Ok (r\<lparr>nodeNameToVNode := (nodeNameToVNode r)(vname \<mapsto> a)\<rparr>))"

definition DeleteVNode :: "string \<Rightarrow> ('r, 'x) VNodeStore \<Rightarrow> ('r, 'x) VNodeStore" where
  "DeleteVNode vname r = r\<lparr>nodeNameToVNode := (nodeNameToVNode r)(vname := None)\<rparr>"

definition GetVNode :: "('r, 'x) VNodeStore \<Rightarrow> string \<Rightarrow> addr option" where
  "GetVNode r vname = nodeNameToVNode r vname"

definition GetVNodeByNodeName :: "('r, 'x) VNodeStore \<Rightarrow> string \<Rightarrow> addr option" where
  "GetVNodeByNodeName r vname = nodeNameToVNode r vname"

definition GetVNodes :: "string list \<Rightarrow> ('r, 'x) VNodeStore \<Rightarrow> addr list" where
  "GetVNodes order r = range_values (nodeNameToVNode r) order"

definition AllNodeNum :: "('r, 'x) VNodeStore \<Rightarrow> nat" where
  "AllNodeNum r = map_len (nodeNameToVNode r)"

definition UpdateNodeStateOnProviderArrived ::
  "gotime \<Rightarrow> string \<Rightarrow> string \<Rightarrow> ('r, 'x) VNodeStore \<Rightarrow> ('r, 'x) VNodeStore" where
  "UpdateNodeStateOnProviderArrived now vname state r =
     (case nodeNameToVNode r vname of
        None \<Rightarrow> r
      | Some a \<Rightarrow>
          (let v = vnHeap r a
           in if EqualFold state NodeStateActivated
              then setVNode a (v\<lparr>liveness := UpdateHeartBeatTime now (liveness v)\<rparr>) r
              else setVNode a (v\<lparr>liveness := Close now (liveness v)\<rparr>) r))"

definition NodeShutdown :: "gotime \<Rightarrow> string \<Rightarrow> ('r, 'x) VNodeStore \<Rightarrow> ('r, 'x) VNodeStore" where
  "NodeShutdown now vname r =
     (case nodeNameToVNode r vname of
        None \<Rightarrow> r
      | Some a \<Rightarrow>
          (let v = vnHeap r a
           in setVNode a (Shutdown (v\<lparr>liveness := Close now (liveness v)\<rparr>)) r))"

text \<open>The names whose node satisfies a test that may panic.\<close>

fun selectNames ::
  "(('r, 'x) VNode \<Rightarrow> bool outcome) \<Rightarrow> ('r, 'x) VNodeStore \<Rightarrow> string list \<Rightarrow> string list outcome" where
  "selectNames test r [] = Ok []"
| "selectNames test r (name # names) =
     (case nodeNameToVNode r name of
        None \<Rightarrow> selectNames test r names
      | Some a \<Rightarrow>
          (case test (vnHeap r a) of
             Panic \<Rightarrow> Panic
           | Err e \<Rightarrow> Err e
           | Ok b \<Rightarrow>
               (case selectNames test r names of
                  Ok ret \<Rightarrow> Ok (if b then name # ret else ret)
                | Err e \<Rightarrow> Err e
                | Panic \<Rightarrow> Panic)))"

definition negate :: "bool outcome \<Rightarrow> bool outcome" where
  "negate r = (case r of Ok b \<Rightarrow> Ok (\<not> b) | Err e \<Rightarrow> Err e | Panic \<Rightarrow> Panic)"

definition GetLeaseOutdatedVNodeNames ::
  "gotime \<Rightarrow> string list \<Rightarrow> string \<Rightarrow> ('r, 'x) VNodeStore \<Rightarrow> string list outcome" where
  "GetLeaseOutdatedVNodeNames now order client r =
     selectNames (\<lambda>v. negate (IsLeader client now v)) r order"

text \<open>The nodes are named by their names in the store.\<close>

definition GetLeaseOccupiedVNodes ::
  "gotime \<Rightarrow> string list \<Rightarrow> string \<Rightarrow> ('r, 'x) VNodeStore \<Rightarrow> string list outcome" where
  "GetLeaseOccupiedVNodes now order client r = selectNames (IsLeader client now) r order"

definition namesWhere ::
  "(('r, 'x) VNode \<Rightarrow> bool) \<Rightarrow> string list \<Rightarrow> ('r, 'x) VNodeStore \<Rightarrow> string list" where
  "namesWhere P order r =
     filter (\<lambda>name. case nodeNameToVNode r name of None \<Rightarrow> False | Some a \<Rightarrow> P (vnHeap r a)) order"

definition RunningNodeNum :: "gotime \<Rightarrow> string list \<Rightarrow> ('r, 'x) VNodeStore \<Rightarrow> nat" where
  "RunningNodeNum now order r = length (namesWhere (\<lambda>v. \<not> IsDead now (liveness v)) order r)"

definition GetUnReachableVNodes :: "gotime \<Rightarrow> string list \<Rightarrow> ('r, 'x) VNodeStore \<Rightarrow> string list" where
  "GetUnReachableVNodes now order r = namesWhere (\<lambda>v. \<not> IsReachable now (liveness v)) order r"

definition GetDeadVNodes :: "gotime \<Rightarrow> string list \<Rightarrow> ('r, 'x) VNodeStore \<Rightarrow> string list" where
  "GetDeadVNodes now order r = namesWhere (\<lambda>v. IsDead now (liveness v)) order r"

section \<open>The store as a guarded store\<close>

interpretation vnodes: guarded_store "GetVNode :: ('r, 'x) VNodeStore \<Rightarrow> string \<Rightarrow> addr option"
  DeleteVNode AddVNode
  by unfold_locales (auto simp: GetVNode_def DeleteVNode_def AddVNode_def fun_eq_iff)

lemma setVNode_get [simp]: "nodeNameToVNode (setVNode a v r) = nodeNameToVNode r"
  by (simp add: setVNode_def)

lemma allocVNode_get [simp]: "nodeNameToVNode (snd (allocVNode v r)) = nodeNameToVNode r"
  by (simp add: allocVNode_def)

text \<open>No two names share a node, and no name points at a free address.\<close>

definition store_ok :: "('r, 'x) VNodeStore \<Rightarrow> bool" where
  "store_ok r \<longleftrightarrow> (\<forall>n a. GetVNode r n = Some a \<longrightarrow> a < vnFresh r) \<and>
     (\<forall>m n a. GetVNode r m = Some a \<longrightarrow> GetVNode r n = Some a \<longrightarrow> m = n) \<and>
     (\<forall>n a. GetVNode r n = Some a \<longrightarrow> vn_name (vnHeap r a) = n)"

lemma store_ok_set: "store_ok r \<Longrightarrow> vn_name v = vn_name (vnHeap r a) \<Longrightarrow> store_ok (setVNode a v r)"
  by (auto simp: store_ok_def GetVNode_def setVNode_def)

lemma store_ok_delete: "store_ok r \<Longrightarrow> store_ok (DeleteVNode n r)"
  by (auto simp: store_ok_def GetVNode_def DeleteVNode_def)

lemma store_ok_add:
  assumes "store_ok r" "allocVNode v r = (a, r1)" "vn_name v = n" "AddVNode n a r1 = Ok r2"
  shows "store_ok r2"
proof -
  have r1: "a = vnFresh r" "r1 = r\<lparr>vnHeap := (vnHeap r)(a := v), vnFresh := Suc a\<rparr>"
    using assms(2) by (auto simp: allocVNode_def)
  have r2: "r2 = r1\<lparr>nodeNameToVNode := (nodeNameToVNode r1)(n \<mapsto> a)\<rparr>"
    using assms(4) by (auto simp: AddVNode_def split: if_splits)
  have old: "GetVNode r m = Some b \<Longrightarrow> b < a" for m b
    using assms(1) by (simp add: store_ok_def r1)
  then have "GetVNode r m \<noteq> Some a" for m by blast
  with old assms(1,3) show ?thesis
    unfolding store_ok_def r2 r1(2) by (auto simp: GetVNode_def less_Suc_eq)
qed

end
