(* ===== verification/VNodeController.thy ===== *)
theory VNodeController
  imports VNodeStore
begin

text \<open>
  vnode_controller/vnode_controller.go and vnode_controller/predicates: the controller that
  starts virtual nodes when the tunnel discovers bases, elects a leader for each node through a
  lease, and hands the events of pods and the messages of the tunnel to the nodes it leads.
  The state of a handler is the controller and the outside world; goroutines that a handler
  starts are operations of their own.
\<close>

section \<open>State and construction\<close>

record BuildVNodeControllerConfig =
  cc_ClientID :: string
  cc_Env :: string
  cc_VPodType :: string
  cc_IsCluster :: bool
  cc_WorkloadMaxLevel :: int
  cc_VNodeWorkerNum :: int
  cc_PseudoNodeIP :: string

record ('r, 'x) VNodeController =
  clientID :: string
  vc_env :: string
  vPodType :: string
  isCluster :: bool
  workloadMaxLevel :: int
  vNodeWorkerNum :: int
  pseudoNodeIP :: string
  vNodeStore :: "('r, 'x) VNodeStore"

definition NewVNodeController ::
  "(addr \<Rightarrow> ('r, 'x) VNode) \<Rightarrow> BuildVNodeControllerConfig option \<Rightarrow> ('r, 'x) VNodeController outcome" where
  "NewVNodeController h cfgPtr =
     (case cfgPtr of
        None \<Rightarrow> Err (ErrText ''config must not be nil'')
      | Some cfg \<Rightarrow>
          if cc_VPodType cfg = '''' then Err (ErrText ''config must set vpod identity'')
          else
            (let cfg = (if cc_IsCluster cfg \<and> cc_WorkloadMaxLevel cfg = 0
                        then cfg\<lparr>cc_WorkloadMaxLevel := 3\<rparr> else cfg);
                 cfg = (if cc_VNodeWorkerNum cfg = 0 then cfg\<lparr>cc_VNodeWorkerNum := 1\<rparr> else cfg)
             in Ok \<lparr>clientID = cc_ClientID cfg, vc_env = cc_Env cfg, vPodType = cc_VPodType cfg,
                    isCluster = cc_IsCluster cfg, workloadMaxLevel = cc_WorkloadMaxLevel cfg,
                    vNodeWorkerNum = cc_VNodeWorkerNum cfg, pseudoNodeIP = cc_PseudoNodeIP cfg,
                    vNodeStore = NewVNodeStore h\<rparr>))"

type_synonym ('r, 'x) vcState = "('r, 'x) VNodeController \<times> 'x"

text \<open>An operation of the node at an address.\<close>

definition onVNode ::
  "addr \<Rightarrow> (('r, 'x) VNode \<times> 'x \<Rightarrow> ('r, 'x) VNode \<times> 'x) \<Rightarrow> ('r, 'x) vcState \<Rightarrow> ('r, 'x) vcState" where
  "onVNode a f s =
     (case s of (c, x) \<Rightarrow> (case f (vnHeap (vNodeStore c) a, x) of (v, x) \<Rightarrow>
        (c\<lparr>vNodeStore := setVNode a v (vNodeStore c)\<rparr>, x)))"

definition runVNodeOp ::
  "addr \<Rightarrow> (('r, 'x) VNode \<times> 'x \<Rightarrow> (('r, 'x) VNode \<times> 'x) run) \<Rightarrow> ('r, 'x) vcState \<Rightarrow> ('r, 'x) vcState run" where
  "runVNodeOp a f s =
     (case s of (c, x) \<Rightarrow>
        (case f (vnHeap (vNodeStore c) a, x) of
           Returns (v, x) \<Rightarrow> Returns (c\<lparr>vNodeStore := setVNode a v (vNodeStore c)\<rparr>, x)
         | Panics \<Rightarrow> Panics
         | Diverges \<Rightarrow> Diverges))"

definition onStore ::
  "(('r, 'x) VNodeStore \<Rightarrow> ('r, 'x) VNodeStore) \<Rightarrow> ('r, 'x) vcState \<Rightarrow> ('r, 'x) vcState" where
  "onStore f s = (case s of (c, x) \<Rightarrow> (c\<lparr>vNodeStore := f (vNodeStore c)\<rparr>, x))"

section \<open>Predicates\<close>

text \<open>
  The events of a watch, and the predicates for a label selector of the API machinery:
  creations, deletions and generic events look at their object, updates at the new one.
\<close>

datatype 'a watchEvent = Created 'a | Deleted 'a | Updated 'a 'a | Generic 'a

fun eventObject :: "'a watchEvent \<Rightarrow> 'a" where
  "eventObject (Created p) = p"
| "eventObject (Deleted p) = p"
| "eventObject (Updated old new) = new"
| "eventObject (Generic p) = p"

definition VPodPredicate :: "((string, string) gomap \<Rightarrow> bool) \<Rightarrow> Pod watchEvent \<Rightarrow> bool" where
  "VPodPredicate Matches e \<longleftrightarrow> Matches (Labels (eventObject e)) \<and> NodeName (eventObject e) \<noteq> []"

definition VNodePredicate :: "((string, string) gomap \<Rightarrow> bool) \<Rightarrow> Node watchEvent \<Rightarrow> bool" where
  "VNodePredicate Matches e \<longleftrightarrow> Matches (n_Labels (eventObject e))"

definition VNodeLeasePredicate :: "((string, string) gomap \<Rightarrow> bool) \<Rightarrow> Lease watchEvent \<Rightarrow> bool" where
  "VNodeLeasePredicate Matches e \<longleftrightarrow> Matches (l_Labels (eventObject e))"

section \<open>Which updates matter\<close>

definition deleteGraceTimeEqual :: "int option \<Rightarrow> int option \<Rightarrow> bool" where
  "deleteGraceTimeEqual old new =
     (if old = None \<and> new = None then True
      else case (old, new) of (Some a, Some b) \<Rightarrow> a = b | _ \<Rightarrow> False)"

definition podShouldEnqueueForDelete :: "Pod \<Rightarrow> Pod \<Rightarrow> bool" where
  "podShouldEnqueueForDelete oldPod newPod =
     (if \<not> deleteGraceTimeEqual (DeletionGracePeriodSeconds oldPod) (DeletionGracePeriodSeconds newPod)
      then True
      else DeletionTimestamp oldPod \<noteq> DeletionTimestamp newPod)"

definition podShouldEnqueueForAdd :: "Pod \<Rightarrow> Pod \<Rightarrow> bool" where
  "podShouldEnqueueForAdd oldPod newPod \<longleftrightarrow> NodeName oldPod = '''' \<and> NodeName newPod \<noteq> ''''"

definition podShouldEnqueue :: "Pod option \<Rightarrow> Pod option \<Rightarrow> bool" where
  "podShouldEnqueue oldPtr newPtr =
     (case (oldPtr, newPtr) of
        (Some oldPod, Some newPod) \<Rightarrow>
          (if \<not> PodsEqual oldPod newPod then True
           else if podShouldEnqueueForDelete oldPod newPod then True
           else podShouldEnqueueForAdd oldPod newPod)
      | _ \<Rightarrow> False)"

section \<open>Pod events\<close>

definition shutdownVNode :: "('r, 'x) outside \<Rightarrow> string \<Rightarrow> ('r, 'x) vcState \<Rightarrow> ('r, 'x) vcState" where
  "shutdownVNode o' vname s = onStore (NodeShutdown (oNow o' (snd s)) vname) s"

definition isValidStatus ::
  "('r, 'x) outside \<Rightarrow> addr \<Rightarrow> ('r, 'x) vcState \<Rightarrow> bool \<times> ('r, 'x) vcState" where
  "isValidStatus o' a s =
     (let v = vnHeap (vNodeStore (fst s)) a; now = oNow o' (snd s)
      in if \<not> IsReady v then (False, s)
         else if IsDead now (liveness v) then (False, shutdownVNode o' (GetNodeName v) s)
         else if \<not> IsReachable now (liveness v) then (False, s)
         else (True, s))"

text \<open>A pod that is not known yet becomes known.\<close>

definition knowPod :: "addr \<Rightarrow> Pod \<Rightarrow> ('r, 'x) vcState \<Rightarrow> ('r, 'x) vcState" where
  "knowPod a pod s =
     (if VNodeGetKnownPod (vnHeap (vNodeStore (fst s)) a) (GetPodKey (Some pod)) = None
      then onVNode a (AddKnowPod pod) s else s)"

text \<open>What follows when the client leads the node.\<close>

definition asLeader ::
  "('r, 'x) outside \<Rightarrow> addr \<Rightarrow> (('r, 'x) vcState \<Rightarrow> ('r, 'x) vcState run) \<Rightarrow> ('r, 'x) vcState \<Rightarrow>
   ('r, 'x) vcState run" where
  "asLeader o' a f s =
     (case IsLeader (clientID (fst s)) (oNow o' (snd s)) (vnHeap (vNodeStore (fst s)) a) of
        Ok True \<Rightarrow> f s
      | Ok False \<Rightarrow> Returns s
      | _ \<Rightarrow> Panics)"

definition ifValid ::
  "('r, 'x) outside \<Rightarrow> addr \<Rightarrow> (('r, 'x) vcState \<Rightarrow> ('r, 'x) vcState) \<Rightarrow> ('r, 'x) vcState \<Rightarrow>
   ('r, 'x) vcState run" where
  "ifValid o' a f s =
     (case isValidStatus o' a s of (valid, s) \<Rightarrow> Returns (if valid then f s else s))"

definition podAddHandler :: "('r, 'x) outside \<Rightarrow> Pod \<Rightarrow> ('r, 'x) vcState \<Rightarrow> ('r, 'x) vcState run" where
  "podAddHandler o' pod s =
     (case GetVNodeByNodeName (vNodeStore (fst s)) (NodeName pod) of
        None \<Rightarrow> Returns s
      | Some a \<Rightarrow>
          (let podKey = GetPodKey (Some pod)
           in asLeader o' a (ifValid o' a (onVNode a (VNodeSyncEnqueue o' podKey))) (knowPod a pod s)))"

definition podUpdateHandler ::
  "('r, 'x) outside \<Rightarrow> Pod \<Rightarrow> Pod \<Rightarrow> ('r, 'x) vcState \<Rightarrow> ('r, 'x) vcState run" where
  "podUpdateHandler o' oldPod newPod s =
     (case GetVNodeByNodeName (vNodeStore (fst s)) (NodeName newPod) of
        None \<Rightarrow> Returns s
      | Some a \<Rightarrow>
          (let podKey = GetPodKey (Some newPod)
           in asLeader o' a
                (ifValid o' a (\<lambda>s. if podShouldEnqueue (Some oldPod) (Some newPod)
                                  then onVNode a (VNodeSyncEnqueue o' podKey) s else s))
                (knowPod a newPod s)))"

definition podDeleteHandler :: "('r, 'x) outside \<Rightarrow> Pod \<Rightarrow> ('r, 'x) vcState \<Rightarrow> ('r, 'x) vcState run" where
  "podDeleteHandler o' pod s =
     (case GetVNodeByNodeName (vNodeStore (fst s)) (NodeName pod) of
        None \<Rightarrow> Returns s
      | Some a \<Rightarrow>
          (let podKey = GetPodKey (Some pod)
           in asLeader o' a
                (ifValid o' a
                   (\<lambda>s. onVNode a (VNodeDeleteForget (deletionKey podKey pod))
                          (onVNode a (VNodeSyncEnqueue o' podKey)
                             (onVNode a (VNodeDeleteKnownPod podKey) s)))) s))"

section \<open>Messages of the tunnel\<close>

text \<open>
  What the controller asks of the cache: the node of a name and the pods of a node, with an
  error that \<open>listPodFromKube\<close>'s callers drop.
\<close>

record 'x tunnelEnv =
  cacheNode :: "string \<Rightarrow> 'x \<Rightarrow> (goerror + Node) \<times> 'x"
  cacheListPods :: "string \<Rightarrow> 'x \<Rightarrow> (Pod list \<times> goerror option) \<times> 'x"
  rangeConditions :: "string list"
  rangePods :: "string list"
  clockNow :: gotime
  clockNext :: "nat \<Rightarrow> gotime"

definition listPodFromKube ::
  "'x tunnelEnv \<Rightarrow> string \<Rightarrow> 'x \<Rightarrow> (Pod list \<times> goerror option) \<times> 'x" where
  "listPodFromKube env vname x = cacheListPods env vname x"

definition onBaseStatusArrived ::
  "('r, 'x) outside \<Rightarrow> 'x tunnelEnv \<Rightarrow> string \<Rightarrow> NodeStatusData \<Rightarrow> ('r, 'x) vcState \<Rightarrow> ('r, 'x) vcState run" where
  "onBaseStatusArrived o' env vname data s =
     (case GetVNode (vNodeStore (fst s)) vname of
        None \<Rightarrow> Returns s
      | Some a \<Rightarrow>
          asLeader o' a
            (\<lambda>s. case runVNodeOp a (SyncNodeStatus (cacheNode env) (rangeConditions env) data) s of
                   Returns s \<Rightarrow>
                     Returns (if NodeState data \<noteq> ''''
                              then onStore (UpdateNodeStateOnProviderArrived (oNow o' (snd s)) vname (NodeState data)) s
                              else s)
                 | Panics \<Rightarrow> Panics
                 | Diverges \<Rightarrow> Diverges) s)"

definition onAllBizStatusArrived ::
  "('r, 'x) outside \<Rightarrow> 'x tunnelEnv \<Rightarrow> string \<Rightarrow> BizStatusData list \<Rightarrow> ('r, 'x) vcState \<Rightarrow> ('r, 'x) vcState run" where
  "onAllBizStatusArrived o' env vname bizStatusDatas s =
     (case GetVNode (vNodeStore (fst s)) vname of
        None \<Rightarrow> Returns s
      | Some a \<Rightarrow>
          asLeader o' a
            (\<lambda>(c, x). case listPodFromKube env vname x of ((pods, _), x) \<Rightarrow>
               (case FillPodKey pods bizStatusDatas of (withPodKey, withNoPodKey) \<Rightarrow>
                  runVNodeOp a (SyncBatchBizStatusToKube o' (rangePods env) (clockNow env) (clockNext env)
                     withPodKey withNoPodKey) (c, x))) s)"

definition onSingleBizStatusArrived ::
  "('r, 'x) outside \<Rightarrow> 'x tunnelEnv \<Rightarrow> string \<Rightarrow> BizStatusData \<Rightarrow> ('r, 'x) vcState \<Rightarrow> ('r, 'x) vcState run" where
  "onSingleBizStatusArrived o' env vname bizStatusData s =
     (case GetVNode (vNodeStore (fst s)) vname of
        None \<Rightarrow> Returns s
      | Some a \<Rightarrow>
          asLeader o' a
            (\<lambda>(c, x). case listPodFromKube env vname x of ((pods, _), x) \<Rightarrow>
               (case FillPodKey pods [bizStatusData] of (withPodKey, withNoPodKey) \<Rightarrow>
                  runVNodeOp a (SyncOneNodeBizStatusToKube o' (clockNext env) withPodKey withNoPodKey)
                    (c, x))) s)"

section \<open>Starting and stopping nodes\<close>

text \<open>The resource parser, the platform, the number of CPUs and the default rate limiter.\<close>

record 'r buildEnv =
  MustParse :: "string \<Rightarrow> Quantity"
  platform :: opaque
  numCPU :: int
  dfltLimiter :: "'r rateLimiter \<times> 'r"

definition vnodeConfig :: "('r, 'x) VNodeController \<Rightarrow> NodeInfo \<Rightarrow> BuildVNodeConfig" where
  "vnodeConfig c initData =
     \<lparr>BaseIP = (if NodeIP (NetworkInfo initData) = '''' then ''127.0.0.1'' else NodeIP (NetworkInfo initData)),
      BaseHostName = HostName (NetworkInfo initData), bc_NodeIP = pseudoNodeIP c,
      bc_NodeName = m_Name (Metadata initData), NodeVersion = Version (Metadata initData),
      bc_BaseName = BaseName (Metadata initData), VPodType = vPodType c,
      bc_ClusterName = ClusterName (Metadata initData), bc_Env = vc_env c,
      bc_CustomTaints = CustomTaints initData, bc_CustomLabels = CustomLabels initData,
      bc_CustomAnnotations = CustomAnnotations initData, WorkerNum = vNodeWorkerNum c,
      bcHasClient = True, bcHasCache = True\<rparr>"

definition createVNode ::
  "'r buildEnv \<Rightarrow> NodeInfo \<Rightarrow> ('r, 'x) VNodeController \<Rightarrow> (addr \<times> ('r, 'x) VNodeController) outcome" where
  "createVNode b initData c =
     (let vname = m_Name (Metadata initData)
      in case NewVNode (MustParse b) (platform b) (numCPU b) (dfltLimiter b) (vnodeConfig c initData) of
           Err e \<Rightarrow> Err (ErrWrap ''Error new vnode'' e)
         | Panic \<Rightarrow> Panic
         | Ok (v, cm) \<Rightarrow>
             (case allocVNode v (vNodeStore c) of (a, r) \<Rightarrow>
                (case AddVNode vname a r of
                   Err e \<Rightarrow> Err (ErrWrap ''Error addVNode vnode'' e)
                 | Panic \<Rightarrow> Panic
                 | Ok r \<Rightarrow> Ok (a, c\<lparr>vNodeStore := r\<rparr>))))"

text \<open>
  \<open>createAndRunVNode\<close> logs nothing but drops the error. The result says whether a node was
  created, whose election, take-over loop and watcher then run. \<open>startVNode\<close> runs under the lock
  of the controller.
\<close>

definition createAndRunVNode ::
  "'r buildEnv \<Rightarrow> NodeInfo \<Rightarrow> ('r, 'x) VNodeController \<Rightarrow> (addr option \<times> ('r, 'x) VNodeController) run" where
  "createAndRunVNode b initData c =
     (case createVNode b initData c of
        Ok (a, c) \<Rightarrow> Returns (Some a, c)
      | Err e \<Rightarrow> Returns (None, c)
      | Panic \<Rightarrow> Panics)"

definition startVNode ::
  "'r buildEnv \<Rightarrow> NodeInfo \<Rightarrow> ('r, 'x) VNodeController \<Rightarrow> (addr option \<times> ('r, 'x) VNodeController) run" where
  "startVNode b initData c =
     (case GetVNode (vNodeStore c) (m_Name (Metadata initData)) of
        Some a \<Rightarrow> Returns (None, c)
      | None \<Rightarrow> createAndRunVNode b initData c)"

fun startAll ::
  "'r buildEnv \<Rightarrow> NodeInfo list \<Rightarrow> ('r, 'x) VNodeController \<Rightarrow> ('r, 'x) VNodeController run" where
  "startAll b [] c = Returns c"
| "startAll b (d # ds) c =
     (case startVNode b d c of
        Returns (_, c) \<Rightarrow> startAll b ds c
      | Panics \<Rightarrow> Panics
      | Diverges \<Rightarrow> Diverges)"

definition discoverPreviousNodes ::
  "'r buildEnv \<Rightarrow> Node list \<Rightarrow> ('r, 'x) VNodeController \<Rightarrow> ('r, 'x) VNodeController run" where
  "discoverPreviousNodes b nodes c = startAll b (map ConvertNodeToNodeInfo nodes) c"

definition onBaseDiscovered ::
  "('r, 'x) outside \<Rightarrow> 'r buildEnv \<Rightarrow> NodeInfo \<Rightarrow> ('r, 'x) vcState \<Rightarrow> ('r, 'x) vcState run" where
  "onBaseDiscovered o' b data s =
     (case s of (c, x) \<Rightarrow>
        (case (if State data = NodeStateActivated then startVNode b data c else Returns (None, c)) of
           Returns (_, c) \<Rightarrow>
             Returns (onStore (UpdateNodeStateOnProviderArrived (oNow o' x) (m_Name (Metadata data)) (State data)) (c, x))
         | Panics \<Rightarrow> Panics
         | Diverges \<Rightarrow> Diverges))"

text \<open>What runs when a node is done; the error of the removal is logged.\<close>

definition deleteVNode :: "'x removeEnv \<Rightarrow> addr \<Rightarrow> ('r, 'x) vcState \<Rightarrow> ('r, 'x) vcState" where
  "deleteVNode env a s =
     (case s of (c, x) \<Rightarrow>
        (let v = vnHeap (vNodeStore c) a;
             c = c\<lparr>vNodeStore := DeleteVNode (GetNodeName v) (vNodeStore c)\<rparr>
         in (c, snd (Remove env v x))))"

section \<open>Leader election\<close>

text \<open>
  The lease object in the API server. \<open>leaseCreate\<close> answers with the lease as stored;
  \<open>leasePatch\<close> takes the new lease and the one the patch is computed from. Every call and
  every reading of the clock changes the world, for time passes and others act.
\<close>

record 'x leaseEnv =
  leaseSleep :: "'x \<Rightarrow> 'x"
  leaseGet :: "string \<Rightarrow> string \<Rightarrow> 'x \<Rightarrow> (goerror + Lease) \<times> 'x"
  leaseCreate :: "Lease \<Rightarrow> 'x \<Rightarrow> (goerror + Lease) \<times> 'x"
  leasePatch :: "Lease \<Rightarrow> Lease \<Rightarrow> 'x \<Rightarrow> goerror option \<times> 'x"
  leaseNow :: "'x \<Rightarrow> gotime \<times> 'x"

text \<open>\<open>errors.Is\<close> for the two errors of a context.\<close>

fun isCtxError :: "goerror \<Rightarrow> bool" where
  "isCtxError CtxCanceled \<longleftrightarrow> True"
| "isCtxError CtxDeadline \<longleftrightarrow> True"
| "isCtxError (ErrWrap _ e) \<longleftrightarrow> isCtxError e"
| "isCtxError _ \<longleftrightarrow> False"

text \<open>One round of the loop ends with a return or goes on to the next round.\<close>

datatype 's round = Done 's | Again 's | Crashed

definition renewLease ::
  "'x leaseEnv \<Rightarrow> string \<Rightarrow> Lease \<Rightarrow> ('r, 'x) VNode \<Rightarrow> 'x \<Rightarrow> (('r, 'x) VNode \<times> 'x) round" where
  "renewLease env client l v x =
     (case leaseNow env x of (now, x) \<Rightarrow>
        (let newLease = l\<lparr>l_HolderIdentity := Some client, l_RenewTime := Some now\<rparr>
         in case leasePatch env newLease l x of
              (None, x) \<Rightarrow> Done (SetLease (Some l) v, x)
            | (Some err, x) \<Rightarrow> if isCtxError err then Done (v, x) else Again (v, x)))"

definition useLease ::
  "'x leaseEnv \<Rightarrow> string \<Rightarrow> bool \<Rightarrow> Lease \<Rightarrow> ('r, 'x) VNode \<Rightarrow> 'x \<Rightarrow> (('r, 'x) VNode \<times> 'x) round" where
  "useLease env client created l v x =
     (case leaseNow env x of (t1, x) \<Rightarrow>
        (case IsLeader client t1 v of
           Ok isLeaderBefore \<Rightarrow>
             (let v = SetLease (Some l) v
              in case leaseNow env x of (t2, x) \<Rightarrow>
                (case IsLeader client t2 v of
                   Ok isLeaderNow \<Rightarrow>
                     if isLeaderBefore \<and> \<not> isLeaderNow
                     then Done (LeaderAcquiredByOthers v, x)
                     else
                       (let v = (if isLeaderNow \<and> \<not> TakeOvered v then LeaderAcquiredByMe v else v)
                        in if created \<or> \<not> isLeaderNow then Done (v, x)
                           else renewLease env client l v x)
                 | _ \<Rightarrow> Crashed))
         | _ \<Rightarrow> Crashed))"

definition leaseRound ::
  "'x leaseEnv \<Rightarrow> string \<Rightarrow> ('r, 'x) VNode \<Rightarrow> 'x \<Rightarrow> (('r, 'x) VNode \<times> 'x) round" where
  "leaseRound env client v x =
     (case leaseGet env (vn_name v) NamespaceNodeLease (leaseSleep env x) of
        (Inr l, x) \<Rightarrow> useLease env client False l v x
      | (Inl err, x) \<Rightarrow>
          if IsNotFound err
          then (case leaseNow env x of (now, x) \<Rightarrow>
            (case leaseCreate env (NewLease now client v) x of
               (Inl err, x) \<Rightarrow> Again (v, x)
             | (Inr l, x) \<Rightarrow> useLease env client True l v x))
          else Again (v, x))"

fun leaseLoop ::
  "'x leaseEnv \<Rightarrow> string \<Rightarrow> nat \<Rightarrow> ('r, 'x) VNode \<times> 'x \<Rightarrow> (('r, 'x) VNode \<times> 'x) run" where
  "leaseLoop env client 0 s = Returns s"
| "leaseLoop env client (Suc n) (v, x) =
     (case leaseRound env client v x of
        Done s \<Rightarrow> Returns s
      | Again s \<Rightarrow> leaseLoop env client n s
      | Crashed \<Rightarrow> Panics)"

definition createOrRetryUpdateLease ::
  "'x leaseEnv \<Rightarrow> string \<Rightarrow> ('r, 'x) VNode \<times> 'x \<Rightarrow> (('r, 'x) VNode \<times> 'x) run" where
  "createOrRetryUpdateLease env client s = leaseLoop env client NodeLeaseMaxRetryTimes s"

section \<open>Taking over a node\<close>

text \<open>
  \<open>takeOverVNode\<close> up to the last select, and its end when the node is released. The first
  result says whether the node was taken over.
\<close>

definition takeOverVNode ::
  "('r, 'x) outside \<Rightarrow> 'x runEnv \<Rightarrow> waitSelect \<Rightarrow> NodeInfo \<Rightarrow> ('r, 'x) VNode \<times> 'x \<Rightarrow>
   (bool \<times> ('r, 'x) VNode \<times> 'x) run" where
  "takeOverVNode o' env wait initData s =
     (case s of (v, x) \<Rightarrow>
        (case VNodeRun o' env initData (v\<lparr>TakeOvered := True\<rparr>) x of
           Returns (Some err, v, x) \<Rightarrow> Returns (False, v\<lparr>TakeOvered := False\<rparr>, x)
         | Returns (None, v, x) \<Rightarrow>
             (case VNodeWaitReady wait v of
                Some err \<Rightarrow> (case cleanUp env (v, x) of (v, x) \<Rightarrow> Returns (False, v\<lparr>TakeOvered := False\<rparr>, x))
              | None \<Rightarrow> Returns (True, v\<lparr>awaitsOthers := True\<rparr>, x))
         | Panics \<Rightarrow> Panics
         | Diverges \<Rightarrow> Diverges))"

text \<open>Releasing the node ends its context, which wakes the watcher of \<open>Run\<close>.\<close>

definition releaseVNode :: "'x runEnv \<Rightarrow> ('r, 'x) VNode \<times> 'x \<Rightarrow> ('r, 'x) VNode \<times> 'x" where
  "releaseVNode env s =
     (case cleanUp env s of (v, x) \<Rightarrow> (v\<lparr>TakeOvered := False, awaitsOthers := False, othersCame := False\<rparr>, x))"

text \<open>
  One round of the loop of \<open>runVNode\<close>: it takes the token of a new leadership, if there is one,
  and takes the node over.
\<close>

definition takeOverRound ::
  "('r, 'x) outside \<Rightarrow> 'x runEnv \<Rightarrow> waitSelect \<Rightarrow> NodeInfo \<Rightarrow> ('r, 'x) VNode \<times> 'x \<Rightarrow>
   (bool \<times> ('r, 'x) VNode \<times> 'x) run" where
  "takeOverRound o' env wait initData s =
     (case s of (v, x) \<Rightarrow>
        if acquiredByMe v \<and> \<not> TakeOvered v then takeOverVNode o' env wait initData (v\<lparr>acquiredByMe := False\<rparr>, x)
        else Returns (False, v, x))"

text \<open>The periodic check of a node that was taken over.\<close>

definition checkDead :: "('r, 'x) outside \<Rightarrow> addr \<Rightarrow> ('r, 'x) vcState \<Rightarrow> ('r, 'x) vcState" where
  "checkDead o' a s =
     (let v = vnHeap (vNodeStore (fst s)) a
      in if IsDead (oNow o' (snd s)) (liveness v) then shutdownVNode o' (GetNodeName v) s else s)"

section \<open>Timed tasks\<close>

text \<open>
  What \<open>TimedTaskWithInterval\<close> gets: a task that runs at once and again after each interval, until its
  context ends.
\<close>

record 's timedTask =
  taskInterval :: duration
  taskBody :: "'s \<Rightarrow> 's run"

definition startLeaderElection :: "'x leaseEnv \<Rightarrow> addr \<Rightarrow> ('r, 'x) vcState timedTask" where
  "startLeaderElection env a =
     \<lparr>taskInterval = second * NodeLeaseUpdatePeriodSeconds,
      taskBody = (\<lambda>s. runVNodeOp a (createOrRetryUpdateLease env (clientID (fst s))) s)\<rparr>"

text \<open>
  The tasks of a node that was taken over: they ask the tunnel for the health of the base and for its bizs,
  and look whether the node is dead. An error of the tunnel is logged.
\<close>

record 'x connectEnv =
  tunnelFetchHealthData :: "string \<Rightarrow> 'x \<Rightarrow> goerror option \<times> 'x"
  tunnelQueryAllBizStatusData :: "string \<Rightarrow> 'x \<Rightarrow> goerror option \<times> 'x"

definition connectWithInterval ::
  "('r, 'x) outside \<Rightarrow> 'x connectEnv \<Rightarrow> addr \<Rightarrow> ('r, 'x) vcState \<Rightarrow> ('r, 'x) vcState timedTask list" where
  "connectWithInterval o' env a s0 =
     (let n = GetNodeName (vnHeap (vNodeStore (fst s0)) a)
      in [\<lparr>taskInterval = second * NodeToFetchHeartBeatInterval,
           taskBody = (\<lambda>(c, x). Returns (c, snd (tunnelFetchHealthData env n x)))\<rparr>,
          \<lparr>taskInterval = second * NodeToFetchAllBizStatusInterval,
           taskBody = (\<lambda>(c, x). Returns (c, snd (tunnelQueryAllBizStatusData env n x)))\<rparr>,
          \<lparr>taskInterval = NodeToCheckUnreachableAndDeadStatusInterval * second,
           taskBody = (\<lambda>s. Returns (checkDead o' a s))\<rparr>])"

text \<open>The periodic look at the nodes that the client does not lead only logs their names.\<close>

definition outdatedTask ::
  "('r, 'x) outside \<Rightarrow> string list \<Rightarrow> (string list \<Rightarrow> 'x \<Rightarrow> 'x) \<Rightarrow> ('r, 'x) vcState timedTask" where
  "outdatedTask o' order logNames =
     \<lparr>taskInterval = 5 * second,
      taskBody = (\<lambda>(c, x).
        case GetLeaseOutdatedVNodeNames (oNow o' x) order (clientID c) (vNodeStore c) of
          Ok names \<Rightarrow> Returns (c, if names \<noteq> [] then logNames names x else x)
        | _ \<Rightarrow> Panics)\<rparr>"

section \<open>Start-up\<close>

text \<open>
  \<open>SetupWithManager\<close> up to its goroutine: the callbacks go to the tunnel, then the index of the pods by
  node, the controller and the watch of the pods are registered, each of which may fail. Nothing is started
  unless all of them succeed; the reconciler that is registered does nothing.
\<close>

record 'x managerEnv =
  registerCallbacks :: "'x \<Rightarrow> 'x"
  IndexField :: "string \<Rightarrow> (Pod \<Rightarrow> string list) \<Rightarrow> 'x \<Rightarrow> goerror option \<times> 'x"
  newController :: "string \<Rightarrow> 'x \<Rightarrow> goerror option \<times> 'x"
  watchPods :: "string \<Rightarrow> string \<Rightarrow> 'x \<Rightarrow> goerror option \<times> 'x"

definition Reconcile :: "('r, 'x) vcState \<Rightarrow> goerror option \<times> ('r, 'x) vcState" where
  "Reconcile s = (None, s)"

definition SetupWithManager :: "'x managerEnv \<Rightarrow> ('r, 'x) vcState \<Rightarrow> goerror option \<times> ('r, 'x) vcState" where
  "SetupWithManager env s =
     (case s of (c, x) \<Rightarrow>
        (case IndexField env ''spec.nodeName'' (\<lambda>pod. [NodeName pod]) (registerCallbacks env x) of
           (Some err, x) \<Rightarrow> (Some err, c, x)
         | (None, x) \<Rightarrow>
             (case newController env ''vnode-controller'' x of
                (Some err, x) \<Rightarrow> (Some err, c, x)
              | (None, x) \<Rightarrow>
                  (case watchPods env LabelKeyOfComponent (vPodType c) x of
                     (Some err, x) \<Rightarrow> (Some err, c, x)
                   | (None, x) \<Rightarrow> (None, c, x)))))"

text \<open>Two functions that nothing calls.\<close>

definition discoverPreviousPods ::
  "('r, 'x) outside \<Rightarrow> addr \<Rightarrow> Pod list \<Rightarrow> ('r, 'x) vcState \<Rightarrow> ('r, 'x) vcState" where
  "discoverPreviousPods o' a pods s =
     fold (\<lambda>pod. onVNode a (VNodeSyncEnqueue o' (GetPodKey (Some pod)))) pods s"

definition getPodFromKube ::
  "('r, 'x) outside \<Rightarrow> string \<Rightarrow> string \<Rightarrow> ('r, 'x) vcState \<Rightarrow> (goerror + Pod) \<times> ('r, 'x) vcState" where
  "getPodFromKube o' namespace name s =
     (case s of (c, x) \<Rightarrow> (case oCacheGet o' namespace name x of (r, x) \<Rightarrow> (r, c, x)))"

text \<open>
  The goroutine of \<open>SetupWithManager\<close>. It waits for the tunnel, for at most a minute
  (\<open>tunnelPollsEnd\<close> says in which round that is over) and whatever comes of it; it then needs the
  cache to be in sync and the nodes of this environment to be listed, starts them, and closes the
  ready channel. The result says whether it was closed.
\<close>

record 'x setupEnv =
  tunnelReady :: "'x \<Rightarrow> bool \<times> 'x"
  tunnelPollsEnd :: "nat \<Rightarrow> bool"
  WaitForCacheSync :: "'x \<Rightarrow> bool \<times> 'x"
  listNodes :: "string \<Rightarrow> string \<Rightarrow> 'x \<Rightarrow> (goerror + Node list) \<times> 'x"

definition startUp ::
  "'x setupEnv \<Rightarrow> 'r buildEnv \<Rightarrow> ('r, 'x) vcState \<Rightarrow> (bool \<times> ('r, 'x) vcState) run" where
  "startUp env b s =
     (case s of (c, x) \<Rightarrow>
        (case CheckAndFinallyCall (\<lambda>x. case tunnelReady env x of (r, x) \<Rightarrow> ((r, None), x)) (tunnelPollsEnd env)
                Some (\<lambda>x. x) 0 x of
           None \<Rightarrow> Diverges
         | Some (_, x) \<Rightarrow>
             (case WaitForCacheSync env x of
                (False, x) \<Rightarrow> Returns (False, c, x)
              | (True, x) \<Rightarrow>
                  (case listNodes env ComponentVNode (vc_env c) x of
                     (Inl err, x) \<Rightarrow> Returns (False, c, x)
                   | (Inr nodes, x) \<Rightarrow>
                       (case discoverPreviousNodes b nodes c of
                          Returns c \<Rightarrow> Returns (True, c, x)
                        | Panics \<Rightarrow> Panics
                        | Diverges \<Rightarrow> Diverges)))))"

text \<open>
  The pod watch of \<open>SetupWithManager\<close>: an event that passes the predicate waits for the ready
  channel, for ever if it is never closed. Generic events have no handler.
\<close>

definition podHandler ::
  "((string, string) gomap \<Rightarrow> bool) \<Rightarrow> bool \<Rightarrow> ('r, 'x) outside \<Rightarrow> Pod watchEvent \<Rightarrow> ('r, 'x) vcState \<Rightarrow>
   ('r, 'x) vcState run" where
  "podHandler Matches vcReady o' e s =
     (if \<not> VPodPredicate Matches e then Returns s
      else case e of
        Generic _ \<Rightarrow> Returns s
      | Created pod \<Rightarrow> if vcReady then podAddHandler o' pod s else Diverges
      | Updated oldPod newPod \<Rightarrow> if vcReady then podUpdateHandler o' oldPod newPod s else Diverges
      | Deleted pod \<Rightarrow> if vcReady then podDeleteHandler o' pod s else Diverges)"

section \<open>Workload\<close>

text \<open>The products are of Go's 64-bit integers and durations, and wrap. Only tests call the two functions.\<close>

definition workloadLevel :: "gotime \<Rightarrow> string list \<Rightarrow> ('r, 'x) VNodeController \<Rightarrow> int" where
  "workloadLevel now order c =
     (if AllNodeNum (vNodeStore c) = 0 then 0
      else truncDiv (wrap64 (int (RunningNodeNum now order (vNodeStore c)) * workloadMaxLevel c))
             (int (AllNodeNum (vNodeStore c)) + 1))"

definition delayWithWorkload :: "gotime \<Rightarrow> string list \<Rightarrow> ('r, 'x) VNodeController \<Rightarrow> duration" where
  "delayWithWorkload now order c =
     (if \<not> isCluster c then 0 else wrap64 (100 * millisecond * workloadLevel now order c))"

end
