(* ===== verification/Leader_Spec.thy ===== *)
theory Leader_Spec
  imports VNodeController
begin

text \<open>
  Leader election over the lease of a node. The API server, the clock and everybody else are
  the world; what is assumed of them is stated as predicates on the environment: a call may
  fail at any time, and anything may happen between two calls that keeps the holder of the
  lease. The results: two clients never both believe to lead a node, and a lease that expired
  is never acquired again.
\<close>

section \<open>Clients in turn\<close>

text \<open>The clients of one node run their election in any order, each on its own copy of the node.\<close>

fun electionRun ::
  "'x leaseEnv \<Rightarrow> string list \<Rightarrow> (string \<Rightarrow> ('r, 'x) VNode) \<times> 'x \<Rightarrow> ((string \<Rightarrow> ('r, 'x) VNode) \<times> 'x) run" where
  "electionRun env [] s = Returns s"
| "electionRun env (c # cs) (vs, x) =
     (case createOrRetryUpdateLease env c (vs c, x) of
        Returns (v, x) \<Rightarrow> electionRun env cs (vs(c := v), x)
      | Panics \<Rightarrow> Panics
      | Diverges \<Rightarrow> Diverges)"

lemma IsLeader_iff:
  "IsLeader c t v = Ok True \<longleftrightarrow>
     (\<exists>l r. lease v = Some l \<and> l_HolderIdentity l = Some c \<and> c \<noteq> '''' \<and> l_RenewTime l = Some r \<and>
        \<not> After t (Add r (second * NodeLeaseDurationSeconds)))"
  by (auto simp: IsLeader_def Let_def split: option.split)

lemma IsLeader_SetLease [simp]:
  "lease (SetLease l v) = l" "lease (LeaderAcquiredByMe v) = lease v"
  "lease (LeaderAcquiredByOthers v) = lease v"
  "vn_name (SetLease l v) = vn_name v" "vn_name (LeaderAcquiredByMe v) = vn_name v"
  "vn_name (LeaderAcquiredByOthers v) = vn_name v"
  by (simp_all add: SetLease_def LeaderAcquiredByMe_def LeaderAcquiredByOthers_def)

section \<open>At most one leader\<close>

text \<open>The holder of the lease stays the same, once there is a lease.\<close>

definition keepsHolder :: "('x \<Rightarrow> Lease option) \<Rightarrow> 'x \<Rightarrow> 'x \<Rightarrow> bool" where
  "keepsHolder cur x x' \<longleftrightarrow>
     (\<forall>l. cur x = Some l \<longrightarrow> (\<exists>l'. cur x' = Some l' \<and> l_HolderIdentity l' = l_HolderIdentity l))"

definition holds :: "('x \<Rightarrow> Lease option) \<Rightarrow> 'x \<Rightarrow> string option \<Rightarrow> bool" where
  "holds cur x h \<longleftrightarrow> (\<exists>l. cur x = Some l \<and> l_HolderIdentity l = h)"

lemma keepsHolder_refl [simp]: "keepsHolder cur x x"
  by (simp add: keepsHolder_def)

lemma keepsHolder_trans: "keepsHolder cur x y \<Longrightarrow> keepsHolder cur y z \<Longrightarrow> keepsHolder cur x z"
  unfolding keepsHolder_def by metis

lemma holds_kept: "holds cur x h \<Longrightarrow> keepsHolder cur x x' \<Longrightarrow> holds cur x' h"
  unfolding holds_def keepsHolder_def by metis

text \<open>
  What is assumed of the lease API, beside the interference of others: a read and a creation
  tell the holder as it is stored, and a patch that does not change the holder keeps it.
\<close>

definition lease_api :: "'x leaseEnv \<Rightarrow> ('x \<Rightarrow> Lease option) \<Rightarrow> bool" where
  "lease_api env cur \<longleftrightarrow>
     (\<forall>x. keepsHolder cur x (leaseSleep env x)) \<and>
     (\<forall>x t x'. leaseNow env x = (t, x') \<longrightarrow> keepsHolder cur x x') \<and>
     (\<forall>n ns x r x'. leaseGet env n ns x = (r, x') \<longrightarrow>
        keepsHolder cur x x' \<and> (\<forall>l. r = Inr l \<longrightarrow> holds cur x' (l_HolderIdentity l))) \<and>
     (\<forall>l x r x'. leaseCreate env l x = (r, x') \<longrightarrow>
        keepsHolder cur x x' \<and> (\<forall>l'. r = Inr l' \<longrightarrow> holds cur x' (l_HolderIdentity l'))) \<and>
     (\<forall>new old x r x'. leasePatch env new old x = (r, x') \<longrightarrow>
        l_HolderIdentity new = l_HolderIdentity old \<longrightarrow> keepsHolder cur x x')"

lemma lease_apiD:
  assumes "lease_api env cur"
  shows "keepsHolder cur x (leaseSleep env x)"
    and "leaseNow env x = (t, x') \<Longrightarrow> keepsHolder cur x x'"
    and "leaseGet env n ns x = (r, x') \<Longrightarrow> keepsHolder cur x x'"
    and "leaseGet env n ns x = (Inr l, x') \<Longrightarrow> holds cur x' (l_HolderIdentity l)"
    and "leaseCreate env new x = (r, x') \<Longrightarrow> keepsHolder cur x x'"
    and "leaseCreate env new x = (Inr l, x') \<Longrightarrow> holds cur x' (l_HolderIdentity l)"
    and "leasePatch env new old x = (q, x') \<Longrightarrow> l_HolderIdentity new = l_HolderIdentity old \<Longrightarrow>
      keepsHolder cur x x'"
proof -
  note api = assms [unfolded lease_api_def]
  note now = api [THEN conjunct2, THEN conjunct1, rule_format]
    and get = api [THEN conjunct2, THEN conjunct2, THEN conjunct1, rule_format]
    and create = api [THEN conjunct2, THEN conjunct2, THEN conjunct2, THEN conjunct1, rule_format]
    and patch = api [THEN conjunct2, THEN conjunct2, THEN conjunct2, THEN conjunct2, rule_format]
  show "keepsHolder cur x (leaseSleep env x)" by (rule api [THEN conjunct1, rule_format])
  show "leaseNow env x = (t, x') \<Longrightarrow> keepsHolder cur x x'" by (rule now)
  show "leaseGet env n ns x = (r, x') \<Longrightarrow> keepsHolder cur x x'" by (drule get) (erule conjunct1)
  show "leaseGet env n ns x = (Inr l, x') \<Longrightarrow> holds cur x' (l_HolderIdentity l)"
    by (drule get) simp
  show "leaseCreate env new x = (r, x') \<Longrightarrow> keepsHolder cur x x'" by (drule create) (erule conjunct1)
  show "leaseCreate env new x = (Inr l, x') \<Longrightarrow> holds cur x' (l_HolderIdentity l)"
    by (drule create) simp
  show "leasePatch env new old x = (q, x') \<Longrightarrow> l_HolderIdentity new = l_HolderIdentity old \<Longrightarrow>
      keepsHolder cur x x'" by (rule patch)
qed

text \<open>What a client remembers is the holder.\<close>

definition truthful :: "('x \<Rightarrow> Lease option) \<Rightarrow> ('r, 'x) VNode \<Rightarrow> 'x \<Rightarrow> bool" where
  "truthful cur v x \<longleftrightarrow> (\<forall>l. lease v = Some l \<longrightarrow> holds cur x (l_HolderIdentity l))"

lemma truthful_kept: "truthful cur v x \<Longrightarrow> keepsHolder cur x x' \<Longrightarrow> truthful cur v x'"
  unfolding truthful_def by (intro allI impI) (rule holds_kept, simp_all)

fun roundEnd :: "'s round \<Rightarrow> 's option" where
  "roundEnd (Done s) = Some s"
| "roundEnd (Again s) = Some s"
| "roundEnd Crashed = None"

lemma renewLease_truthful:
  assumes api: "lease_api env cur" and l: "l_HolderIdentity l = Some c" "holds cur x (Some c)"
    and v: "truthful cur v x" and run: "roundEnd (renewLease env c l v x) = Some (v', x')"
  shows "truthful cur v' x' \<and> keepsHolder cur x x'"
proof -
  obtain now x1 where now: "leaseNow env x = (now, x1)" by fastforce
  let ?new = "l\<lparr>l_HolderIdentity := Some c, l_RenewTime := Some now\<rparr>"
  obtain r x2 where p: "leasePatch env ?new l x1 = (r, x2)" by fastforce
  have x2: "keepsHolder cur x x2"
    by (rule keepsHolder_trans [OF lease_apiD(2) [OF api now] lease_apiD(7) [OF api p]]) (simp add: l)
  have "x' = x2" "v' = v \<or> v' = SetLease (Some l) v"
    using run by (auto simp: renewLease_def now p Let_def split: option.splits if_splits)
  moreover have "truthful cur (SetLease (Some l) v) x2"
    using holds_kept [OF l(2) x2] by (simp add: truthful_def l)
  moreover have "truthful cur v x2" by (rule truthful_kept [OF v x2])
  ultimately show ?thesis using x2 by auto
qed

lemma useLease_truthful:
  assumes api: "lease_api env cur" and l: "holds cur x (l_HolderIdentity l)"
    and run: "roundEnd (useLease env c created l v x) = Some (v', x')"
  shows "truthful cur v' x' \<and> keepsHolder cur x x'"
proof -
  obtain t1 x1 where t1: "leaseNow env x = (t1, x1)" by fastforce
  obtain t2 x2 where t2: "leaseNow env x1 = (t2, x2)" by fastforce
  have x2: "keepsHolder cur x x2"
    by (rule keepsHolder_trans [OF lease_apiD(2) [OF api t1] lease_apiD(2) [OF api t2]])
  have here: "holds cur x2 (l_HolderIdentity l)" by (rule holds_kept [OF l x2])
  obtain before now where lead: "IsLeader c t1 v = Ok before" "IsLeader c t2 (SetLease (Some l) v) = Ok now"
    using run by (auto simp: useLease_def t1 t2 Let_def split: outcome.splits)
  define w where "w = (if now \<and> \<not> TakeOvered (SetLease (Some l) v) then LeaderAcquiredByMe (SetLease (Some l) v)
            else SetLease (Some l) v)"
  have w: "lease w = Some l" by (simp add: w_def)
  show ?thesis
  proof (cases "now \<and> \<not> created")
    case True
    have holder: "l_HolderIdentity l = Some c"
      using lead(2) IsLeader_iff [of c t2 "SetLease (Some l) v"] True by simp
    have "roundEnd (renewLease env c l w x2) = Some (v', x')"
      using run True lead by (simp add: useLease_def t1 t2 Let_def w_def)
    from renewLease_truthful [OF api holder here [unfolded holder] _ this] here w
    have "truthful cur v' x' \<and> keepsHolder cur x2 x'" by (simp add: truthful_def)
    with keepsHolder_trans [OF x2] show ?thesis by blast
  next
    case False
    have "x' = x2" "lease v' = Some l"
      using run lead False by (auto simp: useLease_def t1 t2 Let_def split: if_splits)
    with here x2 show ?thesis by (simp add: truthful_def)
  qed
qed

lemma leaseRound_truthful:
  assumes api: "lease_api env cur" and v: "truthful cur v x"
    and run: "roundEnd (leaseRound env c v x) = Some (v', x')"
  shows "truthful cur v' x' \<and> keepsHolder cur x x'"
proof -
  obtain r x1 where g: "leaseGet env (vn_name v) NamespaceNodeLease (leaseSleep env x) = (r, x1)" by fastforce
  have x1: "keepsHolder cur x x1"
    by (rule keepsHolder_trans [OF lease_apiD(1) [OF api] lease_apiD(3) [OF api g]])
  have same: "truthful cur v x1" by (rule truthful_kept [OF v x1])
  show ?thesis
  proof (cases r)
    case (Inr l)
    then have "roundEnd (useLease env c False l v x1) = Some (v', x')"
      using run g by (simp add: leaseRound_def)
    from useLease_truthful [OF api lease_apiD(4) [OF api g [unfolded Inr]] this] keepsHolder_trans [OF x1]
    show ?thesis by blast
  next
    case (Inl e)
    obtain now x2 where t: "leaseNow env x1 = (now, x2)" by fastforce
    obtain q x3 where q: "leaseCreate env (NewLease now c v) x2 = (q, x3)" by fastforce
    have x3: "keepsHolder cur x1 x3"
      by (rule keepsHolder_trans [OF lease_apiD(2) [OF api t] lease_apiD(5) [OF api q]])
    show ?thesis
    proof (cases q)
      case (Inr l)
      show ?thesis
      proof (cases "IsNotFound e")
        case True
        then have "roundEnd (useLease env c True l v x3) = Some (v', x')"
          using run g t q Inl Inr by (simp add: leaseRound_def)
        from useLease_truthful [OF api lease_apiD(6) [OF api q [unfolded Inr]] this]
          keepsHolder_trans [OF keepsHolder_trans [OF x1 x3]]
        show ?thesis by blast
      qed (use run g Inl same x1 in \<open>simp add: leaseRound_def\<close>)
    next
      case q': (Inl e')
      then have "(v', x') = (v, x1) \<or> (v', x') = (v, x3)"
        using run g t q Inl by (auto simp: leaseRound_def split: if_splits)
      with same x1 truthful_kept [OF same x3] keepsHolder_trans [OF x1 x3] show ?thesis by auto
    qed
  qed
qed

lemma leaseLoop_truthful:
  assumes api: "lease_api env cur" and "truthful cur v x"
    and "leaseLoop env c n (v, x) = Returns (v', x')"
  shows "truthful cur v' x' \<and> keepsHolder cur x x'"
  using assms(2,3)
proof (induction n arbitrary: v x)
  case (Suc n)
  show ?case
  proof (cases "leaseRound env c v x")
    case (Done s)
    with Suc.prems leaseRound_truthful [OF api Suc.prems(1), of c v' x'] show ?thesis by simp
  next
    case (Again s)
    obtain v1 x1 where s: "s = (v1, x1)" by fastforce
    with leaseRound_truthful [OF api Suc.prems(1), of c v1 x1] Again
    have 1: "truthful cur v1 x1" "keepsHolder cur x x1" by simp_all
    from Suc.IH [OF 1(1)] Suc.prems(2) Again s have "truthful cur v' x' \<and> keepsHolder cur x1 x'" by simp
    with keepsHolder_trans [OF 1(2)] show ?thesis by blast
  next
    case Crashed
    with Suc.prems show ?thesis by simp
  qed
qed simp

lemma electionRun_truthful:
  assumes api: "lease_api env cur" and "\<And>c. truthful cur (vs c) x"
    and "electionRun env cs (vs, x) = Returns (vs', x')"
  shows "truthful cur (vs' c) x'"
  using assms(2,3)
proof (induction cs arbitrary: vs x)
  case (Cons d cs)
  obtain v1 x1 where 1: "leaseLoop env d NodeLeaseMaxRetryTimes (vs d, x) = Returns (v1, x1)"
    "electionRun env cs (vs(d := v1), x1) = Returns (vs', x')"
    using Cons.prems(2) by (auto simp: createOrRetryUpdateLease_def split: run.splits)
  from leaseLoop_truthful [OF api Cons.prems(1) 1(1)]
  have "truthful cur ((vs(d := v1)) e) x1" for e
    using truthful_kept Cons.prems(1) by fastforce
  from Cons.IH [OF this 1(2)] show ?case .
qed simp

text \<open>C5. Two clients never lead a node at the same time: after any number of election runs by any
  clients, in any order, with API calls that fail or are interleaved with others' as they may, at
  most one client sees itself as the leader, at whatever time each of them looks, as long as
  nobody deletes the lease or takes it away from its holder.\<close>

theorem at_most_one_leader:
  assumes "lease_api env cur" "\<And>c. lease (vs c) = None"
    "electionRun env cs (vs, x) = Returns (vs', x')"
    "IsLeader c t (vs' c) = Ok True" "IsLeader d u (vs' d) = Ok True"
  shows "c = d"
proof -
  have start: "truthful cur (vs e) x" for e by (simp add: truthful_def assms(2))
  have "holds cur x' (Some e)" if "IsLeader e s (vs' e) = Ok True" for e s
    using electionRun_truthful [OF assms(1) start assms(3), of e] that
    by (auto simp: IsLeader_iff truthful_def)
  from this [OF assms(4)] this [OF assms(5)] show ?thesis by (auto simp: holds_def)
qed

text \<open>A run of the election: a world that holds the lease and a clock of one second per call.\<close>

definition demoLeaseEnv :: "(Lease option \<times> gotime) leaseEnv" where
  "demoLeaseEnv =
     \<lparr>leaseSleep = (\<lambda>(l, t). (l, Add t second)),
      leaseGet = (\<lambda>n ns (l, t). (case l of None \<Rightarrow> Inl (ErrAPI NotFound) | Some a \<Rightarrow> Inr a, l, Add t second)),
      leaseCreate = (\<lambda>a (l, t). (case l of None \<Rightarrow> (Inr a, Some a, Add t second)
                                        | Some b \<Rightarrow> (Inl (ErrAPI OtherReason), Some b, Add t second))),
      leasePatch = (\<lambda>new old (l, t). (None,
        map_option (\<lambda>a. a\<lparr>l_RenewTime := l_RenewTime new,
          l_HolderIdentity := (if l_HolderIdentity new = l_HolderIdentity old then l_HolderIdentity a
                               else l_HolderIdentity new)\<rparr>) l, Add t second)),
      leaseNow = (\<lambda>(l, t). (t, l, Add t second))\<rparr>"

definition demoVNode :: "(unit, 'x) VNode" where
  "demoVNode =
     \<lparr>vn_name = ''vnode.a.test'', vn_env = ''test'', vn_vpodType = ''module'',
      nodeProvider = \<lparr>nodeConfig = \<lparr>BaseIP = ''127.0.0.1'', BaseHostName = '''', bc_NodeIP = '''',
          bc_NodeName = ''vnode.a.test'', NodeVersion = '''', bc_BaseName = '''', VPodType = ''module'',
          bc_ClusterName = '''', bc_Env = ''test'', bc_CustomTaints = None, bc_CustomLabels = None,
          bc_CustomAnnotations = None, WorkerNum = 1, bcHasClient = True, bcHasCache = True\<rparr>,
        notifyNode = None\<rparr>,
      podController = \<lparr>knownPods = Map.empty,
        kpHeap = (\<lambda>_. \<lparr>lastPodStatusReceivedFromProvider = zeroPod, lastPodUsed = None,
                       lastPodStatusUpdateSkipped = False\<rparr>), kpFresh = 0,
        syncPodsFromKubernetes = New (), deletePodsFromKubernetes = New (),
        syncPodStatusFromProvider = New (),
        world = NewVPodProvider '''' ''127.0.0.1'' ''vnode.a.test''\<rparr>,
      exitClosed = False, readyClosed = False, doneClosed = False, acquiredByMe = False, awaitsOthers = False, othersCame = False, lease = None,
      liveness = \<lparr>isClose = False, LatestHeartBeatTime = zeroTime\<rparr>, TakeOvered = False, vn_err = None\<rparr>"

lemma demoVNode_simps [simp]:
  "lease demoVNode = None" "vn_name demoVNode = ''vnode.a.test''" "vn_env demoVNode = ''test''"
  "acquiredByMe demoVNode = False" "TakeOvered demoVNode = False"
  by (simp_all add: demoVNode_def)

lemma demoLeaseEnv_api: "lease_api demoLeaseEnv fst"
  by (auto simp: lease_api_def demoLeaseEnv_def keepsHolder_def holds_def split: option.splits)

lemma demo_election:
  "(case electionRun demoLeaseEnv [''a'', ''b''] (\<lambda>_. demoVNode, None, GoTime 0) of
      Returns (vs, l, t) \<Rightarrow> (case IsLeader ''a'' t (vs ''a'') of Ok b \<Rightarrow> b | _ \<Rightarrow> False)
    | _ \<Rightarrow> False)"
  by code_simp

lemma run_caseE:
  assumes "case r of Returns s \<Rightarrow> P s | _ \<Rightarrow> False"
  obtains s where "r = Returns s" "P s"
  using assms by (cases r) simp_all

lemma at_most_one_leader_witness:
  "(case electionRun demoLeaseEnv [''a'', ''b''] (\<lambda>_. demoVNode, None, GoTime 0) of
      Returns (vs, l, t) \<Rightarrow> {d. IsLeader d t (vs d) = Ok True} = {''a''} | _ \<Rightarrow> False)"
proof -
  obtain s where s: "electionRun demoLeaseEnv [''a'', ''b''] (\<lambda>_. demoVNode, None, GoTime 0) = Returns s"
    and led: "case s of (vs, l, t) \<Rightarrow> (case IsLeader ''a'' t (vs ''a'') of Ok b \<Rightarrow> b | _ \<Rightarrow> False)"
    by (rule run_caseE [OF demo_election])
  obtain vs l t where "s = (vs, l, t)" by (cases s)
  note run = s [unfolded this] and led = led [unfolded this split]
  have a: "IsLeader ''a'' t (vs ''a'') = Ok True"
    using led by (cases "IsLeader ''a'' t (vs ''a'')") (simp_all only: outcome.case)
  have "d = ''a''" if "IsLeader d t (vs d) = Ok True" for d
    by (rule at_most_one_leader [OF demoLeaseEnv_api _ run that a]) simp
  with a have "{d. IsLeader d t (vs d) = Ok True} = {''a''}" by blast
  then show ?thesis by (simp only: run run.case split)
qed
section \<open>An expired lease\<close>

definition expiredAt :: "gotime \<Rightarrow> Lease \<Rightarrow> bool" where
  "expiredAt t l \<longleftrightarrow>
     (\<exists>r. l_RenewTime l = Some r \<and> After t (Add r (second * NodeLeaseDurationSeconds)))"

text \<open>
  A lease is left as it is by everybody else, and it has expired: time only passes, and a read
  tells the lease or fails for another reason than that there is none.
\<close>

definition leftExpired :: "'x leaseEnv \<Rightarrow> ('x \<Rightarrow> Lease option) \<Rightarrow> Lease \<Rightarrow> bool" where
  "leftExpired env cur l \<longleftrightarrow>
     (\<forall>x. cur x = Some l \<longrightarrow> cur (leaseSleep env x) = Some l) \<and>
     (\<forall>x t x'. cur x = Some l \<longrightarrow> leaseNow env x = (t, x') \<longrightarrow> cur x' = Some l \<and> expiredAt t l) \<and>
     (\<forall>n ns x r x'. cur x = Some l \<longrightarrow> leaseGet env n ns x = (r, x') \<longrightarrow>
        cur x' = Some l \<and> (case r of Inr l' \<Rightarrow> l' = l | Inl e \<Rightarrow> \<not> IsNotFound e))"

lemma leftExpiredD:
  assumes "leftExpired env cur l" "cur x = Some l"
  shows "cur (leaseSleep env x) = Some l"
    and "leaseNow env x = (t, x') \<Longrightarrow> cur x' = Some l"
    and "leaseNow env x = (t, x') \<Longrightarrow> expiredAt t l"
    and "leaseGet env n ns x = (r, x') \<Longrightarrow> cur x' = Some l"
    and "leaseGet env n ns x = (Inr l', x') \<Longrightarrow> l' = l"
    and "leaseGet env n ns x = (Inl e, x') \<Longrightarrow> \<not> IsNotFound e"
proof -
  note all = assms(1) [unfolded leftExpired_def]
  note sleep = all [THEN conjunct1, rule_format, OF assms(2)]
    and now = all [THEN conjunct2, THEN conjunct1, rule_format, OF assms(2)]
    and get = all [THEN conjunct2, THEN conjunct2, rule_format, OF assms(2)]
  show "cur (leaseSleep env x) = Some l" by (rule sleep)
  show "leaseNow env x = (t, x') \<Longrightarrow> cur x' = Some l" by (drule now) (erule conjunct1)
  show "leaseNow env x = (t, x') \<Longrightarrow> expiredAt t l" by (drule now) (erule conjunct2)
  show "leaseGet env n ns x = (r, x') \<Longrightarrow> cur x' = Some l" by (drule get) (erule conjunct1)
  show "leaseGet env n ns x = (Inr l', x') \<Longrightarrow> l' = l" by (drule get) simp
  show "leaseGet env n ns x = (Inl e, x') \<Longrightarrow> \<not> IsNotFound e" by (drule get) simp
qed

text \<open>
  A client that knows of no lease, or of one that was not renewed later than the given one: a client
  that renewed a lease remembers the version that it read before.
\<close>

definition idle :: "Lease \<Rightarrow> ('r, 'x) VNode \<Rightarrow> bool" where
  "idle l v \<longleftrightarrow>
     (case lease v of
        None \<Rightarrow> True
      | Some l' \<Rightarrow> l_HolderIdentity l' \<noteq> None \<and>
          (case (l_RenewTime l', l_RenewTime l) of (Some r', Some r) \<Rightarrow> r' \<le> r | _ \<Rightarrow> False))"

lemma idle_IsLeader:
  assumes "idle l v" "l_HolderIdentity l \<noteq> None" "expiredAt t l"
  shows "IsLeader c t v = Ok False"
proof -
  obtain h r where h: "l_HolderIdentity l = Some h" and r: "l_RenewTime l = Some r"
    and t: "After t (Add r (second * NodeLeaseDurationSeconds))"
    using assms(2,3) by (auto simp: expiredAt_def)
  have late: "After t (Add r' (second * NodeLeaseDurationSeconds))" if "r' \<le> r" for r'
    using t that by (auto simp: After_def Add_def gotime_order)
  show ?thesis
    using assms(1) late by (auto simp: idle_def IsLeader_def r Let_def split: option.splits)
qed

lemma idle_round:
  assumes env: "leftExpired env cur l" and h: "l_HolderIdentity l \<noteq> None"
    and x: "cur x = Some l" and v: "idle l v"
  shows "\<exists>v' x'. leaseRound env c v x \<in> {Done (v', x'), Again (v', x')} \<and>
    cur x' = Some l \<and> idle l v' \<and> acquiredByMe v' = acquiredByMe v"
proof -
  obtain r x1 where g: "leaseGet env (vn_name v) NamespaceNodeLease (leaseSleep env x) = (r, x1)" by fastforce
  note x0 = leftExpiredD(1) [OF env x]
  note x1 = leftExpiredD(4) [OF env x0 g]
  show ?thesis
  proof (cases r)
    case (Inl e)
    with leftExpiredD(6) [OF env x0 g [unfolded Inl]] g have "leaseRound env c v x = Again (v, x1)"
      by (simp add: leaseRound_def)
    with x1 v show ?thesis by auto
  next
    case (Inr l')
    with leftExpiredD(5) [OF env x0 g [unfolded Inr]] g
    have round: "leaseRound env c v x = useLease env c False l v x1" by (simp add: leaseRound_def)
    obtain t2 x2 where t2: "leaseNow env x1 = (t2, x2)" by fastforce
    obtain t3 x3 where t3: "leaseNow env x2 = (t3, x3)" by fastforce
    note x2 = leftExpiredD(2) [OF env x1 t2]
    have "l_RenewTime l \<noteq> None" using leftExpiredD(3) [OF env x1 t2] by (auto simp: expiredAt_def)
    then have set: "idle l (SetLease (Some l) v)" using h by (auto simp: idle_def)
    have "IsLeader c t2 v = Ok False" "IsLeader c t3 (SetLease (Some l) v) = Ok False"
      using idle_IsLeader [OF v h leftExpiredD(3) [OF env x1 t2]]
        idle_IsLeader [OF set h leftExpiredD(3) [OF env x2 t3]] by simp_all
    with t2 t3 have "leaseRound env c v x = Done (SetLease (Some l) v, x3)"
      by (simp add: round useLease_def)
    with leftExpiredD(2) [OF env x2 t3] set show ?thesis by (auto simp: SetLease_def)
  qed
qed

lemma idle_loop:
  assumes env: "leftExpired env cur l" and h: "l_HolderIdentity l \<noteq> None"
  shows "cur x = Some l \<Longrightarrow> idle l v \<Longrightarrow> \<exists>v' x'. leaseLoop env c n (v, x) = Returns (v', x') \<and>
    cur x' = Some l \<and> idle l v' \<and> acquiredByMe v' = acquiredByMe v"
proof (induction n arbitrary: v x)
  case (Suc n)
  obtain v1 x1 where r: "leaseRound env c v x \<in> {Done (v1, x1), Again (v1, x1)}"
    and 1: "cur x1 = Some l" "idle l v1" "acquiredByMe v1 = acquiredByMe v"
    using idle_round [OF env h Suc.prems, of c] by blast
  from r consider "leaseRound env c v x = Done (v1, x1)" | "leaseRound env c v x = Again (v1, x1)" by blast
  then show ?case
  proof cases
    case 1 note r = this
    with \<open>cur x1 = Some l\<close> \<open>idle l v1\<close> \<open>acquiredByMe v1 = acquiredByMe v\<close> show ?thesis by simp
  next
    case 2
    with Suc.IH [OF \<open>cur x1 = Some l\<close> \<open>idle l v1\<close>] \<open>acquiredByMe v1 = acquiredByMe v\<close> show ?thesis by simp
  qed
qed simp

text \<open>C25. An expired lease is never taken over: once the renewal time of a node's lease is forty
  seconds old, its holder does not renew it any more, and nobody else deletes or changes it, no election
  runs of any clients in any order change the lease or its holder, make anybody the leader or signal a
  leadership. That holds of every client that knows of no lease or remembers one that was not renewed
  later than the stored one, whoever held it; so of the old holder as well, who after a renewal
  remembers the version that it had read before.\<close>

theorem expired_lease_is_never_reacquired:
  assumes "leftExpired env cur l" "l_HolderIdentity l \<noteq> None" "cur x = Some l" "\<And>c. idle l (vs c)"
  shows "\<exists>vs' x'. electionRun env cs (vs, x) = Returns (vs', x') \<and> cur x' = Some l \<and>
    (\<forall>c. acquiredByMe (vs' c) = acquiredByMe (vs c) \<and>
      {t. expiredAt t l} \<inter> {t. IsLeader c t (vs' c) \<noteq> Ok False} = {})"
proof -
  have "\<exists>vs' x'. electionRun env cs (vs, x) = Returns (vs', x') \<and> cur x' = Some l \<and>
    (\<forall>c. idle l (vs' c) \<and> acquiredByMe (vs' c) = acquiredByMe (vs c))"
    using assms(3,4)
  proof (induction cs arbitrary: vs x)
    case (Cons c cs)
    obtain v1 x1 where run: "createOrRetryUpdateLease env c (vs c, x) = Returns (v1, x1)"
      and 1: "cur x1 = Some l" "idle l v1" "acquiredByMe v1 = acquiredByMe (vs c)"
      using idle_loop [OF assms(1,2) Cons.prems(1) Cons.prems(2) [of c]]
      unfolding createOrRetryUpdateLease_def by blast
    have idle: "idle l ((vs(c := v1)) d)" for d using 1 Cons.prems(2) by simp
    obtain vs' x' where "electionRun env cs (vs(c := v1), x1) = Returns (vs', x')" "cur x' = Some l"
      and eq: "\<And>d. idle l (vs' d) \<and> acquiredByMe (vs' d) = acquiredByMe ((vs(c := v1)) d)"
      using Cons.IH [where vs = "vs(c := v1)" and x = x1, OF 1(1) idle] by blast
    moreover have "acquiredByMe (vs' d) = acquiredByMe (vs d)" for d using eq [of d] 1(3) by (cases "d = c") simp_all
    ultimately show ?case using run eq by auto
  qed simp
  then obtain vs' x' where end': "electionRun env cs (vs, x) = Returns (vs', x')" "cur x' = Some l"
    and vs': "\<And>c. idle l (vs' c)" "\<And>c. acquiredByMe (vs' c) = acquiredByMe (vs c)" by blast
  have "{t. expiredAt t l} \<inter> {t. IsLeader c t (vs' c) \<noteq> Ok False} = {}" for c
    using idle_IsLeader [OF vs'(1) assms(2)] by blast
  with end' vs'(2) show ?thesis by blast
qed

text \<open>The witness has the old holder among its clients, who remembers an older version.\<close>

definition demoLease :: Lease where
  "demoLease = NewLease (GoTime 0) ''gone'' (demoVNode :: (unit, unit) VNode)"

lemma demoLeaseEnv_leftExpired:
  "leftExpired (demoLeaseEnv\<lparr>leaseNow := \<lambda>(l, t). (GoTime (60 * second), l, t)\<rparr>) fst demoLease"
  by (auto simp: leftExpired_def demoLeaseEnv_def expiredAt_def demoLease_def NewLease_def
      NodeLeaseDurationSeconds_def go_defs split: option.splits)

definition demoClients :: "string \<Rightarrow> (unit, Lease option \<times> gotime) VNode" where
  "demoClients c = (if c = ''gone'' then SetLease (Some (demoLease\<lparr>l_RenewTime := Some (GoTime (- 5))\<rparr>)) demoVNode else demoVNode)"

lemma expired_lease_is_never_reacquired_witness:
  "\<exists>vs' x'. electionRun (demoLeaseEnv\<lparr>leaseNow := \<lambda>(l, t). (GoTime (60 * second), l, t)\<rparr>) [''gone'', ''b'', ''gone'']
       (demoClients, Some demoLease, GoTime 0) = Returns (vs', x') \<and> fst x' = Some demoLease \<and>
     (\<forall>c. acquiredByMe (vs' c) = acquiredByMe (demoClients c) \<and>
      {t. expiredAt t demoLease} \<inter> {t. IsLeader c t (vs' c) \<noteq> Ok False} = {})"
  by (rule expired_lease_is_never_reacquired [OF demoLeaseEnv_leftExpired])
    (simp_all add: demoClients_def demoLease_def NewLease_def idle_def gotime_order)

section \<open>A leader that renews\<close>

text \<open>
  A lease API that works, for a world that tells its lease and its clock: no call takes longer than a given
  time, a read finds the lease, and a patch of the lease as it is stores the new holder and renewal time.
\<close>

definition prompt_api :: "'x leaseEnv \<Rightarrow> ('x \<Rightarrow> Lease option) \<Rightarrow> ('x \<Rightarrow> int) \<Rightarrow> duration \<Rightarrow> bool" where
  "prompt_api env cur clk d \<longleftrightarrow>
     (\<forall>x. cur (leaseSleep env x) = cur x \<and> clk x \<le> clk (leaseSleep env x) \<and> clk (leaseSleep env x) \<le> clk x + d) \<and>
     (\<forall>x t x'. leaseNow env x = (t, x') \<longrightarrow>
        cur x' = cur x \<and> clk x \<le> nanos t \<and> nanos t \<le> clk x' \<and> clk x' \<le> clk x + d) \<and>
     (\<forall>n ns x r x' l. leaseGet env n ns x = (r, x') \<longrightarrow> cur x = Some l \<longrightarrow>
        r = Inr l \<and> cur x' = Some l \<and> clk x \<le> clk x' \<and> clk x' \<le> clk x + d) \<and>
     (\<forall>new old x r x'. leasePatch env new old x = (r, x') \<longrightarrow> cur x = Some old \<longrightarrow>
        r = None \<and> clk x \<le> clk x' \<and> clk x' \<le> clk x + d \<and>
        (\<exists>l. cur x' = Some l \<and> l_HolderIdentity l = l_HolderIdentity new \<and> l_RenewTime l = l_RenewTime new))"

lemma prompt_apiD:
  assumes "prompt_api env cur clk d"
  shows "cur (leaseSleep env x) = cur x" "clk x \<le> clk (leaseSleep env x)" "clk (leaseSleep env x) \<le> clk x + d"
    and "leaseNow env x = (t, x') \<Longrightarrow> cur x' = cur x \<and> clk x \<le> nanos t \<and> nanos t \<le> clk x' \<and> clk x' \<le> clk x + d"
    and "leaseGet env n ns x = (r, x') \<Longrightarrow> cur x = Some l \<Longrightarrow>
      r = Inr l \<and> cur x' = Some l \<and> clk x \<le> clk x' \<and> clk x' \<le> clk x + d"
    and "leasePatch env new old x = (q, x') \<Longrightarrow> cur x = Some old \<Longrightarrow>
      q = None \<and> clk x \<le> clk x' \<and> clk x' \<le> clk x + d \<and>
      (\<exists>l. cur x' = Some l \<and> l_HolderIdentity l = l_HolderIdentity new \<and> l_RenewTime l = l_RenewTime new)"
  using assms unfolding prompt_api_def by blast+

text \<open>A lease of a client that was renewed at most some time before an instant.\<close>

definition renewed :: "string \<Rightarrow> int \<Rightarrow> duration \<Rightarrow> Lease option \<Rightarrow> bool" where
  "renewed c t d l \<longleftrightarrow> (\<exists>a r. l = Some a \<and> l_HolderIdentity a = Some c \<and> l_RenewTime a = Some (GoTime r) \<and> t \<le> r + d)"

lemma renewed_leads:
  assumes "renewed c t d (lease v)" "c \<noteq> ''''" "d \<le> second * NodeLeaseDurationSeconds"
  shows "IsLeader c (GoTime t) v = Ok True"
  using assms by (auto simp: renewed_def IsLeader_def Let_def After_def gotime_order)

lemma renewed_mono: "renewed c t d l \<Longrightarrow> t' + d \<le> t + d' \<Longrightarrow> renewed c t' d' l"
  unfolding renewed_def by fastforce

text \<open>
  One run of the election. The client remembers a lease that is at most \<open>p\<close> old, the stored one is at most
  \<open>q\<close> old; afterwards it remembers the one that it read, and the stored one is new.
\<close>

lemma run_renews:
  assumes api: "prompt_api env cur clk d" and c: "c \<noteq> ''''" and d: "0 \<le> d"
    and v: "renewed c (clk x) p (lease v)" "p + 3 * d \<le> second * NodeLeaseDurationSeconds"
    and x: "renewed c (clk x) q (cur x)" "q + 4 * d \<le> second * NodeLeaseDurationSeconds"
  shows "\<exists>v' x'. createOrRetryUpdateLease env c (v, x) = Returns (v', x') \<and> clk x \<le> clk x' \<and> clk x' \<le> clk x + 6 * d \<and>
    renewed c (clk x') (q + 6 * d) (lease v') \<and> renewed c (clk x') (2 * d) (cur x')"
proof -
  obtain l r where l: "cur x = Some l" "l_HolderIdentity l = Some c" "l_RenewTime l = Some (GoTime r)" "clk x \<le> r + q"
    using x(1) by (auto simp: renewed_def)
  let ?x0 = "leaseSleep env x"
  note s = prompt_apiD(1-3) [OF api, of x]
  obtain g x1 where g: "leaseGet env (vn_name v) NamespaceNodeLease ?x0 = (g, x1)" by fastforce
  have 1: "g = Inr l" "cur x1 = Some l" "clk ?x0 \<le> clk x1" "clk x1 \<le> clk ?x0 + d"
    using prompt_apiD(5) [OF api g] s(1) l(1) by simp_all
  obtain t1 x2 where t1: "leaseNow env x1 = (t1, x2)" by fastforce
  note 2 = prompt_apiD(4) [OF api t1]
  obtain t2 x3 where t2: "leaseNow env x2 = (t2, x3)" by fastforce
  note 3 = prompt_apiD(4) [OF api t2]
  obtain t3 x4 where t3: "leaseNow env x3 = (t3, x4)" by fastforce
  note 4 = prompt_apiD(4) [OF api t3]
  let ?new = "l\<lparr>l_HolderIdentity := Some c, l_RenewTime := Some t3\<rparr>"
  obtain e x5 where p: "leasePatch env ?new l x4 = (e, x5)" by fastforce
  have "cur x4 = Some l" using 1(2) 2 3 4 by simp
  from prompt_apiD(6) [OF api p this] obtain l' where 5: "e = None" "clk x4 \<le> clk x5" "clk x5 \<le> clk x4 + d"
    "cur x5 = Some l'" "l_HolderIdentity l' = Some c" "l_RenewTime l' = Some t3" by auto
  have "renewed c (nanos t1) (p + 3 * d) (lease v)" by (rule renewed_mono [OF v(1)]) (use s 1 2 in linarith)
  from renewed_leads [OF this c v(2)] have lead1: "IsLeader c t1 v = Ok True" by simp
  have "renewed c (nanos t2) (q + 4 * d) (lease (SetLease (Some l) v))"
    using l s 1 2 3 by (auto simp: renewed_def SetLease_def)
  from renewed_leads [OF this c x(2)] have lead2: "IsLeader c t2 (SetLease (Some l) v) = Ok True" by simp
  define w where "w = (if \<not> TakeOvered (SetLease (Some l) v) then LeaderAcquiredByMe (SetLease (Some l) v) else SetLease (Some l) v)"
  have "leaseRound env c v x = Done (SetLease (Some l) w, x5)"
    using g 1(1) t1 t2 t3 p 5(1) lead1 lead2
    by (simp add: leaseRound_def useLease_def renewLease_def Let_def w_def)
  then have "createOrRetryUpdateLease env c (v, x) = Returns (SetLease (Some l) w, x5)"
    by (simp add: createOrRetryUpdateLease_def NodeLeaseMaxRetryTimes_def eval_nat_numeral)
  moreover have "renewed c (clk x5) (q + 6 * d) (lease (SetLease (Some l) w))"
    using l s 1 2 3 4 5 by (auto simp: renewed_def)
  moreover have "renewed c (clk x5) (2 * d) (cur x5)"
    unfolding renewed_def by (rule exI [of _ l'], rule exI [of _ "nanos t3"]) (use 4 5 d in auto)
  ultimately show ?thesis using s 1 2 3 4 5 by (intro exI [of _ "SetLease (Some l) w"] exI [of _ x5]) simp
qed

text \<open>Runs with pauses between them.\<close>

fun renewals :: "'x leaseEnv \<Rightarrow> string \<Rightarrow> ('x \<Rightarrow> 'x) list \<Rightarrow> ('r, 'x) VNode \<times> 'x \<Rightarrow> (('r, 'x) VNode \<times> 'x) run" where
  "renewals env c [] s = Returns s"
| "renewals env c (pause # ps) (v, x) =
     (case createOrRetryUpdateLease env c (v, pause x) of
        Returns s \<Rightarrow> renewals env c ps s
      | Panics \<Rightarrow> Panics
      | Diverges \<Rightarrow> Diverges)"

text \<open>C8. A leader that renews keeps leading: a client that holds a lease which was just renewed, as a
  client does that acquired it, goes on being the leader over any number of runs of its election,
  with pauses of at most the update period between them, and from the end of each run on for as
  long as another pause, as long as no call of the API fails or takes longer than a given time,
  eighteen of which fit into twenty seconds. The client remembers the lease that it read and not
  the one that it wrote, so that its own view may be one period older than the lease is; the
  bound leaves room for that.\<close>

theorem leader_keeps_leading:
  assumes "prompt_api env cur clk d" "0 \<le> d" "18 * d \<le> 20 * second" "c \<noteq> ''''"
    "\<forall>pause\<in>set ps. \<forall>x. cur (pause x) = cur x \<and> clk x \<le> clk (pause x) \<and> clk (pause x) \<le> clk x + second * NodeLeaseUpdatePeriodSeconds"
    "lease v = Some l" "cur x = Some l" "l_HolderIdentity l = Some c" "l_RenewTime l = Some (GoTime (clk x))"
  shows "\<exists>v' x'. renewals env c ps (v, x) = Returns (v', x') \<and> clk x \<le> clk x' \<and>
    (\<forall>t. t \<le> Add (GoTime (clk x')) (second * NodeLeaseUpdatePeriodSeconds) \<longrightarrow> IsLeader c t v' = Ok True)"
proof -
  let ?p = "second * NodeLeaseUpdatePeriodSeconds"
  have step: "\<exists>v' x'. renewals env c ps (v, x) = Returns (v', x') \<and> clk x \<le> clk x' \<and> renewed c (clk x') (?p + 8 * d) (lease v')"
    if "renewed c (clk x) (?p + 8 * d) (lease v)" "renewed c (clk x) (2 * d) (cur x)" for v x
    using assms(5) that
  proof (induction ps arbitrary: v x)
    case (Cons pause ps)
    let ?x = "pause x"
    have pause: "cur ?x = cur x" "clk x \<le> clk ?x" "clk ?x \<le> clk x + ?p" using Cons.prems(1) by simp_all
    have v: "renewed c (clk ?x) (2 * ?p + 8 * d) (lease v)" by (rule renewed_mono [OF Cons.prems(2)]) (use pause in simp)
    have x: "renewed c (clk ?x) (?p + 2 * d) (cur ?x)"
      unfolding pause(1) by (rule renewed_mono [OF Cons.prems(3)]) (use pause in simp)
    have bounds: "2 * ?p + 8 * d + 3 * d \<le> second * NodeLeaseDurationSeconds"
      "?p + 2 * d + 4 * d \<le> second * NodeLeaseDurationSeconds"
      using assms(2,3) by (simp_all add: const_defs second_def)
    obtain v1 x1 where 1: "createOrRetryUpdateLease env c (v, ?x) = Returns (v1, x1)" "clk ?x \<le> clk x1"
      "renewed c (clk x1) (?p + 2 * d + 6 * d) (lease v1)" "renewed c (clk x1) (2 * d) (cur x1)"
      using run_renews [OF assms(1,4,2) v bounds(1) x bounds(2)] by blast
    have "renewed c (clk x1) (?p + 8 * d) (lease v1)" by (rule renewed_mono [OF 1(3)]) simp
    with Cons.IH [OF _ this 1(4)] Cons.prems(1) obtain v' x' where "renewals env c ps (v1, x1) = Returns (v', x')"
      "clk x1 \<le> clk x'" "renewed c (clk x') (?p + 8 * d) (lease v')" by auto
    with 1(1,2) pause show ?case by (intro exI [of _ v'] exI [of _ x']) simp
  qed simp
  have "renewed c (clk x) (?p + 8 * d) (lease v)" "renewed c (clk x) (2 * d) (cur x)"
    using assms(2,6-9) by (simp_all add: renewed_def const_defs second_def)
  from step [OF this] obtain v' x' where end': "renewals env c ps (v, x) = Returns (v', x')" "clk x \<le> clk x'"
    "renewed c (clk x') (?p + 8 * d) (lease v')" by blast
  have "IsLeader c t v' = Ok True" if "t \<le> Add (GoTime (clk x')) ?p" for t
  proof -
    have "renewed c (nanos t) (2 * ?p + 8 * d) (lease v')"
      by (rule renewed_mono [OF end'(3)]) (use that in \<open>simp add: gotime_order\<close>)
    from renewed_leads [OF this assms(4)] show ?thesis using assms(2,3) by (simp add: const_defs second_def)
  qed
  with end'(1,2) show ?thesis by blast
qed

definition demoPause :: "int \<Rightarrow> Lease option \<times> gotime \<Rightarrow> Lease option \<times> gotime" where
  "demoPause n x = (fst x, Add (snd x) (n * second))"

definition freshDemoLease :: Lease where
  "freshDemoLease = NewLease (GoTime 0) ''a'' (demoVNode :: (unit, unit) VNode)"

lemma demoLeaseEnv_prompt: "prompt_api demoLeaseEnv fst (\<lambda>x. nanos (snd x)) second"
  unfolding prompt_api_def demoLeaseEnv_def by (auto simp: gotime_order second_def split: option.splits)

lemma leader_keeps_leading_witness:
  "\<exists>v' x'. renewals demoLeaseEnv ''a'' [demoPause 10, demoPause 7, demoPause 10]
      (demoVNode\<lparr>lease := Some freshDemoLease\<rparr>, Some freshDemoLease, GoTime 0) = Returns (v', x') \<and>
    (\<forall>t. t \<le> Add (snd x') (second * NodeLeaseUpdatePeriodSeconds) \<longrightarrow> IsLeader ''a'' t v' = Ok True)"
proof -
  have api: "18 * second \<le> 20 * second" "0 \<le> second" "''a'' \<noteq> ''''" by (simp_all add: second_def)
  have lease: "l_HolderIdentity freshDemoLease = Some ''a''" "l_RenewTime freshDemoLease = Some (GoTime (nanos (GoTime 0)))"
    by (simp_all add: freshDemoLease_def NewLease_def)
  have "\<forall>pause\<in>set [demoPause 10, demoPause 7, demoPause 10]. \<forall>x. fst (pause x) = fst x \<and>
      nanos (snd x) \<le> nanos (snd (pause x)) \<and>
      nanos (snd (pause x)) \<le> nanos (snd x) + second * NodeLeaseUpdatePeriodSeconds"
    by (simp add: demoPause_def const_defs second_def)
  from leader_keeps_leading [OF demoLeaseEnv_prompt api(2,1,3) this, of "demoVNode\<lparr>lease := Some freshDemoLease\<rparr>" freshDemoLease
      "(Some freshDemoLease, GoTime 0)"] lease
  show ?thesis by auto
qed

end
