(* ===== verification/VNode_Spec.thy ===== *)
theory VNode_Spec
  imports VNodeController
begin

text \<open>
  What a virtual node does when it is built, started, told its status and told about containers
  that no pod runs.
\<close>

section \<open>Starting a node\<close>

text \<open>The check reports a missing node as an error, on which the polling loop ends: there is one look.\<close>

lemma check_node_once:
  "CheckAndFinallyCall (checkNodeExistsInClient env n) timedOut Some f 0 x =
     (if timedOut 0 then Some (Some (ErrText ''check time out''), f x)
      else case cacheHasNode env n x of
        (None, x1) \<Rightarrow> Some (None, x1)
      | (Some e, x1) \<Rightarrow> Some (Some (ErrWrap ''Error when checking condition'' e), x1))"
  by (subst CheckAndFinallyCall.simps)
    (auto simp: checkNodeExistsInClient_def split: prod.split option.split)

section \<open>The node object\<close>

text \<open>A small configuration.\<close>

definition demoConfig :: BuildVNodeConfig where
  "demoConfig = \<lparr>BaseIP = ''127.0.0.1'', BaseHostName = ''host'', bc_NodeIP = [],
     bc_NodeName = ''vnode.a.test'', NodeVersion = ''1.0'', bc_BaseName = ''base'', VPodType = ''module'',
     bc_ClusterName = ''main'', bc_Env = ''test'', bc_CustomTaints = None,
     bc_CustomLabels = Some [LabelKeyOfComponent \<mapsto> ''mine''], bc_CustomAnnotations = None, WorkerNum = 1,
     bcHasClient = True, bcHasCache = True\<rparr>"

lemma NewVNode_ok:
  assumes "bc_NodeName cfg \<noteq> []" "bcHasClient cfg" "bcHasCache cfg"
  shows "\<exists>v cm. NewVNode MP pl cpu dflt cfg = Ok (v, cm) \<and> lease v = None"
  using assms
  by (simp add: NewVNode_def NewNode_def vnodeOpts_def WithClient_def WithCache_def NewNodeController_def
      NewPodController_def defaultNodeConfig_def split: prod.split)

lemma demoConfig_ok:
  "\<exists>v cm. NewVNode (\<lambda>_. 0) 7 4 (quietLimiter, ()) demoConfig = Ok (v, cm) \<and> lease v = None"
  by (rule NewVNode_ok) (simp_all add: demoConfig_def)

text \<open>The labels that a new node object has before its options, and those that \<open>buildNode\<close> sets.\<close>

definition nodeLabels :: "BuildVNodeConfig \<Rightarrow> string \<Rightarrow> string option" where
  "nodeLabels cfg = [''type'' \<mapsto> ''virtual-kubelet'', ''kubernetes.io/role'' \<mapsto> ''agent'',
     LabelKeyOfBaseName \<mapsto> bc_BaseName cfg, LabelKeyOfBaseClusterName \<mapsto> bc_ClusterName cfg,
     LabelKeyOfComponent \<mapsto> ComponentVNode, LabelKeyOfEnv \<mapsto> bc_Env cfg,
     LabelKeyOfBaseVersion \<mapsto> NodeVersion cfg, LabelHostname \<mapsto> BaseHostName cfg,
     LabelKeyOfBaseHostName \<mapsto> BaseHostName cfg]"

text \<open>C28. The node object that a new virtual node registers bears the name of its configuration. Its labels
  are the program's own (its kind and role, and the base's name, cluster, environment, version and host)
  and all custom ones, and where a key has both, the custom label wins; its annotations are the custom
  ones. It carries two taints of effect NoExecute, one that marks it as a virtual node and one with the
  environment as its value, and after them the custom taints. Its address is the configured pseudo
  address, where there is one, else that of the base. Its status tells nothing of the architecture and
  the operating system, for \<open>buildNode\<close> replaces the status that the option before it filled in.\<close>

theorem new_node_object:
  assumes "NewVNode MP pl cpu dflt cfg = Ok (v, cm)"
  shows "vn_name v = bc_NodeName cfg \<and> (case serverNode (nc cm) of
      None \<Rightarrow> False
    | Some node \<Rightarrow> n_Name node = bc_NodeName cfg \<and> ns_rest (n_Status node) = 0 \<and>
        ns_Phase (n_Status node) = NodeRunning \<and>
        map (\<lambda>a. (addr_Type a, addr_Address a)) (elems (ns_Addresses (n_Status node))) =
          [(NodeInternalIP, if bc_NodeIP cfg = [] then BaseIP cfg else bc_NodeIP cfg), (NodeHostName, BaseHostName cfg)] \<and>
        map (\<lambda>t. (taint_Key t, taint_Value t, taint_Effect t)) (take 2 (elems (n_Taints node))) =
          [(TaintKeyOfVnode, ''True'', ''NoExecute''), (TaintKeyOfEnv, bc_Env cfg, ''NoExecute'')] \<and>
        drop 2 (elems (n_Taints node)) = elems (bc_CustomTaints cfg) \<and>
        mapGet (n_Annotations node) = mapGet (bc_CustomAnnotations cfg) \<and>
        mapGet (n_Labels node) = nodeLabels cfg ++ mapGet (bc_CustomLabels cfg))"
proof -
  let ?node = "(cfgNode (defaultNodeConfig cpu (bc_NodeName cfg)))
      \<lparr>n_Status := (n_Status (cfgNode (defaultNodeConfig cpu (bc_NodeName cfg))))\<lparr>ns_rest := pl\<rparr>\<rparr>"
  let ?built = "buildNode MP cfg ?node"
  have node: "serverNode (nc cm) = Some ?built" "vn_name v = bc_NodeName cfg"
    using assms
    by (auto simp: NewVNode_def NewNode_def vnodeOpts_def WithClient_def WithCache_def NewNodeController_def
        NewPodController_def split: if_splits prod.splits)
  have "mapGet (n_Labels ?built) k = (nodeLabels cfg ++ mapGet (bc_CustomLabels cfg)) k" for k
    by (cases "bc_CustomLabels cfg")
      (simp_all add: buildNode_def overlay_def Let_def nodeLabels_def defaultNodeConfig_def map_add_def LabelHostname_def
        LabelKeyOfBaseName_def LabelKeyOfBaseClusterName_def LabelKeyOfComponent_def LabelKeyOfEnv_def
        LabelKeyOfBaseVersion_def LabelKeyOfBaseHostName_def split: option.split)
  moreover have "mapGet (n_Annotations ?built) k = mapGet (bc_CustomAnnotations cfg) k" for k
    by (cases "bc_CustomAnnotations cfg") (simp_all add: buildNode_def overlay_def Let_def defaultNodeConfig_def)
  moreover have "n_Name ?built = bc_NodeName cfg" "ns_rest (n_Status ?built) = 0" "ns_Phase (n_Status ?built) = NodeRunning"
    "map (\<lambda>a. (addr_Type a, addr_Address a)) (elems (ns_Addresses (n_Status ?built))) =
       [(NodeInternalIP, if bc_NodeIP cfg = [] then BaseIP cfg else bc_NodeIP cfg), (NodeHostName, BaseHostName cfg)]"
    "map (\<lambda>t. (taint_Key t, taint_Value t, taint_Effect t)) (take 2 (elems (n_Taints ?built))) =
       [(TaintKeyOfVnode, ''True'', ''NoExecute''), (TaintKeyOfEnv, bc_Env cfg, ''NoExecute'')]"
    "drop 2 (elems (n_Taints ?built)) = elems (bc_CustomTaints cfg)"
    by (simp_all add: buildNode_def Let_def numeral_2_eq_2 OrElse_def TaintEffectNoExecute_def defaultNodeConfig_def)
  ultimately show ?thesis using node by (simp add: fun_eq_iff)
qed

lemma new_node_object_witness:
  "\<exists>(v :: (unit, unit) VNode) cm node. NewVNode (\<lambda>_. 0) 7 4 (quietLimiter, ()) demoConfig = Ok (v, cm) \<and>
     serverNode (nc cm) = Some node \<and> mapGet (n_Labels node) LabelKeyOfComponent = Some ''mine'' \<and>
     mapGet (n_Labels node) LabelKeyOfEnv = Some ''test'' \<and> ns_rest (n_Status node) = 0"
proof -
  obtain v :: "(unit, unit) VNode" and cm
    where v: "NewVNode (\<lambda>_. 0) 7 4 (quietLimiter, ()) demoConfig = Ok (v, cm)"
    using demoConfig_ok by blast
  from new_node_object [OF v] obtain node where node: "serverNode (nc cm) = Some node"
    "ns_rest (n_Status node) = 0" "mapGet (n_Labels node) = nodeLabels demoConfig ++ mapGet (bc_CustomLabels demoConfig)"
    by (auto split: option.splits)
  have "mapGet (n_Labels node) LabelKeyOfComponent = Some ''mine''" "mapGet (n_Labels node) LabelKeyOfEnv = Some ''test''"
    unfolding node(3)
    by (simp_all add: map_add_def nodeLabels_def demoConfig_def LabelKeyOfComponent_def LabelKeyOfEnv_def LabelHostname_def
        LabelKeyOfBaseVersion_def LabelKeyOfBaseHostName_def)
  with v node(1,2) show ?thesis by blast
qed

text \<open>A status report of the base that arrives before the node runs crashes the process: until
  \<open>Run\<close> of the node controller registers the callback, the node provider calls a nil function as
  soon as the cache knows the node object.\<close>

theorem early_status_report_panics:
  assumes "NewVNode MP pl cpu dflt cfg = Ok (v, cm)" "lookup (bc_NodeName cfg) x = (Inr node, x')"
  shows "SyncNodeStatus lookup order data (v, x) = Panics"
proof -
  have "nodeProvider v = NewVNodeProvider cfg"
    using assms(1) by (auto simp: NewVNode_def split: if_splits outcome.splits)
  with assms(2) show ?thesis by (simp add: SyncNodeStatus_def Notify_def NewVNodeProvider_def Let_def)
qed

lemma early_status_report_panics_witness:
  "\<exists>(v :: (unit, unit) VNode) cm. NewVNode (\<lambda>_. 0) 7 4 (quietLimiter, ()) demoConfig = Ok (v, cm) \<and>
     SyncNodeStatus (\<lambda>_ x. (Inr plainNode, x)) [] plainData (v, ()) = Panics"
proof -
  obtain v :: "(unit, unit) VNode" and cm
    where v: "NewVNode (\<lambda>_. 0) 7 4 (quietLimiter, ()) demoConfig = Ok (v, cm)"
    using demoConfig_ok by blast
  from v early_status_report_panics [OF v, of "\<lambda>_ x. (Inr plainNode, x)" "()" plainNode "()" "[]" plainData]
  show ?thesis by blast
qed

section \<open>Bizs that no pod runs\<close>

text \<open>The container that stands for a biz without a pod: it bears the name and the version that the biz key
  holds, and both are empty when the key is not a name and a version with one colon between them.\<close>

definition bizContainer :: "BizStatusData \<Rightarrow> Container" where
  "bizContainer d = (case GetBizNameAndVersionFromUniqueKey (b_Key d) of (bizName, bizVersion) \<Rightarrow>
     \<lparr>c_Name = bizName, c_Image = '''', c_Env = Some [\<lparr>ev_Name = ''BIZ_VERSION'', ev_Value = bizVersion, ev_rest = 0\<rparr>],
      c_rest = 0\<rparr>)"

lemma bizContainer_key:
  assumes "b_Key d = name @ '':'' @ version" "CHR '':'' \<notin> set name" "CHR '':'' \<notin> set version"
  shows "GetBizUniqueKey (bizContainer d) = b_Key d"
proof -
  have "GetBizNameAndVersionFromUniqueKey (b_Key d) = (name, version)"
    using GetBizNameAndVersion_identity [of name version] assms by (simp add: getBizIdentity_def)
  then show ?thesis
    by (simp add: bizContainer_def GetBizUniqueKey_def getBizVersionFromContainer_def getBizIdentity_def assms(1))
qed

lemma notExist_key: "GetPodKey (Some (notExistPod n v)) = ''default/not-exist-pod''"
  by (simp add: notExistPod_def GetPodKey_def NamespaceDefault_def ObjectMetaNameNotExistPod_def)

lemma notExist_containers:
  "GetBizNameAndVersionFromUniqueKey (b_Key d) = (n, v) \<Longrightarrow>
   elems (Containers (notExistPod n v)) = [bizContainer d]"
  by (simp add: bizContainer_def notExistPod_def)

lemma notExist_stopKey: "stopKey (notExistPod n v) = ''''"
  by (simp add: stopKey_def notExist_key ObjectMetaNameNotExistPod_def HasSuffix_def suffix_def)

lemma stop_unlisted:
  assumes rec: "records L env" and ends: "ctxEnds (ctxWait env)"
  shows "\<exists>b' w' tr. syncNotExistBizPodToProvider env ds (b, w) = Returns (b', w') \<and> L w' = L w @ tr \<and>
    nodeName b' = nodeName b \<and>
    (\<forall>k. k \<noteq> ''default/not-exist-pod'' \<longrightarrow> GetPodByKey (vPodStore b') k = GetPodByKey (vPodStore b) k) \<and>
    set tr = (\<lambda>d. CStop (nodeName b) '''' (bizContainer d)) ` set ds"
proof (induction ds arbitrary: b w)
  case (Cons d ds)
  obtain n v where nv: "GetBizNameAndVersionFromUniqueKey (b_Key d) = (n, v)" by fastforce
  let ?b = "b\<lparr>vPodStore := storeDeletePod ''default/not-exist-pod'' (vPodStore b)\<rparr>"
  obtain e b1 w1 where del: "DeletePod env (Some (notExistPod n v)) b w = Some (e, b1, w1)"
    using operations_return(2) [OF ends] by fastforce
  have b1: "b1 = ?b" using DeletePod_result [OF del] by (simp add: notExist_key)
  obtain t where t: "L w1 = L w @ t" "repeats (map (CStop (nodeName b) '''') [bizContainer d]) t"
    using DeletePod_calls [OF rec del] unfolding notExist_stopKey notExist_containers [OF nv] by blast
  obtain b' w' tr where tail: "syncNotExistBizPodToProvider env ds (?b, w1) = Returns (b', w')" "L w' = L w1 @ tr"
    "nodeName b' = nodeName ?b"
    "\<forall>k. k \<noteq> ''default/not-exist-pod'' \<longrightarrow> GetPodByKey (vPodStore b') k = GetPodByKey (vPodStore ?b) k"
    "set tr = (\<lambda>d. CStop (nodeName ?b) '''' (bizContainer d)) ` set ds"
    using Cons.IH [of ?b w1] by (elim exE conjE) (rule that)
  have "set (t @ tr) = (\<lambda>d. CStop (nodeName b) '''' (bizContainer d)) ` set (d # ds)"
    using repeats_set [OF t(2)] by (simp add: tail(5))
  with tail t(1) show ?case
    by (intro exI [of _ b'] exI [of _ w'] exI [of _ "t @ tr"]) (simp add: nv del b1 vpods.get_del)
qed simp

text \<open>The reported bizs that are without a pod key once the listed pods have been looked through.\<close>

lemma FillPodKey_unlisted:
  "set (snd (FillPodKey pods ds)) = {d \<in> set ds. PodKey d = '''' \<and> \<not> list_ex (\<lambda>pod. runsBiz pod (b_Key d)) pods}"
proof -
  have key: "GetPodKey (Some pod) \<noteq> ''''" for pod by (simp add: GetPodKey_def)
  have none: "fillOne (bizKeyToPodKey pods) d = d" if "\<not> list_ex (\<lambda>pod. runsBiz pod (b_Key d)) pods" for d
  proof -
    have "find (\<lambda>pod. runsBiz pod (b_Key d)) (rev pods) = None"
      using that by (simp add: find_None_iff list_ex_iff)
    then show ?thesis by (simp add: fillOne_def bizKeyToPodKey_find)
  qed
  have some: "PodKey (fillOne (bizKeyToPodKey pods) d) \<noteq> []" if "list_ex (\<lambda>pod. runsBiz pod (b_Key d)) pods" for d
  proof -
    have "find (\<lambda>pod. runsBiz pod (b_Key d)) (rev pods) \<noteq> None"
      using that by (auto simp: find_None_iff list_ex_iff)
    with key show ?thesis by (auto simp: fillOne_def bizKeyToPodKey_find split: if_splits)
  qed
  have only: "fillOne (bizKeyToPodKey pods) d = d \<and> \<not> list_ex (\<lambda>pod. runsBiz pod (b_Key d)) pods"
    if "PodKey (fillOne (bizKeyToPodKey pods) d) = []" for d
    using that none some by blast
  have "(\<exists>e\<in>set ds. d = fillOne (bizKeyToPodKey pods) e) \<and> PodKey d = [] \<longleftrightarrow>
      d \<in> set ds \<and> PodKey d = [] \<and> \<not> list_ex (\<lambda>pod. runsBiz pod (b_Key d)) pods" for d
    using only none [of d] by metis
  then show ?thesis by (auto simp: FillPodKey_filter image_iff)
qed

end
