(* ===== verification/VNodeController_Inv.thy ===== *)
theory VNodeController_Inv
  imports Leader_Spec VNode_Spec
begin

text \<open>
  The reachable states of the virtual node controller, as a step relation over all its handlers,
  its elections, take-overs, checks and removals and over the steps of the kubelets of its nodes;
  and what every step keeps: the settings, the order in the store of the nodes, and the
  consistency of the kubelet of each node.
\<close>

section \<open>What operations keep of a node\<close>

text \<open>The consistency of a kubelet between its operations, when the outside is not part of it.\<close>

definition pods_ok :: "('r, VPodProvider) pcState \<Rightarrow> bool" where
  "pods_ok p \<longleftrightarrow>
     queue_inv (syncPodsFromKubernetes p) \<and> queue_inv (deletePodsFromKubernetes p) \<and>
     queue_inv (syncPodStatusFromProvider p) \<and> known_ok p \<and> vpods.filed (vPodStore (world p))"

lemma enter_ok [simp]: "kubelet_ok (enter p x) = pods_ok p"
  by (simp add: kubelet_ok_def pods_ok_def enter_def known_ok_def)

lemma leave_ok: "kubelet_ok p \<Longrightarrow> leave p = (q, x) \<Longrightarrow> pods_ok q"
  by (auto simp: kubelet_ok_def pods_ok_def leave_def known_ok_def)

definition nodeKeeps :: "('r, 'x) VNode \<Rightarrow> ('r, 'x) VNode \<Rightarrow> bool" where
  "nodeKeeps v v' \<longleftrightarrow> vn_name v' = vn_name v \<and> (pods_ok (podController v) \<longrightarrow> pods_ok (podController v'))"

lemma nodeKeeps_refl [simp]: "nodeKeeps v v"
  by (simp add: nodeKeeps_def)

lemma nodeKeeps_trans: "nodeKeeps u v \<Longrightarrow> nodeKeeps v w \<Longrightarrow> nodeKeeps u w"
  by (simp add: nodeKeeps_def)

lemma nodeKeeps_same: "vn_name v' = vn_name v \<Longrightarrow> podController v' = podController v \<Longrightarrow> nodeKeeps v v'"
  by (simp add: nodeKeeps_def)

lemma onPods_keeps:
  assumes "\<And>p. kubelet_ok p \<Longrightarrow> kubelet_ok (f p)"
  shows "nodeKeeps (fst s) (fst (onPods f s))"
proof -
  obtain v x where s: "s = (v, x)" by (cases s)
  obtain q x' where q: "leave (f (enter (podController v) x)) = (q, x')" by fastforce
  have "pods_ok q" if "pods_ok (podController v)"
    using leave_ok [OF assms q] that by simp
  then show ?thesis by (simp add: s onPods_def q nodeKeeps_def)
qed

lemma onProvider_keeps:
  assumes run: "onProvider f (v, x) = Returns (v', x')"
    and keeps: "\<And>s s'. consistent.both s \<Longrightarrow> f s = Returns s' \<Longrightarrow> consistent.both s'"
  shows "nodeKeeps v v'"
proof -
  let ?p = "enter (podController v) x"
  obtain b p where f: "f (vprovider (world ?p), ?p) = Returns (b, p)"
    and leave: "leave (setProvider b p) = (podController v', x')" and v': "v' = v\<lparr>podController := podController v'\<rparr>"
    using run by (auto simp: onProvider_def Let_def split: run.splits prod.splits)
  have "pods_ok (podController v')" if "pods_ok (podController v)"
  proof (rule leave_ok [OF _ leave])
    have "consistent.both (vprovider (world ?p), ?p)"
      using that by (simp add: consistent.both_def enter_def pods_ok_def)
        (metis enter_def enter_ok pods_ok_def that)
    from keeps [OF this f] show "kubelet_ok (setProvider b p)"
      by (simp add: consistent.both_def consistent.sets_provider)
  qed
  with v' show ?thesis by (cases v, cases v') (simp add: nodeKeeps_def)
qed

lemma kubelet_ok_enqueue: "kubelet_ok p \<Longrightarrow> kubelet_ok (SyncPodsFromKubernetesEnqueue env k p)"
  unfolding SyncPodsFromKubernetesEnqueue_def by (rule kubelet_ok_queues) (simp_all add: rated.enq_ok kubelet_ok_inv)

lemma kubelet_ok_forget: "kubelet_ok p \<Longrightarrow> kubelet_ok (DeletePodsFromKubernetesForget k p)"
  unfolding DeletePodsFromKubernetesForget_def by (rule kubelet_ok_queues) (simp_all add: Forget_inv kubelet_ok_inv)

lemma pods_ops_keep [simp]:
  "nodeKeeps (fst s) (fst (VNodeSyncEnqueue o' k s))"
  "nodeKeeps (fst s) (fst (VNodeDeleteForget k s))"
  "nodeKeeps (fst s) (fst (AddKnowPod pod s))"
  "nodeKeeps (fst s) (fst (VNodeDeleteKnownPod k s))"
  unfolding VNodeSyncEnqueue_def VNodeDeleteForget_def AddKnowPod_def VNodeDeleteKnownPod_def
  by (rule onPods_keeps; simp add: kubelet_ok_enqueue kubelet_ok_forget consistent.adds_known consistent.forgets_known)+

lemma channel_ops_keep [simp]:
  "nodeKeeps v (resetActivationStatus v)" "nodeKeeps v (Shutdown v)" "nodeKeeps v (ToDone v)" "nodeKeeps v (SetLease l v)"
  "nodeKeeps v (LeaderAcquiredByMe v)" "nodeKeeps v (LeaderAcquiredByOthers v)"
  by (simp_all add: nodeKeeps_def resetActivationStatus_def Shutdown_def ToDone_def SetLease_def
      LeaderAcquiredByMe_def LeaderAcquiredByOthers_def)

lemma channel_names [simp]:
  "vn_name (resetActivationStatus v) = vn_name v" "vn_name (Shutdown v) = vn_name v" "vn_name (ToDone v) = vn_name v"
  by (simp_all add: resetActivationStatus_def Shutdown_def ToDone_def)

lemma field_updates_keep [simp]:
  "nodeKeeps v (v\<lparr>TakeOvered := b\<rparr>)" "nodeKeeps v (v\<lparr>awaitsOthers := b\<rparr>)" "nodeKeeps v (v\<lparr>othersCame := b\<rparr>)"
  "nodeKeeps v (v\<lparr>acquiredByMe := b\<rparr>)" "nodeKeeps v (v\<lparr>vn_err := e\<rparr>)"
  "nodeKeeps v (v\<lparr>liveness := l\<rparr>)"
  by (simp_all add: nodeKeeps_def)

lemma nodeKeeps_updates [simp]:
  "nodeKeeps v (w\<lparr>TakeOvered := b\<rparr>) = nodeKeeps v w"
  "nodeKeeps v (w\<lparr>awaitsOthers := b\<rparr>) = nodeKeeps v w" "nodeKeeps v (w\<lparr>othersCame := b\<rparr>) = nodeKeeps v w"
  "nodeKeeps v (w\<lparr>acquiredByMe := b\<rparr>) = nodeKeeps v w"
  "nodeKeeps v (w\<lparr>vn_err := e\<rparr>) = nodeKeeps v w" "nodeKeeps (v\<lparr>TakeOvered := b\<rparr>) w = nodeKeeps v w"
  "nodeKeeps (v\<lparr>acquiredByMe := b\<rparr>) w = nodeKeeps v w" "nodeKeeps (SetLease l v) w = nodeKeeps v w"
  "nodeKeeps v (resetActivationStatus w) = nodeKeeps v w" "nodeKeeps v (ToDone w) = nodeKeeps v w"
  "nodeKeeps v (SetLease l w) = nodeKeeps v w" "nodeKeeps (resetActivationStatus v) w = nodeKeeps v w"
  "nodeKeeps (LeaderAcquiredByMe v) w = nodeKeeps v w" "nodeKeeps v (LeaderAcquiredByMe w) = nodeKeeps v w"
  "nodeKeeps v (LeaderAcquiredByOthers w) = nodeKeeps v w"
  by (simp_all add: nodeKeeps_def SetLease_def resetActivationStatus_def ToDone_def LeaderAcquiredByMe_def
      LeaderAcquiredByOthers_def)

lemma activate_keeps: "activate v = Ok v' \<Longrightarrow> nodeKeeps v v'"
  by (auto simp: activate_def nodeKeeps_def split: if_splits)

lemma SyncNodeStatus_same: "SyncNodeStatus g ord data (v, x) = Returns (v', x') \<Longrightarrow> v' = v"
  by (auto simp: SyncNodeStatus_def split: outcome.splits)

text \<open>Reports of the tunnel.\<close>

lemma runOf_Returns [simp]: "runOf r = Returns s \<longleftrightarrow> r = Ok s"
  by (cases r) (simp_all add: runOf_def)

lemma syncNotExist_keeps:
  "syncNotExistBizPodToProvider (providerEnvOf o') ds s = Returns s' \<Longrightarrow> consistent.both s \<Longrightarrow> consistent.both s'"
proof (induction ds arbitrary: s)
  case (Cons d ds)
  obtain b w where s: "s = (b, w)" by (cases s)
  obtain n e where n: "GetBizNameAndVersionFromUniqueKey (b_Key d) = (n, e)" by fastforce
  obtain err t where t: "DeletePod (providerEnvOf o') (Some (notExistPod n e)) b w = Some (err, t)"
    "syncNotExistBizPodToProvider (providerEnvOf o') ds t = Returns s'"
    using Cons.prems(1) by (auto simp: s n split: option.splits)
  from Cons.IH [OF t(2) consistent.deletion_keeps [OF t(1)]] Cons.prems(2) s show ?case by simp
qed simp

lemma syncOneByOne_keeps:
  "syncOneByOne (providerEnvOf o') clk ds s = Returns s' \<Longrightarrow> consistent.both s \<Longrightarrow> consistent.both s'"
  by (induction ds arbitrary: clk s) (auto dest: consistent.SyncBiz_keeps split: run.splits)

lemma syncs_keep:
  "SyncBatchBizStatusToKube o' ord now clk us ds (v, x) = Returns (v', x') \<Longrightarrow> nodeKeeps v v'"
  "SyncOneNodeBizStatusToKube o' clk us ds (v, x) = Returns (v', x') \<Longrightarrow> nodeKeeps v v'"
  unfolding SyncBatchBizStatusToKube_def SyncOneNodeBizStatusToKube_def
  by (erule onProvider_keeps;
      auto simp: syncBatch_def dest: syncNotExist_keeps syncOneByOne_keeps consistent.SyncAll_keeps split: run.splits)+

fun roundNode :: "(('r, 'x) VNode \<times> 'x) round \<Rightarrow> ('r, 'x) VNode option" where
  "roundNode (Done s) = Some (fst s)"
| "roundNode (Again s) = Some (fst s)"
| "roundNode Crashed = None"

text \<open>The election changes the lease and the signals of a leadership only.\<close>

definition elected :: "('r, 'x) VNode \<Rightarrow> ('r, 'x) VNode \<Rightarrow> bool" where
  "elected v v' \<longleftrightarrow> v'\<lparr>lease := None, acquiredByMe := False, awaitsOthers := False, othersCame := False\<rparr> =
     v\<lparr>lease := None, acquiredByMe := False, awaitsOthers := False, othersCame := False\<rparr>"

lemma elected_refl [simp]: "elected v v"
  by (simp add: elected_def)

lemma elected_trans: "elected u v \<Longrightarrow> elected v w \<Longrightarrow> elected u w"
  by (simp add: elected_def)

lemma elected_ops [simp]:
  "elected v (SetLease l w) = elected v w" "elected (SetLease l v) w = elected v w"
  "elected v (LeaderAcquiredByMe w) = elected v w" "elected (LeaderAcquiredByMe v) w = elected v w"
  "elected v (LeaderAcquiredByOthers w) = elected v w"
  by (auto simp: elected_def SetLease_def LeaderAcquiredByMe_def LeaderAcquiredByOthers_def)

lemma electedD:
  assumes "elected v v'"
  shows "vn_name v' = vn_name v" "podController v' = podController v" "nodeProvider v' = nodeProvider v"
    "liveness v' = liveness v" "exitClosed v' = exitClosed v" "readyClosed v' = readyClosed v"
  using assms by (cases v, cases v', simp add: elected_def)+

lemma renewLease_elected: "roundNode (renewLease env c l v x) = Some v' \<Longrightarrow> elected v v'"
  by (auto simp: renewLease_def Let_def split: prod.splits option.splits if_splits)

lemma useLease_elected: "roundNode (useLease env c b l v x) = Some v' \<Longrightarrow> elected v v'"
  by (auto simp: useLease_def Let_def dest: renewLease_elected split: prod.splits outcome.splits if_splits)

lemma leaseRound_elected: "roundNode (leaseRound env c v x) = Some v' \<Longrightarrow> elected v v'"
  by (auto simp: leaseRound_def dest: useLease_elected split: prod.splits sum.splits if_splits)

lemma leaseLoop_elected: "leaseLoop env c n (v, x) = Returns (v', x') \<Longrightarrow> elected v v'"
proof (induction n arbitrary: v x)
  case (Suc n)
  show ?case
  proof (cases "leaseRound env c v x")
    case (Done s)
    with Suc.prems leaseRound_elected [of env c v x v'] show ?thesis by simp
  next
    case (Again s)
    obtain v1 x1 where s: "s = (v1, x1)" by (cases s)
    have "elected v1 v'" using Suc.IH [of v1 x1] Suc.prems Again s by simp
    with leaseRound_elected [of env c v x v1] Again s show ?thesis by (simp add: elected_trans)
  qed (use Suc.prems in simp)
qed simp

lemma leaseLoop_keeps: "leaseLoop env c n (v, x) = Returns (v', x') \<Longrightarrow> nodeKeeps v v'"
  by (drule leaseLoop_elected) (simp add: nodeKeeps_same electedD)

lemma discovery_keeps: "nodeKeeps (fst s) (fst (discoveryPreviousPods o' env s))"
proof -
  have "nodeKeeps (fst t) (fst (fold (\<lambda>pod. VNodeSyncEnqueue o' (GetPodKey (Some pod))) pods t))" for pods t
  proof (induction pods arbitrary: t)
    case (Cons pod pods)
    from nodeKeeps_trans [OF pods_ops_keep(1) Cons.IH] show ?case by simp
  qed simp
  then show ?thesis by (auto simp: discoveryPreviousPods_def split: prod.split sum.split)
qed

lemma discovery_keeps': "discoveryPreviousPods o' env (v, x) = (v', x') \<Longrightarrow> nodeKeeps v v'"
  using discovery_keeps [of "(v, x)" o' env] by simp

lemma VNodeRun_keeps: "VNodeRun o' env d v x = Returns (e, v', x') \<Longrightarrow> nodeKeeps v v'"
  by (auto simp: VNodeRun_def runResult_def Let_def dest!: activate_keeps discovery_keeps'
      split: option.splits prod.splits outcome.splits intro: nodeKeeps_trans)

lemma takeOver_keeps: "takeOverVNode o' env w d (v, x) = Returns (b, v', x') \<Longrightarrow> nodeKeeps v v'"
  by (auto simp: takeOverVNode_def cleanUp_def dest!: VNodeRun_keeps split: run.splits prod.splits option.splits)

lemma takeOverRound_keeps: "takeOverRound o' env w d (v, x) = Returns (b, v', x') \<Longrightarrow> nodeKeeps v v'"
  by (auto simp: takeOverRound_def dest!: takeOver_keeps split: if_splits)

lemma end_ops_keep [simp]:
  "nodeKeeps (fst s) (fst (releaseVNode env s))" "nodeKeeps (fst s) (fst (exitWatcher env b s))"
  by (simp_all add: releaseVNode_def exitWatcher_def cleanUp_def split: prod.split)

section \<open>Reachable states of the controller\<close>

text \<open>
  Any handler, election run, take-over, release, check or removal may come next, and any step of the
  kubelet of any node, with whatever environment it meets; the outside may change at any time.
\<close>

inductive vcStep :: "('r, 'x) vcState \<Rightarrow> ('r, 'x) vcState \<Rightarrow> bool" where
  Discovered: "onBaseDiscovered o' b data s = Returns s' \<Longrightarrow> vcStep s s'"
| StartUp: "startUp senv b s = Returns (r, s') \<Longrightarrow> vcStep s s'"
| BaseStatus: "onBaseStatusArrived o' tenv n data s = Returns s' \<Longrightarrow> vcStep s s'"
| AllBiz: "onAllBizStatusArrived o' tenv n datas s = Returns s' \<Longrightarrow> vcStep s s'"
| OneBiz: "onSingleBizStatusArrived o' tenv n data s = Returns s' \<Longrightarrow> vcStep s s'"
| PodAdd: "podAddHandler o' pod s = Returns s' \<Longrightarrow> vcStep s s'"
| PodUpdate: "podUpdateHandler o' old pod s = Returns s' \<Longrightarrow> vcStep s s'"
| PodDelete: "podDeleteHandler o' pod s = Returns s' \<Longrightarrow> vcStep s s'"
| Elect: "runVNodeOp a (createOrRetryUpdateLease lenv (clientID (fst s))) s = Returns s' \<Longrightarrow> vcStep s s'"
| TakeOver: "runVNodeOp a (\<lambda>t. case takeOverRound o' renv w data t of
      Returns (_, t) \<Rightarrow> Returns t | Panics \<Rightarrow> Panics | Diverges \<Rightarrow> Diverges) s = Returns s' \<Longrightarrow> vcStep s s'"
| Release: "vcStep s (onVNode a (releaseVNode renv) s)"
| Watch: "vcStep s (onVNode a (exitWatcher renv exits) s)"
| Check: "vcStep s (checkDead o' a s)"
| Gone: "doneClosed (vnHeap (vNodeStore (fst s)) a) \<Longrightarrow> vcStep s (deleteVNode env a s)"
| Work: "kubeletStep o' (enter (podController (vnHeap (vNodeStore c) a)) x) p \<Longrightarrow> leave p = (q, x') \<Longrightarrow>
    vcStep (c, x) (c\<lparr>vNodeStore := setVNode a ((vnHeap (vNodeStore c) a)\<lparr>podController := q\<rparr>) (vNodeStore c)\<rparr>, x')"
| Outside: "vcStep (c, x) (c, x')"

inductive vcReachable :: "('r, 'x) vcState \<Rightarrow> bool" where
  vcInit: "NewVNodeController h cfg = Ok c \<Longrightarrow> vcReachable (c, x)"
| vcNext: "vcReachable s \<Longrightarrow> vcStep s s' \<Longrightarrow> vcReachable s'"

definition settings :: "('r, 'x) VNodeController \<Rightarrow> string \<times> string \<times> string \<times> bool \<times> int \<times> int \<times> string" where
  "settings c = (clientID c, vc_env c, vPodType c, isCluster c, workloadMaxLevel c, vNodeWorkerNum c, pseudoNodeIP c)"

text \<open>The kubelet of every node in use is consistent.\<close>

definition nodes_ok :: "('r, 'x) VNodeStore \<Rightarrow> bool" where
  "nodes_ok r \<longleftrightarrow> (\<forall>a<vnFresh r. pods_ok (podController (vnHeap r a)))"

definition storeKeeps :: "('r, 'x) VNodeStore \<Rightarrow> ('r, 'x) VNodeStore \<Rightarrow> bool" where
  "storeKeeps r r' \<longleftrightarrow> (store_ok r \<longrightarrow> store_ok r') \<and> (nodes_ok r \<longrightarrow> nodes_ok r')"

lemma storeKeeps_refl [simp]: "storeKeeps r r"
  by (simp add: storeKeeps_def)

lemma storeKeeps_set: "nodeKeeps (vnHeap r a) v \<Longrightarrow> storeKeeps r (setVNode a v r)"
  by (simp add: storeKeeps_def nodeKeeps_def store_ok_set) (simp add: nodes_ok_def setVNode_def)

lemma storeKeeps_delete: "storeKeeps r (DeleteVNode n r)"
  by (simp add: storeKeeps_def store_ok_delete) (simp add: nodes_ok_def DeleteVNode_def)

lemma storeKeeps_add:
  assumes "allocVNode v r = (a, r1)" "vn_name v = n" "pods_ok (podController v)" "AddVNode n a r1 = Ok r2"
  shows "storeKeeps r r2"
  using assms store_ok_add [of r v a r1 n r2]
  by (auto simp: storeKeeps_def nodes_ok_def allocVNode_def AddVNode_def less_Suc_eq split: if_splits)

text \<open>What a step keeps: the settings, the order in the store, and the consistency of the kubelets.\<close>

definition vcKeeps :: "('r, 'x) vcState \<Rightarrow> ('r, 'x) vcState \<Rightarrow> bool" where
  "vcKeeps s s' \<longleftrightarrow> settings (fst s') = settings (fst s) \<and> storeKeeps (vNodeStore (fst s)) (vNodeStore (fst s'))"

lemma vcKeeps_refl [simp]: "vcKeeps s s"
  by (simp add: vcKeeps_def)

lemma vcKeeps_trans: "vcKeeps s t \<Longrightarrow> vcKeeps t u \<Longrightarrow> vcKeeps s u"
  by (simp add: vcKeeps_def storeKeeps_def)

lemma vcKeeps_store:
  "storeKeeps (vNodeStore c) r \<Longrightarrow> vcKeeps (c, x) (c\<lparr>vNodeStore := r\<rparr>, x')"
  by (simp add: vcKeeps_def settings_def)

lemma vcKeeps_onVNode:
  assumes "\<And>t. nodeKeeps (fst t) (fst (f t))"
  shows "vcKeeps s (onVNode a f s)"
proof -
  obtain c x where s: "s = (c, x)" by (cases s)
  obtain v x' where f: "f (vnHeap (vNodeStore c) a, x) = (v, x')" by fastforce
  with assms [of "(vnHeap (vNodeStore c) a, x)"] have "nodeKeeps (vnHeap (vNodeStore c) a) v" by simp
  then show ?thesis by (simp add: s onVNode_def f vcKeeps_store storeKeeps_set)
qed

lemma vcKeeps_runVNodeOp:
  assumes "runVNodeOp a f s = Returns s'"
    and "\<And>v x v' x'. f (v, x) = Returns (v', x') \<Longrightarrow> nodeKeeps v v'"
  shows "vcKeeps s s'"
proof -
  obtain c x where s: "s = (c, x)" by (cases s)
  with assms(1) obtain v x' where f: "f (vnHeap (vNodeStore c) a, x) = Returns (v, x')"
    and s': "s' = (c\<lparr>vNodeStore := setVNode a v (vNodeStore c)\<rparr>, x')"
    by (auto simp: runVNodeOp_def split: run.splits)
  show ?thesis unfolding s s' by (intro vcKeeps_store storeKeeps_set assms(2) [OF f])
qed

lemma storeKeeps_state [simp]:
  "storeKeeps r (UpdateNodeStateOnProviderArrived now n st r)" "storeKeeps r (NodeShutdown now n r)"
  by (auto simp: UpdateNodeStateOnProviderArrived_def NodeShutdown_def Let_def Shutdown_def nodeKeeps_def
      intro: storeKeeps_set split: option.split)

lemma store_ok_state [simp]:
  "store_ok r \<Longrightarrow> store_ok (UpdateNodeStateOnProviderArrived now n st r)"
  "store_ok r \<Longrightarrow> store_ok (NodeShutdown now n r)"
  using storeKeeps_state [of r] by (simp_all add: storeKeeps_def)

lemma vcKeeps_onStore: "(\<And>r. storeKeeps r (f r)) \<Longrightarrow> vcKeeps s (onStore f s)"
  by (cases s) (simp add: onStore_def vcKeeps_store)

lemma vcKeeps_asLeader:
  assumes "asLeader o' a f s = Returns s'" "\<And>t t'. f t = Returns t' \<Longrightarrow> vcKeeps t t'"
  shows "vcKeeps s s'"
  using assms by (auto simp: asLeader_def split: outcome.splits bool.splits)

lemma vcKeeps_isValid: "isValidStatus o' a s = (b, s') \<Longrightarrow> vcKeeps s s'"
  by (auto simp: isValidStatus_def shutdownVNode_def Let_def vcKeeps_onStore split: if_splits)

lemma vcKeeps_ifValid:
  assumes "ifValid o' a f s = Returns s'" "\<And>t. vcKeeps t (f t)"
  shows "vcKeeps s s'"
proof -
  obtain b t where t: "isValidStatus o' a s = (b, t)" by (cases "isValidStatus o' a s")
  with assms(1) have "s' = (if b then f t else t)" by (simp add: ifValid_def)
  with vcKeeps_isValid [OF t] vcKeeps_trans [OF _ assms(2)] show ?thesis by simp
qed

lemma vcKeeps_knowPod: "vcKeeps s (knowPod a pod s)"
  by (simp add: knowPod_def vcKeeps_onVNode)

lemma NewVNode_pods: "NewVNode MP pl cpu dflt cfg = Ok (v, cm) \<Longrightarrow> pods_ok (podController v)"
  by (auto simp: NewVNode_def NewNode_def NewPodController_def pods_ok_def known_ok_def queue_inv_New
      NewVPodProvider_def NewVPodStore_def vpods.filed_def GetPodByKey_def
      split: if_splits outcome.splits prod.splits option.splits)

lemma vcKeeps_start: "startVNode b d c = Returns (r, c') \<Longrightarrow> vcKeeps (c, x) (c', x)"
proof -
  assume run: "startVNode b d c = Returns (r, c')"
  show ?thesis
  proof (cases "c' = c")
    case False
    with run obtain a where made: "createVNode b d c = Ok (a, c')"
      by (auto simp: startVNode_def createAndRunVNode_def split: option.splits outcome.splits)
    then obtain v cm r1 r2 where v: "NewVNode (MustParse b) (platform b) (numCPU b) (dfltLimiter b) (vnodeConfig c d) = Ok (v, cm)"
      and alloc: "allocVNode v (vNodeStore c) = (a, r1)" and add: "AddVNode (m_Name (Metadata d)) a r1 = Ok r2"
      and c': "c' = c\<lparr>vNodeStore := r2\<rparr>"
      by (auto simp: createVNode_def Let_def split: outcome.splits prod.splits)
    have "vn_name v = m_Name (Metadata d)"
      using v by (auto simp: NewVNode_def vnodeConfig_def split: if_splits outcome.splits)
    from storeKeeps_add [OF alloc this NewVNode_pods [OF v] add] show ?thesis unfolding c' by (rule vcKeeps_store)
  qed simp
qed

lemma vcKeeps_startAll: "startAll b ds c = Returns c' \<Longrightarrow> vcKeeps (c, x) (c', x)"
proof (induction ds arbitrary: c)
  case (Cons d ds)
  then obtain r c1 where "startVNode b d c = Returns (r, c1)" "startAll b ds c1 = Returns c'"
    by (auto split: run.splits)
  with vcKeeps_trans [OF vcKeeps_start Cons.IH] show ?case by blast
qed simp

lemma vcKeeps_outside: "vcKeeps (c, x) t \<Longrightarrow> vcKeeps (c, x') t"
  by (simp add: vcKeeps_def)

lemma vcKeeps_startUp: "startUp env b s = Returns (r, s') \<Longrightarrow> vcKeeps s s'"
proof -
  assume run: "startUp env b s = Returns (r, s')"
  obtain c x where s: "s = (c, x)" by (cases s)
  from run obtain c' x' where s': "s' = (c', x')" "c' = c \<or> (\<exists>nodes. discoverPreviousNodes b nodes c = Returns c')"
    by (auto simp: startUp_def s split: option.splits prod.splits bool.splits sum.splits run.splits)
  then have "vcKeeps (c, x') (c', x')" by (auto simp: discoverPreviousNodes_def vcKeeps_startAll)
  then show ?thesis unfolding s s'(1) by (rule vcKeeps_outside)
qed

lemma vcKeeps_discovered: "onBaseDiscovered o' b d s = Returns s' \<Longrightarrow> vcKeeps s s'"
proof -
  assume run: "onBaseDiscovered o' b d s = Returns s'"
  obtain c x where s: "s = (c, x)" by (cases s)
  obtain r c1 where 1: "(if State d = NodeStateActivated then startVNode b d c else Returns (None, c)) = Returns (r, c1)"
    and s': "s' = onStore (UpdateNodeStateOnProviderArrived (oNow o' x) (m_Name (Metadata d)) (State d)) (c1, x)"
    using run by (auto simp: onBaseDiscovered_def s split: run.splits)
  have "vcKeeps s (c1, x)" using 1 by (auto simp: s vcKeeps_start split: if_splits)
  then show ?thesis unfolding s' by (rule vcKeeps_trans) (simp add: vcKeeps_onStore)
qed

lemma vcKeeps_baseStatus:
  assumes "onBaseStatusArrived o' env n d s = Returns s'"
  shows "vcKeeps s s'"
proof (cases "GetVNode (vNodeStore (fst s)) n")
  case None
  with assms show ?thesis by (simp add: onBaseStatusArrived_def)
next
  case (Some a)
  have sync: "vcKeeps t t'" if run: "(\<lambda>s. case runVNodeOp a (SyncNodeStatus (cacheNode env) (rangeConditions env) d) s of
        Returns s \<Rightarrow> Returns (if NodeState d \<noteq> '''' then onStore (UpdateNodeStateOnProviderArrived (oNow o' (snd s)) n (NodeState d)) s else s)
      | Panics \<Rightarrow> Panics | Diverges \<Rightarrow> Diverges) t = Returns t'" for t t'
  proof -
    obtain t1 where t1: "runVNodeOp a (SyncNodeStatus (cacheNode env) (rangeConditions env) d) t = Returns t1"
      and t': "t' = (if NodeState d \<noteq> '''' then onStore (UpdateNodeStateOnProviderArrived (oNow o' (snd t1)) n (NodeState d)) t1 else t1)"
      using run by (cases "runVNodeOp a (SyncNodeStatus (cacheNode env) (rangeConditions env) d) t") simp_all
    have "vcKeeps t t1" by (rule vcKeeps_runVNodeOp [OF t1]) (drule SyncNodeStatus_same, simp)
    then show ?thesis unfolding t' by (rule vcKeeps_trans) (simp add: vcKeeps_onStore)
  qed
  show ?thesis
    by (rule vcKeeps_asLeader [OF _ sync]) (use assms Some in \<open>simp_all add: onBaseStatusArrived_def\<close>)
qed

lemma vcKeeps_allBiz:
  assumes "onAllBizStatusArrived o' env n ds s = Returns s'"
  shows "vcKeeps s s'"
proof (cases "GetVNode (vNodeStore (fst s)) n")
  case None
  with assms show ?thesis by (simp add: onAllBizStatusArrived_def)
next
  case (Some a)
  have sync: "vcKeeps t t'" if "(\<lambda>(c, x). case listPodFromKube env n x of ((pods, _), x) \<Rightarrow>
      (case FillPodKey pods ds of (us, rs) \<Rightarrow>
        runVNodeOp a (SyncBatchBizStatusToKube o' (rangePods env) (clockNow env) (clockNext env) us rs) (c, x))) t
      = Returns t'" for t t'
  proof -
    obtain c x pods e x1 us rs where t: "t = (c, x)" "listPodFromKube env n x = ((pods, e), x1)"
      "FillPodKey pods ds = (us, rs)" by (metis surj_pair)
    with that have "runVNodeOp a (SyncBatchBizStatusToKube o' (rangePods env) (clockNow env) (clockNext env) us rs) (c, x1)
      = Returns t'" by simp
    then have "vcKeeps (c, x1) t'" by (rule vcKeeps_runVNodeOp) (erule syncs_keep)
    then show ?thesis unfolding t(1) by (rule vcKeeps_outside)
  qed
  show ?thesis
    by (rule vcKeeps_asLeader [OF _ sync]) (use assms Some in \<open>simp_all add: onAllBizStatusArrived_def\<close>)
qed

lemma vcKeeps_oneBiz:
  assumes "onSingleBizStatusArrived o' env n d s = Returns s'"
  shows "vcKeeps s s'"
proof (cases "GetVNode (vNodeStore (fst s)) n")
  case None
  with assms show ?thesis by (simp add: onSingleBizStatusArrived_def)
next
  case (Some a)
  have sync: "vcKeeps t t'" if "(\<lambda>(c, x). case listPodFromKube env n x of ((pods, _), x) \<Rightarrow>
      (case FillPodKey pods [d] of (us, rs) \<Rightarrow>
        runVNodeOp a (SyncOneNodeBizStatusToKube o' (clockNext env) us rs) (c, x))) t = Returns t'" for t t'
  proof -
    obtain c x pods e x1 us rs where t: "t = (c, x)" "listPodFromKube env n x = ((pods, e), x1)"
      "FillPodKey pods [d] = (us, rs)" by (metis surj_pair)
    with that have "runVNodeOp a (SyncOneNodeBizStatusToKube o' (clockNext env) us rs) (c, x1) = Returns t'" by simp
    then have "vcKeeps (c, x1) t'" by (rule vcKeeps_runVNodeOp) (erule syncs_keep)
    then show ?thesis unfolding t(1) by (rule vcKeeps_outside)
  qed
  show ?thesis
    by (rule vcKeeps_asLeader [OF _ sync]) (use assms Some in \<open>simp_all add: onSingleBizStatusArrived_def\<close>)
qed
lemma vcKeeps_gated:
  assumes "asLeader o' a (ifValid o' a f) t = Returns s'" "\<And>u. vcKeeps u (f u)"
  shows "vcKeeps t s'"
  by (rule vcKeeps_asLeader [OF assms(1)]) (erule vcKeeps_ifValid, rule assms(2))

lemma vcKeeps_podAdd:
  assumes "podAddHandler o' pod s = Returns s'"
  shows "vcKeeps s s'"
proof (cases "GetVNodeByNodeName (vNodeStore (fst s)) (NodeName pod)")
  case (Some a)
  with assms have "asLeader o' a (ifValid o' a (onVNode a (VNodeSyncEnqueue o' (GetPodKey (Some pod))))) (knowPod a pod s) = Returns s'"
    by (simp add: podAddHandler_def Let_def)
  then have "vcKeeps (knowPod a pod s) s'" by (rule vcKeeps_gated) (simp add: vcKeeps_onVNode)
  with vcKeeps_trans [OF vcKeeps_knowPod] show ?thesis .
qed (use assms in \<open>simp add: podAddHandler_def\<close>)

lemma vcKeeps_podUpdate:
  assumes "podUpdateHandler o' old pod s = Returns s'"
  shows "vcKeeps s s'"
proof (cases "GetVNodeByNodeName (vNodeStore (fst s)) (NodeName pod)")
  case (Some a)
  with assms have "asLeader o' a (ifValid o' a (\<lambda>s. if podShouldEnqueue (Some old) (Some pod)
      then onVNode a (VNodeSyncEnqueue o' (GetPodKey (Some pod))) s else s)) (knowPod a pod s) = Returns s'"
    by (simp add: podUpdateHandler_def Let_def)
  then have "vcKeeps (knowPod a pod s) s'" by (rule vcKeeps_gated) (simp add: vcKeeps_onVNode)
  with vcKeeps_trans [OF vcKeeps_knowPod] show ?thesis .
qed (use assms in \<open>simp add: podUpdateHandler_def\<close>)

lemma vcKeeps_podDelete:
  assumes "podDeleteHandler o' pod s = Returns s'"
  shows "vcKeeps s s'"
proof (cases "GetVNodeByNodeName (vNodeStore (fst s)) (NodeName pod)")
  case (Some a)
  let ?k = "GetPodKey (Some pod)"
  from Some assms have "asLeader o' a (ifValid o' a (\<lambda>s. onVNode a (VNodeDeleteForget (deletionKey ?k pod))
      (onVNode a (VNodeSyncEnqueue o' ?k) (onVNode a (VNodeDeleteKnownPod ?k) s)))) s = Returns s'"
    by (simp add: podDeleteHandler_def Let_def)
  then show ?thesis
    by (rule vcKeeps_gated) (rule vcKeeps_trans [OF vcKeeps_trans [OF vcKeeps_onVNode vcKeeps_onVNode] vcKeeps_onVNode], simp_all)
qed (use assms in \<open>simp add: podDeleteHandler_def\<close>)

lemma vcKeeps_elect:
  "runVNodeOp a (createOrRetryUpdateLease lenv c) s = Returns s' \<Longrightarrow> vcKeeps s s'"
  by (erule vcKeeps_runVNodeOp) (simp add: createOrRetryUpdateLease_def leaseLoop_keeps)

lemma vcKeeps_takeOver:
  "runVNodeOp a (\<lambda>t. case takeOverRound o' renv w data t of
      Returns (_, t) \<Rightarrow> Returns t | Panics \<Rightarrow> Panics | Diverges \<Rightarrow> Diverges) s = Returns s' \<Longrightarrow> vcKeeps s s'"
  by (erule vcKeeps_runVNodeOp) (auto split: run.splits prod.splits dest: takeOverRound_keeps)

lemma vcKeeps_gone: "vcKeeps s (deleteVNode env a s)"
  by (cases s) (simp add: deleteVNode_def Let_def vcKeeps_store storeKeeps_delete)

lemma vcKeeps_check: "vcKeeps s (checkDead o' a s)"
  by (simp add: checkDead_def shutdownVNode_def vcKeeps_onStore Let_def)

lemma vcKeeps_work:
  assumes "kubeletStep o' (enter (podController (vnHeap (vNodeStore c) a)) x) p" "leave p = (q, x')"
  shows "vcKeeps (c, x) (c\<lparr>vNodeStore := setVNode a ((vnHeap (vNodeStore c) a)\<lparr>podController := q\<rparr>) (vNodeStore c)\<rparr>, x')"
proof (intro vcKeeps_store storeKeeps_set)
  show "nodeKeeps (vnHeap (vNodeStore c) a) ((vnHeap (vNodeStore c) a)\<lparr>podController := q\<rparr>)"
    using kubeletStep_ok [OF assms(1)] leave_ok [OF _ assms(2)] by (simp add: nodeKeeps_def)
qed

lemma vcKeeps_step: "vcStep s s' \<Longrightarrow> vcKeeps s s'"
proof (induction rule: vcStep.induct)
  case (Outside c x x')
  then show ?case by (simp add: vcKeeps_def)
qed (erule vcKeeps_startUp vcKeeps_discovered vcKeeps_baseStatus vcKeeps_allBiz vcKeeps_oneBiz vcKeeps_podAdd
    vcKeeps_podUpdate vcKeeps_podDelete vcKeeps_elect vcKeeps_takeOver vcKeeps_work
    | rule vcKeeps_gone vcKeeps_check | (rule vcKeeps_onVNode, simp))+

lemma vcReachable_ok:
  "vcReachable s \<Longrightarrow> store_ok (vNodeStore (fst s)) \<and> nodes_ok (vNodeStore (fst s)) \<and> vPodType (fst s) \<noteq> '''' \<and>
     vNodeWorkerNum (fst s) \<noteq> 0 \<and> (isCluster (fst s) \<longrightarrow> workloadMaxLevel (fst s) \<noteq> 0)"
proof (induction rule: vcReachable.induct)
  case (vcInit h cfg c x)
  then show ?case
    by (auto simp: NewVNodeController_def Let_def store_ok_def nodes_ok_def GetVNode_def NewVNodeStore_def
        split: option.splits if_splits)
next
  case (vcNext s s')
  from vcKeeps_step [OF this(2)] this(3) show ?case by (auto simp: vcKeeps_def settings_def storeKeeps_def)
qed

lemma reachable_pods:
  assumes "vcReachable s" "GetVNodeByNodeName (vNodeStore (fst s)) n = Some a"
  shows "pods_ok (podController (vnHeap (vNodeStore (fst s)) a))"
  using vcReachable_ok [OF assms(1)] assms(2)
  by (auto simp: store_ok_def nodes_ok_def GetVNode_def GetVNodeByNodeName_def)

section \<open>A round of a worker of a node\<close>

definition onKubelet ::
  "(('r, 'x vworld) pcState \<Rightarrow> ('r, 'x vworld) pcState run) \<Rightarrow> ('r, 'x) VNode \<times> 'x \<Rightarrow> (('r, 'x) VNode \<times> 'x) run" where
  "onKubelet f s =
     (case s of (v, x) \<Rightarrow>
        (case f (enter (podController v) x) of
           Returns p \<Rightarrow> (case leave p of (q, x) \<Rightarrow> Returns (v\<lparr>podController := q\<rparr>, x))
         | Panics \<Rightarrow> Panics
         | Diverges \<Rightarrow> Diverges))"

lemma enter_leave: "leave p = (q, x) \<Longrightarrow> enter q x = p"
  by (auto simp: leave_def enter_def)

text \<open>Such a round is a sequence of steps of the controller.\<close>

lemma vcReachable_work:
  assumes "(kubeletStep o')\<^sup>*\<^sup>* (enter (podController (vnHeap (vNodeStore c) a)) x) p" "vcReachable (c, x)"
    "leave p = (q, x')"
  shows "vcReachable (c\<lparr>vNodeStore := setVNode a ((vnHeap (vNodeStore c) a)\<lparr>podController := q\<rparr>) (vNodeStore c)\<rparr>, x')"
  using assms(1,3)
proof (induction arbitrary: q x' rule: rtranclp_induct)
  case base
  have "leave (enter (podController (vnHeap (vNodeStore c) a)) x) = (podController (vnHeap (vNodeStore c) a), x)"
    by (simp add: enter_def leave_def)
  with base have "q = podController (vnHeap (vNodeStore c) a)" "x' = x" by simp_all
  moreover have "v\<lparr>podController := podController v\<rparr> = v" for v :: "('a, 'b) VNode" by simp
  moreover have "setVNode a (vnHeap r a) r = r" for r :: "('a, 'b) VNodeStore" by (simp add: setVNode_def)
  ultimately show ?case using assms(2) by simp
next
  case (step p1 p2)
  obtain q1 x1 where 1: "leave p1 = (q1, x1)" by fastforce
  let ?c = "c\<lparr>vNodeStore := setVNode a ((vnHeap (vNodeStore c) a)\<lparr>podController := q1\<rparr>) (vNodeStore c)\<rparr>"
  have "kubeletStep o' (enter (podController (vnHeap (vNodeStore ?c) a)) x1) p2"
    using step(2) enter_leave [OF 1] by (simp add: setVNode_def)
  from vcNext [OF step.IH [OF 1] Work [OF this step.prems]] show ?case
    by (simp add: setVNode_def)
qed

section \<open>A reachable state with a leader\<close>

text \<open>
  A quiet cluster, and a run in it: a controller is built, a base is discovered, the client takes the
  lease of its node and takes the node over.
\<close>

abbreviation demoOutside :: "(unit, unit) outside" where
  "demoOutside \<equiv> quietOutside (Inl (ErrAPI NotFound))"

lemma demoOutside_now [simp]: "oNow demoOutside x = GoTime 1"
  by (simp add: quietOutside_def)

definition demoInfo :: NodeInfo where
  "demoInfo = (ConvertNodeToNodeInfo plainNode)\<lparr>State := NodeStateActivated,
     Metadata := (Metadata (ConvertNodeToNodeInfo plainNode))\<lparr>m_Name := ''vnode.b.test''\<rparr>\<rparr>"

definition demoBuild :: "unit buildEnv" where
  "demoBuild = \<lparr>MustParse = (\<lambda>_. 0), platform = 7, numCPU = 4, dfltLimiter = (quietLimiter, ())\<rparr>"

definition demoSettings :: BuildVNodeControllerConfig where
  "demoSettings = \<lparr>cc_ClientID = ''a'', cc_Env = ''test'', cc_VPodType = ''module'', cc_IsCluster = True,
     cc_WorkloadMaxLevel = 0, cc_VNodeWorkerNum = 0, cc_PseudoNodeIP = []\<rparr>"

definition demoLeases :: "'x leaseEnv" where
  "demoLeases = \<lparr>leaseSleep = (\<lambda>x. x), leaseGet = (\<lambda>_ _ x. (Inl (ErrAPI NotFound), x)),
     leaseCreate = (\<lambda>l x. (Inr l, x)), leasePatch = (\<lambda>_ _ x. (None, x)), leaseNow = (\<lambda>x. (GoTime 1, x))\<rparr>"

definition demoRunEnv :: "'x runEnv" where
  "demoRunEnv = \<lparr>runNode = Some, nodeReady = WaitReady', nodeError = None, cacheHasNode = (\<lambda>_ x. (None, x)),
     pollsEnd = (\<lambda>_. False), RegisterNode = (\<lambda>_ x. (None, x)), UnRegisterNode = (\<lambda>_ x. x),
     listPods = (\<lambda>_ _ x. (Inr [], x))\<rparr>"


lemma NewVNode_fields:
  assumes "NewVNode MP pl cpu dflt cfg = Ok (v, cm)"
  shows "lease v = None" "readyClosed v = False" "TakeOvered v = False" "acquiredByMe v = False"
    "vn_name v = bc_NodeName cfg" "syncPodsFromKubernetes (podController v) = New (snd dflt)"
    "knownPods (podController v) = Map.empty" "syncPodStatusFromProvider (podController v) = New (snd dflt)"
    "vPodStore (world (podController v)) = NewVPodStore" "nodeName (world (podController v)) = bc_NodeName cfg"
  using assms
  by (auto simp: NewVPodProvider_def NewVNode_def NewNode_def NewPodController_def
      split: if_splits outcome.splits prod.splits option.splits)

text \<open>A node that its client leads and that is ready, and that knows no pod yet.\<close>

definition demoLed :: "(unit, 'x) vcState \<Rightarrow> bool" where
  "demoLed s \<longleftrightarrow>
     clientID (fst s) = ''a'' \<and> GetVNode (vNodeStore (fst s)) ''vnode.b.test'' = Some 0 \<and>
     (let v = vnHeap (vNodeStore (fst s)) 0
      in IsLeader ''a'' (GoTime 1) v = Ok True \<and> IsReady v \<and> IsReachable (GoTime 1) (liveness v) \<and>
         syncPodsFromKubernetes (podController v) = New () \<and> knownPods (podController v) = Map.empty \<and>
         syncPodStatusFromProvider (podController v) = New () \<and>
         vPodStore (world (podController v)) = NewVPodStore \<and>
         nodeName (world (podController v)) = ''vnode.b.test'')"

lemma demoLed_reachable_at:
  fixes o' :: "(unit, 'x) outside" and x :: 'x
  assumes now: "\<And>x. oNow o' x = GoTime 1"
  shows "\<exists>s. vcReachable s \<and> demoLed s \<and> snd s = x"
proof -
  obtain c :: "(unit, 'x) VNodeController" where c: "NewVNodeController (\<lambda>_. demoVNode) (Some demoSettings) = Ok c"
    and new: "vNodeStore c = NewVNodeStore (\<lambda>_. demoVNode)" "clientID c = ''a''"
    by (simp add: NewVNodeController_def Let_def demoSettings_def)
  have info: "State demoInfo = NodeStateActivated" "m_Name (Metadata demoInfo) = ''vnode.b.test''"
    by (simp_all add: demoInfo_def)
  let ?cfg = "vnodeConfig c demoInfo"
  have cfg: "bc_NodeName ?cfg = ''vnode.b.test''" "bcHasClient ?cfg" "bcHasCache ?cfg"
    by (simp_all add: vnodeConfig_def info)
  obtain v :: "(unit, 'x) VNode" and cm where v: "NewVNode (MustParse demoBuild) (platform demoBuild) (numCPU demoBuild)
      (dfltLimiter demoBuild) ?cfg = Ok (v, cm)"
    using NewVNode_ok [OF _ cfg(2,3)] cfg(1) by fastforce
  note fields = NewVNode_fields [OF v]
  let ?v1 = "v\<lparr>liveness := UpdateHeartBeatTime (GoTime 1) (liveness v)\<rparr>"
  let ?c1 = "c\<lparr>vNodeStore := \<lparr>nodeNameToVNode = [''vnode.b.test'' \<mapsto> 0], vnHeap = (\<lambda>_. demoVNode)(0 := ?v1), vnFresh = 1\<rparr>\<rparr>"
  have 1: "onBaseDiscovered o' demoBuild demoInfo (c, x) = Returns (?c1, x)"
    using v by (simp add: onBaseDiscovered_def info startVNode_def createAndRunVNode_def createVNode_def new
        NewVNodeStore_def GetVNode_def allocVNode_def AddVNode_def onStore_def UpdateNodeStateOnProviderArrived_def
        setVNode_def now Let_def EqualFold_def fun_eq_iff)
  let ?l = "NewLease (GoTime 1) ''a'' ?v1"
  let ?v2 = "?v1\<lparr>lease := Some ?l, acquiredByMe := True\<rparr>"
  have leads: "IsLeader ''a'' (GoTime 1) (SetLease (Some ?l) ?v1) = Ok True"
    by (simp add: IsLeader_def SetLease_def NewLease_def Let_def go_defs NodeLeaseDurationSeconds_def)
  have round: "leaseRound demoLeases ''a'' ?v1 x = Done (?v2, x)"
    using leads fields
    by (simp add: leaseRound_def demoLeases_def useLease_def Let_def IsLeader_def SetLease_def LeaderAcquiredByMe_def)
  let ?c2 = "c\<lparr>vNodeStore := \<lparr>nodeNameToVNode = [''vnode.b.test'' \<mapsto> 0], vnHeap = (\<lambda>_. demoVNode)(0 := ?v2), vnFresh = 1\<rparr>\<rparr>"
  have 2: "runVNodeOp 0 (createOrRetryUpdateLease demoLeases (clientID (fst (?c1, x)))) (?c1, x) = Returns (?c2, x)"
    using round new by (simp add: runVNodeOp_def createOrRetryUpdateLease_def NodeLeaseMaxRetryTimes_def eval_nat_numeral setVNode_def)
  let ?v3 = "?v2\<lparr>acquiredByMe := False, TakeOvered := True, readyClosed := True, vn_err := None, awaitsOthers := True\<rparr>"
  let ?c3 = "c\<lparr>vNodeStore := \<lparr>nodeNameToVNode = [''vnode.b.test'' \<mapsto> 0], vnHeap = (\<lambda>_. demoVNode)(0 := ?v3), vnFresh = 1\<rparr>\<rparr>"
  have 3: "runVNodeOp 0 (\<lambda>t. case takeOverRound o' demoRunEnv WaitReady' demoInfo t of
      Returns (_, t) \<Rightarrow> Returns t | Panics \<Rightarrow> Panics | Diverges \<Rightarrow> Diverges) (?c2, x) = Returns (?c3, x)"
    using fields(3) by (simp add: runVNodeOp_def takeOverRound_def takeOverVNode_def VNodeRun_def check_node_once demoRunEnv_def
        NodeWaitReady_def VNodeWaitReady_def resetActivationStatus_def activate_def discoveryPreviousPods_def runResult_def
        setVNode_def Let_def)
  have led: "demoLed (?c3, x)"
    using leads fields new cfg(1)
    by (simp add: demoLed_def IsReady_def IsReachable_def UpdateHeartBeatTime_def GetVNode_def IsLeader_def SetLease_def demoBuild_def go_defs const_defs)
  have reach: "vcReachable (?c3, x)"
    by (rule vcNext [OF vcNext [OF vcNext [OF vcInit [OF c]]] TakeOver [OF 3]]) (rule Discovered [OF 1], rule Elect [OF 2])
  show ?thesis by (rule exI, rule conjI [OF reach], rule conjI [OF led]) (rule snd_conv)
qed

lemma demoLed_reachable: "\<exists>s :: (unit, unit) vcState. vcReachable s \<and> demoLed s"
  using demoLed_reachable_at [OF demoOutside_now] by blast

end
