(* ===== verification/VNodeController_Spec.thy ===== *)
theory VNodeController_Spec
  imports VNodeController_Inv
begin

text \<open>
  What the virtual node controller does in its reachable states: what the pod events enqueue and how
  they reach the provider; what a discovered base and a dead one lead to; what a restart recovers;
  and the bounds of the workload.
\<close>

section \<open>Effects on the pod controller of a node\<close>

lemma VNodeSyncEnqueue_eq:
  "VNodeSyncEnqueue o' k (v, x) =
     (v\<lparr>podController := (podController v)\<lparr>syncPodsFromKubernetes :=
          Enqueue (fst (oLimiters o')) (oNow o' x) k (syncPodsFromKubernetes (podController v))\<rparr>\<rparr>, x)"
  by (simp add: VNodeSyncEnqueue_def onPods_def enter_def leave_def SyncPodsFromKubernetesEnqueue_def
      kubeletEnv_def baseEnv_def)

lemma known_ops_eq:
  "AddKnowPod pod (v, x) = (v\<lparr>podController := AddKnownPod pod (podController v)\<rparr>, x)"
  "VNodeDeleteKnownPod k (v, x) = (v\<lparr>podController := DeleteKnownPod k (podController v)\<rparr>, x)"
  "VNodeDeleteForget k (v, x) = (v\<lparr>podController := DeletePodsFromKubernetesForget k (podController v)\<rparr>, x)"
  by (simp_all add: AddKnowPod_def VNodeDeleteKnownPod_def VNodeDeleteForget_def onPods_def enter_def leave_def
      AddKnownPod_def DeleteKnownPod_def DeletePodsFromKubernetesForget_def)

text \<open>The node at an address, and the keys its sync queue owes.\<close>

abbreviation nodeAt :: "('r, 'x) vcState \<Rightarrow> addr \<Rightarrow> ('r, 'x) VNode" where
  "nodeAt s a \<equiv> vnHeap (vNodeStore (fst s)) a"

definition syncOwed :: "('r, 'x) vcState \<Rightarrow> addr \<Rightarrow> string set" where
  "syncOwed s a = owed (syncPodsFromKubernetes (podController (nodeAt s a)))"

definition syncQueue_ok :: "('r, 'x) vcState \<Rightarrow> addr \<Rightarrow> bool" where
  "syncQueue_ok s a \<longleftrightarrow> queue_inv (syncPodsFromKubernetes (podController (nodeAt s a)))"

lemma onVNode_at: "nodeAt (onVNode a f s) b = (if b = a then fst (f (nodeAt s a, snd s)) else nodeAt s b)"
  by (cases s) (simp add: onVNode_def setVNode_def split: prod.split)

lemma onVNode_rest:
  "nodeNameToVNode (vNodeStore (fst (onVNode a f s))) = nodeNameToVNode (vNodeStore (fst s))"
  "clientID (fst (onVNode a f s)) = clientID (fst s)"
  "(\<And>v x. snd (f (v, x)) = x) \<Longrightarrow> snd (onVNode a f s) = snd s"
  by (cases s; simp add: onVNode_def setVNode_def split: prod.split; metis snd_conv)+

lemma enqueue_owed:
  assumes "syncQueue_ok s a" "\<not> IsZero (oNow o' (snd s))"
  shows "syncOwed (onVNode a (VNodeSyncEnqueue o' k) s) b =
    (if b = a then Set.insert k (syncOwed s a) else syncOwed s b)"
  using rated.enq_due [of "syncPodsFromKubernetes (podController (nodeAt s a))" "oNow o' (snd s)"] assms
  by (simp add: syncOwed_def syncQueue_ok_def onVNode_at VNodeSyncEnqueue_eq)

text \<open>Operations that leave the queue alone.\<close>

definition sameSync :: "('r, 'x) vcState \<Rightarrow> ('r, 'x) vcState \<Rightarrow> bool" where
  "sameSync s s' \<longleftrightarrow> snd s' = snd s \<and> clientID (fst s') = clientID (fst s) \<and>
     (\<forall>b. syncPodsFromKubernetes (podController (nodeAt s' b)) = syncPodsFromKubernetes (podController (nodeAt s b)) \<and>
          lease (nodeAt s' b) = lease (nodeAt s b) \<and> readyClosed (nodeAt s' b) = readyClosed (nodeAt s b))"

lemma sameSync_owed: "sameSync s s' \<Longrightarrow> syncOwed s' = syncOwed s \<and> syncQueue_ok s' = syncQueue_ok s \<and> snd s' = snd s"
  by (auto simp: sameSync_def syncOwed_def syncQueue_ok_def fun_eq_iff)

lemma sameSync_known: "sameSync s (knowPod a pod s)"
  by (simp add: knowPod_def sameSync_def onVNode_at onVNode_rest known_ops_eq AddKnownPod_def)

lemma sameSync_known_delete: "sameSync s (onVNode a (VNodeDeleteKnownPod k) s)"
  by (simp add: sameSync_def onVNode_at onVNode_rest known_ops_eq DeleteKnownPod_def)

lemma sameSync_forget: "sameSync s (onVNode a (VNodeDeleteForget k) s)"
  by (simp add: sameSync_def onVNode_at onVNode_rest known_ops_eq DeletePodsFromKubernetesForget_def)

lemma sameSync_shutdown: "sameSync s (shutdownVNode o' n s)"
  by (cases s) (simp add: shutdownVNode_def onStore_def sameSync_def NodeShutdown_def Shutdown_def
      setVNode_def Let_def split: option.split)

section \<open>Pod events\<close>

text \<open>The node at an address takes part in events: it is ready, and its base was heard of lately.\<close>

definition mayAct :: "('r, 'x) outside \<Rightarrow> ('r, 'x) vcState \<Rightarrow> addr \<Rightarrow> bool" where
  "mayAct o' s a \<longleftrightarrow> IsReady (nodeAt s a) \<and> IsReachable (oNow o' (snd s)) (liveness (nodeAt s a))"

lemma isValid_mayAct:
  "\<exists>t. sameSync s t \<and> isValidStatus o' a s = (mayAct o' s a, if mayAct o' s a then s else t)"
proof -
  have "sameSync s s" by (simp add: sameSync_def)
  then show ?thesis
    using sameSync_shutdown [of s o' "GetNodeName (nodeAt s a)"]
      IsReachable_not_dead [of "oNow o' (snd s)" "liveness (nodeAt s a)"]
    by (auto simp: isValidStatus_def mayAct_def Let_def simp del: split_paired_Ex)
qed

lemma gated:
  assumes "IsLeader (clientID (fst s)) (oNow o' (snd s)) (nodeAt s a) = Ok led"
  shows "\<exists>t. sameSync s t \<and>
    asLeader o' a (ifValid o' a f) s = Returns (if led \<and> mayAct o' s a then f s else t)"
proof -
  obtain t where "sameSync s t" "isValidStatus o' a s = (mayAct o' s a, if mayAct o' s a then s else t)"
    using isValid_mayAct by blast
  moreover have "sameSync s s" by (simp add: sameSync_def)
  ultimately show ?thesis using assms by (cases led) (auto simp: asLeader_def ifValid_def simp del: split_paired_Ex)
qed

lemma knowPod_at:
  "liveness (nodeAt (knowPod a pod s) b) = liveness (nodeAt s b)"
  "lease (nodeAt (knowPod a pod s) b) = lease (nodeAt s b)"
  by (simp_all add: knowPod_def onVNode_at known_ops_eq)

lemma knowPod_knows: "VNodeGetKnownPod (nodeAt (knowPod a pod s) a) (GetPodKey (Some pod)) \<noteq> None"
  by (simp add: knowPod_def onVNode_at known_ops_eq VNodeGetKnownPod_def GetKnownPod_def AddKnownPod_def)

lemma IsLeader_cong: "lease v = lease w \<Longrightarrow> IsLeader c t v = IsLeader c t w"
  by (simp add: IsLeader_def)

lemma knowPod_IsLeader:
  "IsLeader (clientID (fst (knowPod a pod s))) (oNow o' (snd (knowPod a pod s))) (nodeAt (knowPod a pod s) b) =
   IsLeader (clientID (fst s)) (oNow o' (snd s)) (nodeAt s b)"
  using sameSync_known [of s a pod] by (simp add: sameSync_def IsLeader_cong [OF knowPod_at(2)])

lemma knowPod_mayAct: "mayAct o' (knowPod a pod s) b = mayAct o' s b"
  using sameSync_known [of s a pod] by (simp add: sameSync_def mayAct_def IsReady_def knowPod_at)

lemma known_after_enqueue:
  "VNodeGetKnownPod (nodeAt (onVNode a (VNodeSyncEnqueue o' j) s) b) k = VNodeGetKnownPod (nodeAt s b) k"
  by (simp add: onVNode_at VNodeSyncEnqueue_eq VNodeGetKnownPod_def GetKnownPod_def)

text \<open>What a pod event may add to the keys that the node's sync queue owes.\<close>

definition owedAfter ::
  "('r, 'x) outside \<Rightarrow> bool \<Rightarrow> addr \<Rightarrow> Pod \<Rightarrow> ('r, 'x) vcState \<Rightarrow> addr \<Rightarrow> string set" where
  "owedAfter o' wanted a pod s b =
     (if b = a \<and> wanted \<and> mayAct o' s a then Set.insert (GetPodKey (Some pod)) (syncOwed s b) else syncOwed s b)"

lemma handled_enqueue:
  assumes ok: "syncQueue_ok s a" "\<not> IsZero (oNow o' (snd s))"
    and led: "IsLeader (clientID (fst s)) (oNow o' (snd s)) (nodeAt s a) = Ok led"
  shows "\<exists>s'. asLeader o' a (ifValid o' a (\<lambda>s. if w then onVNode a (VNodeSyncEnqueue o' (GetPodKey (Some pod))) s else s))
      (knowPod a pod s) = Returns s' \<and> syncOwed s' = owedAfter o' (led \<and> w) a pod s"
proof -
  let ?s = "knowPod a pod s" and ?f = "\<lambda>s. if w then onVNode a (VNodeSyncEnqueue o' (GetPodKey (Some pod))) s else s"
  note known = sameSync_owed [OF sameSync_known [of s a pod]]
  obtain t where t: "sameSync ?s t"
    "asLeader o' a (ifValid o' a ?f) ?s = Returns (if led \<and> mayAct o' s a then ?f ?s else t)"
    using gated [of ?s o' a led ?f] led by (auto simp: knowPod_IsLeader knowPod_mayAct)
  have "syncOwed (?f ?s) = owedAfter o' w a pod s" if "mayAct o' s a"
    using enqueue_owed [of ?s a o'] ok that by (auto simp: known owedAfter_def fun_eq_iff)
  moreover have "syncOwed t = syncOwed s" using sameSync_owed [OF t(1)] known by simp
  ultimately show ?thesis using t(2) by (auto simp: owedAfter_def fun_eq_iff)
qed

text \<open>C10. No pod event is lost on the client that leads the node, and no other client acts on it: in
  every reachable state of the controller, a created or updated pod of a known node makes its key owed
  to that node's sync queue exactly when the client leads the node, the node is ready and its base was
  heard of lately, and, for an update, the change matters; no other node's queue changes, and the
  handlers do not panic.\<close>

theorem pod_events_are_owed:
  assumes "GetVNodeByNodeName (vNodeStore (fst s)) (NodeName pod) = Some a"
    "vcReachable s" "\<not> IsZero (oNow o' (snd s))"
    "IsLeader (clientID (fst s)) (oNow o' (snd s)) (nodeAt s a) = Ok led"
  shows "(\<exists>s'. podAddHandler o' pod s = Returns s' \<and> syncOwed s' = owedAfter o' led a pod s) \<and>
    (\<exists>s'. podUpdateHandler o' old pod s = Returns s' \<and>
       syncOwed s' = owedAfter o' (led \<and> podShouldEnqueue (Some old) (Some pod)) a pod s) \<and>
    (\<exists>s'. podDeleteHandler o' pod s = Returns s' \<and> syncOwed s' = owedAfter o' led a pod s)"
proof (intro conjI)
  have "syncQueue_ok s a"
    using reachable_pods [OF assms(2,1)] by (simp add: pods_ok_def syncQueue_ok_def)
  note ok = this assms(3,4)
  show "\<exists>s'. podAddHandler o' pod s = Returns s' \<and> syncOwed s' = owedAfter o' led a pod s"
    using handled_enqueue [OF ok, of True] assms(1) by (simp add: podAddHandler_def Let_def)
  show "\<exists>s'. podUpdateHandler o' old pod s = Returns s' \<and>
      syncOwed s' = owedAfter o' (led \<and> podShouldEnqueue (Some old) (Some pod)) a pod s"
    using handled_enqueue [OF ok, of "podShouldEnqueue (Some old) (Some pod)"] assms(1)
    by (simp add: podUpdateHandler_def Let_def)
  let ?k = "GetPodKey (Some pod)"
  let ?f = "\<lambda>s. onVNode a (VNodeDeleteForget (deletionKey ?k pod))
      (onVNode a (VNodeSyncEnqueue o' ?k) (onVNode a (VNodeDeleteKnownPod ?k) s))"
  obtain t where t: "sameSync s t"
    "asLeader o' a (ifValid o' a ?f) s = Returns (if led \<and> mayAct o' s a then ?f s else t)"
    using gated [OF assms(4)] by blast
  note gone = sameSync_owed [OF sameSync_known_delete [of s a ?k]]
  have "syncOwed (?f s) b = (if b = a then Set.insert ?k (syncOwed s a) else syncOwed s b)" for b
    using sameSync_owed [OF sameSync_forget, of a "deletionKey ?k pod"
        "onVNode a (VNodeSyncEnqueue o' ?k) (onVNode a (VNodeDeleteKnownPod ?k) s)"]
      enqueue_owed [of "onVNode a (VNodeDeleteKnownPod ?k) s" a o'] ok gone by simp
  with t sameSync_owed [OF t(1)] assms(1)
  show "\<exists>s'. podDeleteHandler o' pod s = Returns s' \<and> syncOwed s' = owedAfter o' led a pod s"
    by (auto simp: podDeleteHandler_def Let_def owedAfter_def fun_eq_iff)
qed

section \<open>The store in every reachable state\<close>

text \<open>C11. In every state that the controller reaches from its construction, whatever came in which order, the
  store is in order: the node found under a name bears that name, no two names share a node, and its
  address is not one that a later node can get. And all settings stay as the constructor completed them:
  those of the configuration, but for a cluster without a number of workload levels, which gets three,
  and a missing number of workers, which becomes one.\<close>

theorem reachable_store_consistent:
  assumes "NewVNodeController h (Some cfg) = Ok c0" "vcStep\<^sup>*\<^sup>* (c0, x0) (c, x)"
  shows "(clientID c, vc_env c, vPodType c, isCluster c, pseudoNodeIP c) =
      (cc_ClientID cfg, cc_Env cfg, cc_VPodType cfg, cc_IsCluster cfg, cc_PseudoNodeIP cfg) \<and>
    workloadMaxLevel c = (if cc_IsCluster cfg \<and> cc_WorkloadMaxLevel cfg = 0 then 3 else cc_WorkloadMaxLevel cfg) \<and>
    vNodeWorkerNum c = (if cc_VNodeWorkerNum cfg = 0 then 1 else cc_VNodeWorkerNum cfg) \<and>
    (case GetVNode (vNodeStore c) n of
       None \<Rightarrow> True
     | Some a \<Rightarrow> vn_name (vnHeap (vNodeStore c) a) = n \<and>
         {m. GetVNode (vNodeStore c) m = Some a} = {n} \<and> a < vnFresh (vNodeStore c))"
proof -
  have keeps: "vcKeeps (c0, x0) (c, x)" using assms(2)
    by (induction rule: rtranclp_induct) (auto intro: vcKeeps_trans vcKeeps_step)
  have "store_ok (vNodeStore c0)" using vcReachable_ok [OF vcInit [OF assms(1)]] by simp
  with keeps have "store_ok (vNodeStore c)" by (simp add: vcKeeps_def storeKeeps_def)
  moreover have "settings c = settings c0" using keeps by (simp add: vcKeeps_def)
  ultimately show ?thesis using assms(1)
    by (auto simp: store_ok_def NewVNodeController_def settings_def Let_def split: option.split if_splits)
qed

section \<open>Discovering a base\<close>

text \<open>The controller with a new node at the next address.\<close>

definition withNode :: "string \<Rightarrow> ('r, 'x) VNode \<Rightarrow> ('r, 'x) VNodeController \<Rightarrow> ('r, 'x) VNodeController" where
  "withNode n v c = c\<lparr>vNodeStore := (vNodeStore c)
     \<lparr>vnHeap := (vnHeap (vNodeStore c))(vnFresh (vNodeStore c) := v), vnFresh := Suc (vnFresh (vNodeStore c)),
      nodeNameToVNode := (nodeNameToVNode (vNodeStore c))(n \<mapsto> vnFresh (vNodeStore c))\<rparr>\<rparr>"

lemma withNode_simps [simp]:
  "nodeNameToVNode (vNodeStore (withNode n v c)) = (nodeNameToVNode (vNodeStore c))(n \<mapsto> vnFresh (vNodeStore c))"
  "vnHeap (vNodeStore (withNode n v c)) = (vnHeap (vNodeStore c))(vnFresh (vNodeStore c) := v)"
  by (simp_all add: withNode_def)

lemma createVNode_ok:
  fixes c :: "('r, 'x) VNodeController"
  assumes "m_Name (Metadata d) \<noteq> ''''" "GetVNode (vNodeStore c) (m_Name (Metadata d)) = None"
  shows "\<exists>v. createVNode b d c = Ok (vnFresh (vNodeStore c), withNode (m_Name (Metadata d)) v c) \<and> lease v = None"
proof -
  obtain v :: "('r, 'x) VNode" and cm
    where v: "NewVNode (MustParse b) (platform b) (numCPU b) (dfltLimiter b) (vnodeConfig c d) = Ok (v, cm)"
      and fresh: "lease v = None"
    using NewVNode_ok [of "vnodeConfig c d" "MustParse b" "platform b" "numCPU b" "dfltLimiter b"] assms(1)
    by (auto simp: vnodeConfig_def)
  have "createVNode b d c = Ok (vnFresh (vNodeStore c), withNode (m_Name (Metadata d)) v c)"
    using assms(2) by (simp add: createVNode_def v Let_def allocVNode_def AddVNode_def GetVNode_def withNode_def)
  with fresh show ?thesis by blast
qed

lemma UpdateNodeState_activated:
  assumes "nodeNameToVNode r n = Some a"
  shows "UpdateNodeStateOnProviderArrived now n NodeStateActivated r =
    setVNode a ((vnHeap r a)\<lparr>liveness := UpdateHeartBeatTime now (liveness (vnHeap r a))\<rparr>) r"
  using assms by (simp add: UpdateNodeStateOnProviderArrived_def Let_def)

text \<open>The controller and the address after a report: the old node, or a new one.\<close>

lemma startVNode_cases:
  assumes "m_Name (Metadata d) \<noteq> ''''"
  obtains (Old) a where "GetVNode (vNodeStore c) (m_Name (Metadata d)) = Some a" "startVNode b d c = Returns (None, c)"
  | (New) v where "GetVNode (vNodeStore c) (m_Name (Metadata d)) = None" "lease v = None"
      "startVNode b d c = Returns (Some (vnFresh (vNodeStore c)), withNode (m_Name (Metadata d)) v c)"
proof (cases "GetVNode (vNodeStore c) (m_Name (Metadata d))")
  case None
  with createVNode_ok [OF assms None, of b] New show ?thesis by (auto simp: startVNode_def createAndRunVNode_def)
next
  case (Some a)
  with Old show ?thesis by (simp add: startVNode_def)
qed

text \<open>C20. A base that reports itself as activated gets exactly one node: after the report the store has
  a node under its name, the same one as before if there was one and else a new one without a
  lease, every other node is untouched, and the node counts as alive from that moment on. A report
  of a base that has a node changes nothing of the controller but the heartbeat of that node.\<close>

theorem discovered_base_gets_one_node:
  assumes "State data = NodeStateActivated" "m_Name (Metadata data) \<noteq> ''''" "store_ok (vNodeStore c)"
  shows "\<exists>c' a. onBaseDiscovered o' b data (c, x) = Returns (c', x) \<and> store_ok (vNodeStore c') \<and>
    GetVNode (vNodeStore c') = (GetVNode (vNodeStore c))(m_Name (Metadata data) \<mapsto> a) \<and>
    \<not> IsDead (oNow o' x) (liveness (vnHeap (vNodeStore c') a)) \<and>
    (case GetVNode (vNodeStore c) (m_Name (Metadata data)) of
       Some a' \<Rightarrow> a = a' \<and> c' = c\<lparr>vNodeStore := setVNode a ((vnHeap (vNodeStore c) a)
           \<lparr>liveness := UpdateHeartBeatTime (oNow o' x) (liveness (vnHeap (vNodeStore c) a))\<rparr>) (vNodeStore c)\<rparr>
     | None \<Rightarrow> a = vnFresh (vNodeStore c) \<and> lease (vnHeap (vNodeStore c') a) = None) \<and>
    (\<forall>a'. a' \<noteq> a \<longrightarrow> vnHeap (vNodeStore c') a' = vnHeap (vNodeStore c) a')"
proof -
  let ?n = "m_Name (Metadata data)" and ?now = "oNow o' x"
  have alive: "\<not> IsDead ?now (UpdateHeartBeatTime ?now l)" for l
    by (simp add: IsDead_def UpdateHeartBeatTime_def const_defs go_defs)
  have report: "onBaseDiscovered o' b data (c, x) =
      Returns (c1\<lparr>vNodeStore := setVNode a (v\<lparr>liveness := UpdateHeartBeatTime ?now (liveness v)\<rparr>) (vNodeStore c1)\<rparr>, x)"
    if "startVNode b data c = Returns (r, c1)" "nodeNameToVNode (vNodeStore c1) ?n = Some a"
      "v = vnHeap (vNodeStore c1) a" for r c1 a v
    using that assms(1) by (simp add: onBaseDiscovered_def onStore_def UpdateNodeState_activated)
  have ok: "store_ok (vNodeStore c')" if "onBaseDiscovered o' b data (c, x) = Returns (c', x)" for c'
    using vcKeeps_discovered [OF that] assms(3) by (simp add: vcKeeps_def storeKeeps_def)
  from assms(2) show ?thesis
  proof (cases rule: startVNode_cases [of data c b])
    case (Old a)
    note fin = report [OF Old(2) Old(1) [unfolded GetVNode_def] refl]
    show ?thesis
      by (rule exI, rule exI [of _ a], rule conjI [OF fin], rule conjI [OF ok [OF fin]])
        (use Old alive in \<open>simp add: setVNode_def GetVNode_def fun_eq_iff\<close>)
  next
    case (New v)
    have "nodeNameToVNode (vNodeStore (withNode ?n v c)) ?n = Some (vnFresh (vNodeStore c))" by simp
    note fin = report [OF New(3) this refl]
    show ?thesis
      by (rule exI, rule exI [of _ "vnFresh (vNodeStore c)"], rule conjI [OF fin], rule conjI [OF ok [OF fin]])
        (use New alive in \<open>simp add: setVNode_def GetVNode_def fun_eq_iff\<close>)
  qed
qed

section \<open>A dead node\<close>

text \<open>A call to the API server that did what it should, or found the object gone.\<close>

definition goneOrDone :: "goerror option \<Rightarrow> bool" where
  "goneOrDone err \<longleftrightarrow> (case err of None \<Rightarrow> True | Some e \<Rightarrow> IsNotFound e)"

lemma Remove_calls:
  "snd (Remove env v x) =
     (case deleteNode env (vn_name v) x of (e1, x1) \<Rightarrow>
        if goneOrDone e1
        then (case getNode env (vn_name v) x1 of (e2, x2) \<Rightarrow>
                if goneOrDone e2 then snd (deleteLease env (lease v) x2) else x2)
        else x1)"
  by (auto simp: Remove_def goneOrDone_def split: prod.split option.split)

text \<open>C14. A base that fell silent leaves completely: when the periodic check finds the node of a name
  dead, the node's exit is signalled; its watcher then unregisters it from the tunnel, makes it not
  ready and done; and the removal that this triggers takes exactly this name out of the store, so that
  it is free for a new node, and calls the API server: it deletes the node, looks for it, and deletes
  the lease that the node remembers, in this order. The first call that fails with another error than
  that the object is not there ends the removal: the lease then stays.\<close>

theorem dead_node_is_removed:
  fixes s :: "('r, 'x) vcState"
  assumes "store_ok (vNodeStore (fst s))" "GetVNode (vNodeStore (fst s)) n = Some a"
    "IsDead (oNow o' (snd s)) (liveness (nodeAt s a))"
  shows "let s1 = checkDead o' a s; s2 = onVNode a (exitWatcher renv (exitClosed (nodeAt s1 a))) s1;
             s3 = deleteVNode env a s2
    in doneClosed (nodeAt s2 a) \<and> \<not> IsReady (nodeAt s2 a) \<and>
       GetVNode (vNodeStore (fst s3)) = (GetVNode (vNodeStore (fst s)))(n := None) \<and>
       snd s3 =
         (case deleteNode env n (UnRegisterNode renv n (snd s)) of (e1, x1) \<Rightarrow>
            if goneOrDone e1
            then (case getNode env n x1 of (e2, x2) \<Rightarrow>
                    if goneOrDone e2 then snd (deleteLease env (lease (nodeAt s a)) x2) else x2)
            else x1)"
proof -
  obtain c x where s: "s = (c, x)" by (cases s)
  have name: "vn_name (vnHeap (vNodeStore c) a) = n" and get: "nodeNameToVNode (vNodeStore c) n = Some a"
    using assms(1,2) by (auto simp: s store_ok_def GetVNode_def)
  let ?v = "vnHeap (vNodeStore c) a"
  let ?v1 = "Shutdown (?v\<lparr>liveness := Close (oNow o' x) (liveness ?v)\<rparr>)"
  have s1: "checkDead o' a (c, x) = (c\<lparr>vNodeStore := setVNode a ?v1 (vNodeStore c)\<rparr>, x)"
    using assms(3) name get
    by (simp add: s checkDead_def shutdownVNode_def onStore_def NodeShutdown_def GetNodeName_def Let_def)
  have exit: "exitClosed ?v1" by (simp add: Shutdown_def)
  have v1: "vn_name ?v1 = n" by (simp add: name)
  let ?v2 = "ToDone (resetActivationStatus ?v1)"
  have v2: "doneClosed ?v2" "\<not> IsReady ?v2" "GetNodeName ?v2 = n" "vn_name ?v2 = n" "lease ?v2 = lease ?v"
    using v1 by (simp_all add: ToDone_def resetActivationStatus_def IsReady_def GetNodeName_def Shutdown_def)
  have s2: "onVNode a (exitWatcher renv True) (checkDead o' a (c, x)) =
      (c\<lparr>vNodeStore := setVNode a ?v2 (setVNode a ?v1 (vNodeStore c))\<rparr>, UnRegisterNode renv n x)"
    using v1 by (simp add: s1 onVNode_def exitWatcher_def cleanUp_def setVNode_def)
  have removal: "snd (Remove env w y) =
      (case deleteNode env n y of (e1, x1) \<Rightarrow>
         if goneOrDone e1
         then (case getNode env n x1 of (e2, x2) \<Rightarrow>
                 if goneOrDone e2 then snd (deleteLease env (lease ?v) x2) else x2)
         else x1)" if "vn_name w = n" "lease w = lease ?v" for w :: "('r, 'x) VNode" and y
    using Remove_calls [of env w y] unfolding that .
  have "exitClosed (nodeAt (checkDead o' a (c, x)) a)" by (simp add: s1 setVNode_def exit)
  then show ?thesis
    unfolding s Let_def fst_conv snd_conv using v2
    by (simp add: s2 setVNode_def deleteVNode_def Let_def DeleteVNode_def GetVNode_def removal fun_eq_iff)
qed

section \<open>Workload\<close>

lemma quotient_less: "0 < b \<Longrightarrow> a < c * b \<Longrightarrow> a div b < (c :: int)"
proof (rule ccontr)
  assume b: "0 < b" and a: "a < c * b" and "\<not> a div b < c"
  then have "c * b \<le> a div b * b" by (intro mult_right_mono) simp_all
  moreover have "a div b * b \<le> a"
    using div_mult_mod_eq [of a b] pos_mod_sign [OF b, of a] by linarith
  ultimately show False using a by simp
qed

lemma truncDiv_nonneg: "0 \<le> a \<Longrightarrow> 0 < b \<Longrightarrow> truncDiv a b = a div b"
  by (cases "a = 0") (simp_all add: truncDiv_def)

lemma namesWhere_split:
  "length (namesWhere P order r) + length (namesWhere (\<lambda>v. \<not> P v) order r) =
     length (filter (\<lambda>n. nodeNameToVNode r n \<noteq> None) order)"
  unfolding namesWhere_def by (induction order) (auto split: option.split)

lemma running_dead_all:
  assumes "range_order (nodeNameToVNode r) order"
  shows "RunningNodeNum now order r + length (GetDeadVNodes now order r) = AllNodeNum r"
proof -
  have "filter (\<lambda>n. nodeNameToVNode r n \<noteq> None) order = order"
    using assms by (auto simp: range_order_def dom_def)
  moreover have "length order = AllNodeNum r"
    using assms by (auto simp: range_order_def AllNodeNum_def map_len_def distinct_card [symmetric])
  ultimately show ?thesis
    using namesWhere_split [of "\<lambda>v. \<not> IsDead now (liveness v)" order r]
    by (simp add: RunningNodeNum_def GetDeadVNodes_def)
qed

text \<open>C37. The nodes of the store are either running or dead, a dead node is never reachable, and, as
  long as the numbers fit into 64 bits (that of the nodes times that of the levels, and a tenth of a
  second per level in nanoseconds), the workload level of a cluster with at least one level stays
  between 0 and below that number, and the delay computed from it below a tenth of a second per level.
  Of the repository only the tests ask for the level and the delay.\<close>

theorem workload_bounds:
  assumes "range_order (nodeNameToVNode (vNodeStore c)) order" "0 < workloadMaxLevel c"
    "int (AllNodeNum (vNodeStore c)) * workloadMaxLevel c < 2 ^ 63"
    "100 * millisecond * workloadMaxLevel c < 2 ^ 63"
  shows "RunningNodeNum now order (vNodeStore c) + length (GetDeadVNodes now order (vNodeStore c)) =
      AllNodeNum (vNodeStore c) \<and>
    set (GetDeadVNodes now order (vNodeStore c)) \<subseteq> set (GetUnReachableVNodes now order (vNodeStore c)) \<and>
    workloadLevel now order c \<in> {0..<workloadMaxLevel c} \<and>
    delayWithWorkload now order c \<in> {0..<100 * millisecond * workloadMaxLevel c}"
proof -
  let ?r = "vNodeStore c"
  have all: "RunningNodeNum now order ?r + length (GetDeadVNodes now order ?r) = AllNodeNum ?r"
    by (rule running_dead_all [OF assms(1)])
  have dead: "set (GetDeadVNodes now order ?r) \<subseteq> set (GetUnReachableVNodes now order ?r)"
    by (auto simp: GetDeadVNodes_def GetUnReachableVNodes_def namesWhere_def dest: IsReachable_not_dead
        split: option.splits)
  have fits: "wrap64 d = d" if "0 \<le> d" "d < 2 ^ 63" for d
    using that by (simp add: wrap64_def signed_take_bit_int_eq_self)
  have level: "0 \<le> workloadLevel now order c \<and> workloadLevel now order c < workloadMaxLevel c"
  proof (cases "AllNodeNum ?r = 0")
    case True
    with assms(2) show ?thesis by (simp add: workloadLevel_def)
  next
    case False
    let ?p = "int (RunningNodeNum now order ?r) * workloadMaxLevel c"
    have le: "?p \<le> int (AllNodeNum ?r) * workloadMaxLevel c"
      using all assms(2) by (intro mult_right_mono) simp_all
    have "?p < workloadMaxLevel c * (int (AllNodeNum ?r) + 1)"
      using le assms(2) unfolding distrib_left mult_1_right mult.commute [of "workloadMaxLevel c"] by linarith
    then have "?p div (int (AllNodeNum ?r) + 1) < workloadMaxLevel c" by (intro quotient_less) simp_all
    moreover have "0 \<le> ?p" using assms(2) by simp
    moreover from this have "wrap64 ?p = ?p" by (rule fits) (use assms(2,3) le in linarith)+
    ultimately show ?thesis
      using False by (simp add: workloadLevel_def truncDiv_nonneg pos_imp_zdiv_nonneg_iff)
  qed
  moreover from level have "wrap64 (100 * millisecond * workloadLevel now order c) = 100 * millisecond * workloadLevel now order c"
    by (intro fits) (use assms(4) in \<open>simp_all add: millisecond_def\<close>)
  ultimately have "delayWithWorkload now order c \<in> {0..<100 * millisecond * workloadMaxLevel c}"
    using assms(2) by (simp add: delayWithWorkload_def millisecond_def)
  with all dead level show ?thesis by simp
qed

section \<open>Concrete states\<close>

text \<open>A controller that leads one node, and the outside that a quiet cluster gives.\<close>

definition demoController :: "(unit, 'x) VNodeController" where
  "demoController = \<lparr>clientID = ''a'', vc_env = ''test'', vPodType = ''module'', isCluster = True,
     workloadMaxLevel = 3, vNodeWorkerNum = 1, pseudoNodeIP = [],
     vNodeStore = \<lparr>nodeNameToVNode = [''vnode.a.test'' \<mapsto> 0],
       vnHeap = (\<lambda>_. demoVNode\<lparr>readyClosed := True,
         lease := Some (NewLease (GoTime 1) ''a'' (demoVNode :: (unit, unit) VNode)),
         liveness := \<lparr>isClose = False, LatestHeartBeatTime = GoTime 1\<rparr>\<rparr>), vnFresh = 1\<rparr>\<rparr>"

lemma demoController_ok: "store_ok (vNodeStore demoController)"
  by (simp add: store_ok_def demoController_def GetVNode_def)

lemma pod_events_are_owed_witness:
  "\<exists>s s'. vcReachable s \<and>
     podAddHandler demoOutside (samplePod\<lparr>NodeName := ''vnode.b.test''\<rparr>) s = Returns s' \<and>
     syncOwed s' 0 = {''default/p''}"
proof -
  let ?pod = "samplePod\<lparr>NodeName := ''vnode.b.test''\<rparr>"
  obtain s :: "(unit, unit) vcState" where s: "vcReachable s" "demoLed s" using demoLed_reachable by blast
  have at: "GetVNodeByNodeName (vNodeStore (fst s)) (NodeName ?pod) = Some 0"
    using s(2) by (simp add: demoLed_def GetVNodeByNodeName_def GetVNode_def)
  have led: "IsLeader (clientID (fst s)) (oNow demoOutside (snd s)) (nodeAt s 0) = Ok True"
    using s(2) by (simp add: demoLed_def Let_def)
  have "\<not> IsZero (oNow demoOutside (snd s))" by (simp add: go_defs)
  then obtain s' where s': "podAddHandler demoOutside ?pod s = Returns s'"
    "syncOwed s' = owedAfter demoOutside True 0 ?pod s"
    using pod_events_are_owed [OF at s(1) _ led] by blast
  have "mayAct demoOutside s 0" "syncOwed s 0 = {}"
    using s(2) by (simp_all add: mayAct_def demoLed_def Let_def syncOwed_def owed_def New_def absQueue_def)
  moreover have "GetPodKey (Some ?pod) = ''default/p''"
    using sample_pod(1) by (simp add: GetPodKey_def)
  ultimately have "syncOwed s' 0 = {''default/p''}" by (simp add: s'(2) owedAfter_def)
  with s(1) s'(1) show ?thesis by blast
qed

lemma discovered_base_gets_one_node_witness:
  "\<exists>c'. onBaseDiscovered demoOutside demoBuild demoInfo (demoController, ()) = Returns (c', ()) \<and>
     GetVNode (vNodeStore c') = [''vnode.a.test'' \<mapsto> 0, ''vnode.b.test'' \<mapsto> 1]"
proof -
  have "State demoInfo = NodeStateActivated" "m_Name (Metadata demoInfo) = ''vnode.b.test''"
    by (simp_all add: demoInfo_def)
  moreover from this(2) have "m_Name (Metadata demoInfo) \<noteq> []" by simp
  moreover have "GetVNode (vNodeStore (demoController :: (unit, unit) VNodeController)) ''vnode.b.test'' = None"
    "GetVNode (vNodeStore (demoController :: (unit, unit) VNodeController)) = [''vnode.a.test'' \<mapsto> 0]"
    "vnFresh (vNodeStore (demoController :: (unit, unit) VNodeController)) = 1"
    by (simp_all add: demoController_def GetVNode_def fun_eq_iff)
  ultimately show ?thesis
    using discovered_base_gets_one_node [of demoInfo demoController demoOutside demoBuild "()", OF _ _ demoController_ok]
    by auto
qed

lemma reachable_store_consistent_witness:
  "\<exists>c' c. NewVNodeController (\<lambda>_. demoVNode)
       (Some \<lparr>cc_ClientID = ''a'', cc_Env = ''test'', cc_VPodType = ''module'', cc_IsCluster = True,
              cc_WorkloadMaxLevel = 0, cc_VNodeWorkerNum = 0, cc_PseudoNodeIP = []\<rparr>) = Ok c \<and>
     onBaseDiscovered demoOutside demoBuild demoInfo (c, ()) = Returns (c', ()) \<and>
     vNodeWorkerNum c' = 1 \<and> workloadMaxLevel c' = 3 \<and> GetVNode (vNodeStore c') ''vnode.b.test'' = Some 0 \<and>
     vn_name (vnHeap (vNodeStore c') 0) = ''vnode.b.test''"
proof -
  obtain c :: "(unit, unit) VNodeController" where c: "NewVNodeController (\<lambda>_. demoVNode)
       (Some \<lparr>cc_ClientID = ''a'', cc_Env = ''test'', cc_VPodType = ''module'', cc_IsCluster = True,
              cc_WorkloadMaxLevel = 0, cc_VNodeWorkerNum = 0, cc_PseudoNodeIP = []\<rparr>) = Ok c"
    and new: "vNodeStore c = NewVNodeStore (\<lambda>_. demoVNode)"
    by (simp add: NewVNodeController_def Let_def)
  have info: "State demoInfo = NodeStateActivated" "m_Name (Metadata demoInfo) = ''vnode.b.test''"
    "m_Name (Metadata demoInfo) \<noteq> []"
    by (simp_all add: demoInfo_def)
  obtain v where v: "startVNode demoBuild demoInfo c = Returns (Some 0, withNode ''vnode.b.test'' v c)"
    by (rule startVNode_cases [OF info(3), of c demoBuild])
      (simp_all add: new NewVNodeStore_def GetVNode_def info(2))
  let ?c = "fst (onStore (UpdateNodeStateOnProviderArrived (GoTime 1) ''vnode.b.test'' NodeStateActivated)
      (withNode ''vnode.b.test'' v c, ()))"
  have run: "onBaseDiscovered demoOutside demoBuild demoInfo (c, ()) = Returns (?c, ())"
    using v info by (simp add: onBaseDiscovered_def onStore_def)
  have "GetVNode (vNodeStore ?c) ''vnode.b.test'' = Some 0"
    by (simp add: onStore_def UpdateNodeState_activated GetVNode_def setVNode_def new NewVNodeStore_def)
  with reachable_store_consistent [OF c r_into_rtranclp [of vcStep, OF Discovered [OF run]], of "''vnode.b.test''"] c run
  show ?thesis by (intro exI [of _ ?c] exI [of _ c]) simp
qed

text \<open>A cluster whose API server records which calls it got.\<close>

datatype removalCall = DNode string | GNode string | DLease "Lease option"

lemma dead_node_is_removed_witness:
  "let s = (demoController\<lparr>vNodeStore := NodeShutdown (GoTime 1) ''vnode.a.test'' (vNodeStore demoController)\<rparr>, []);
       s1 = checkDead (quietOutside (Inl (ErrAPI NotFound))) 0 s;
       s2 = onVNode 0 (exitWatcher \<lparr>runNode = Some, nodeReady = WaitReady', nodeError = None, cacheHasNode = (\<lambda>_ x. (None, x)),
              pollsEnd = (\<lambda>_. False), RegisterNode = (\<lambda>_ x. (None, x)), UnRegisterNode = (\<lambda>_ x. x),
              listPods = (\<lambda>_ _ x. (Inr [], x))\<rparr> (exitClosed (nodeAt s1 0))) s1
    in snd (deleteVNode \<lparr>deleteNode = (\<lambda>n x. (None, x @ [DNode n])), getNode = (\<lambda>n x. (None, x @ [GNode n])),
         deleteLease = (\<lambda>l x. (None, x @ [DLease l]))\<rparr> 0 s2) =
       [DNode ''vnode.a.test'', GNode ''vnode.a.test'', DLease (lease (nodeAt s 0))]"
proof -
  let ?s = "(demoController\<lparr>vNodeStore := NodeShutdown (GoTime 1) ''vnode.a.test'' (vNodeStore demoController)\<rparr>, [])"
  have "store_ok (vNodeStore (fst ?s))"
    by (simp add: demoController_ok)
  moreover have "GetVNode (vNodeStore (fst ?s)) ''vnode.a.test'' = Some 0"
    "IsDead (oNow (quietOutside (Inl (ErrAPI NotFound))) (snd ?s)) (liveness (nodeAt ?s 0))"
    by (simp_all add: quietOutside_def demoController_def NodeShutdown_def GetVNode_def setVNode_def Shutdown_def Let_def
        Close_def IsDead_def)
  ultimately show ?thesis
    unfolding Let_def by (subst dead_node_is_removed [unfolded Let_def, THEN conjunct2, THEN conjunct2, THEN conjunct2])
      (simp_all add: goneOrDone_def)
qed

lemma workload_bounds_witness:
  "workloadLevel (GoTime 1) [''vnode.a.test''] (demoController :: (unit, unit) VNodeController) \<in> {0..<3}"
proof -
  let ?c = "demoController :: (unit, unit) VNodeController"
  have "nodeNameToVNode (vNodeStore ?c) = [''vnode.a.test'' \<mapsto> 0]" "workloadMaxLevel ?c = 3"
    by (simp_all add: demoController_def)
  then have "range_order (nodeNameToVNode (vNodeStore ?c)) [''vnode.a.test'']"
    "int (AllNodeNum (vNodeStore ?c)) * workloadMaxLevel ?c < 2 ^ 63"
    "100 * millisecond * workloadMaxLevel ?c < 2 ^ 63" "0 < workloadMaxLevel ?c" "workloadMaxLevel ?c = 3"
    by (simp_all add: range_order_def AllNodeNum_def map_len_def millisecond_def)
  with workload_bounds [of ?c "[''vnode.a.test'']" "GoTime 1"] show ?thesis by simp
qed

section \<open>Start-up\<close>

lemma map_le_get: "m \<subseteq>\<^sub>m m' \<Longrightarrow> m a = Some v \<Longrightarrow> m' a = Some v"
  by (force simp: map_le_def)

lemma startVNode_nameless:
  assumes "m_Name (Metadata d) = []"
  shows "startVNode b d c = Returns (None, c)"
  using assms
  by (simp add: startVNode_def createAndRunVNode_def createVNode_def NewVNode_def vnodeConfig_def
      split: option.split)

lemma startVNode_gets:
  "\<exists>r c'. startVNode b d c = Returns (r, c') \<and>
     (m_Name (Metadata d) \<noteq> [] \<longrightarrow> GetVNode (vNodeStore c') (m_Name (Metadata d)) \<noteq> None) \<and>
     GetVNode (vNodeStore c) \<subseteq>\<^sub>m GetVNode (vNodeStore c')"
proof (cases "m_Name (Metadata d) = []")
  case True
  then show ?thesis by (simp add: startVNode_nameless)
next
  case False
  then show ?thesis
  proof (cases rule: startVNode_cases [of d c b])
    case (Old a)
    then show ?thesis by simp
  next
    case (New v)
    then show ?thesis by (auto simp: GetVNode_def map_le_def)
  qed
qed

lemma startAll_gets:
  "\<exists>c'. startAll b ds c = Returns c' \<and> GetVNode (vNodeStore c) \<subseteq>\<^sub>m GetVNode (vNodeStore c') \<and>
     list_all (\<lambda>d. m_Name (Metadata d) \<noteq> [] \<longrightarrow> GetVNode (vNodeStore c') (m_Name (Metadata d)) \<noteq> None) ds"
proof (induction ds arbitrary: c)
  case (Cons d ds)
  obtain r c1 where 1: "startVNode b d c = Returns (r, c1)"
    "m_Name (Metadata d) \<noteq> [] \<longrightarrow> GetVNode (vNodeStore c1) (m_Name (Metadata d)) \<noteq> None"
    "GetVNode (vNodeStore c) \<subseteq>\<^sub>m GetVNode (vNodeStore c1)"
    using startVNode_gets by blast
  obtain c' where 2: "startAll b ds c1 = Returns c'" "GetVNode (vNodeStore c1) \<subseteq>\<^sub>m GetVNode (vNodeStore c')"
    "list_all (\<lambda>d. m_Name (Metadata d) \<noteq> [] \<longrightarrow> GetVNode (vNodeStore c') (m_Name (Metadata d)) \<noteq> None) ds"
    using Cons.IH by blast
  have "m_Name (Metadata d) \<noteq> [] \<longrightarrow> GetVNode (vNodeStore c') (m_Name (Metadata d)) \<noteq> None"
    using 1(2) 2(2) by (auto dest: map_le_get)
  with 1 2 map_le_trans [OF 1(3) 2(2)] show ?case by simp
qed simp

lemma poll_returns: "timedOut k \<Longrightarrow> \<exists>r x'. CheckAndFinallyCall check timedOut Some (\<lambda>x. x) 0 x = Some (r, x')"
  using CheckAndFinallyCall_ends [of 0 k timedOut check Some "\<lambda>x. x" x] by auto

text \<open>Of the nodes that a start-up adds, each was listed.\<close>

lemma startVNode_only:
  assumes "startVNode b d c = Returns (r, c')"
  shows "dom (GetVNode (vNodeStore c')) \<subseteq> dom (GetVNode (vNodeStore c)) \<union> ({m_Name (Metadata d)} - {[]})"
proof (cases "m_Name (Metadata d) = []")
  case True
  with assms show ?thesis by (auto simp: startVNode_nameless)
next
  case False
  then show ?thesis
    by (cases rule: startVNode_cases [of d c b]) (use assms False in \<open>auto simp: GetVNode_def split: if_splits\<close>)
qed

lemma startAll_only:
  "startAll b ds c = Returns c' \<Longrightarrow>
   dom (GetVNode (vNodeStore c')) \<subseteq> dom (GetVNode (vNodeStore c)) \<union> ((\<lambda>d. m_Name (Metadata d)) ` set ds - {[]})"
proof (induction ds arbitrary: c)
  case (Cons d ds)
  obtain r c1 where 1: "startVNode b d c = Returns (r, c1)" "startAll b ds c1 = Returns c'"
    using Cons.prems by (auto split: run.splits)
  from Cons.IH [OF 1(2)] startVNode_only [OF 1(1)] show ?case by auto
qed simp

text \<open>C18. After a restart every node of this environment is looked after again. The start-up waits for the
  tunnel until it is ready or a minute is over, and goes on either way. If the cache is not in sync
  then, or the nodes cannot be listed, nothing is started and the ready channel is not closed; if both
  succeed, the start-up neither panics nor hangs, the ready channel is closed, the nodes there were
  keep their virtual nodes, and besides them exactly the listed nodes that have a name have one. While
  the channel is open, every creation, update and deletion of a pod that passes the predicate waits,
  which is for ever if the start-up gave up; once it is closed, each one runs its handler.\<close>

theorem restart_recovers_nodes:
  fixes c :: "('r, 'x) VNodeController" and o' :: "('r, 'x) outside"
  assumes polls: "tunnelPollsEnd env k"
  shows "(\<exists>r x1. CheckAndFinallyCall (\<lambda>x. case tunnelReady env x of (r, x) \<Rightarrow> ((r, None), x))
      (tunnelPollsEnd env) Some (\<lambda>x. x) 0 x = Some (r, x1) \<and>
    (case WaitForCacheSync env x1 of
       (False, x2) \<Rightarrow> startUp env b (c, x) = Returns (False, c, x2)
     | (True, x2) \<Rightarrow>
         (case listNodes env ComponentVNode (vc_env c) x2 of
            (Inl err, x3) \<Rightarrow> startUp env b (c, x) = Returns (False, c, x3)
          | (Inr nodes, x3) \<Rightarrow> (\<exists>c'. startUp env b (c, x) = Returns (True, c', x3) \<and>
              GetVNode (vNodeStore c) \<subseteq>\<^sub>m GetVNode (vNodeStore c') \<and>
              dom (GetVNode (vNodeStore c')) = dom (GetVNode (vNodeStore c)) \<union> (n_Name ` set nodes - {[]}))))) \<and>
    (\<forall>Matches vcReady e s. podHandler Matches vcReady o' e s =
      (if \<not> VPodPredicate Matches e then Returns s
       else case e of
         Created pod \<Rightarrow> if vcReady then podAddHandler o' pod s else Diverges
       | Updated old pod \<Rightarrow> if vcReady then podUpdateHandler o' old pod s else Diverges
       | Deleted pod \<Rightarrow> if vcReady then podDeleteHandler o' pod s else Diverges
       | Generic pod \<Rightarrow> Returns s))"
proof
  obtain r x1 where poll: "CheckAndFinallyCall (\<lambda>x. case tunnelReady env x of (r, x) \<Rightarrow> ((r, None), x))
      (tunnelPollsEnd env) Some (\<lambda>x. x) 0 x = Some (r, x1)"
    using poll_returns [of "tunnelPollsEnd env", OF polls, where x = x
        and check = "\<lambda>x. case tunnelReady env x of (r, x) \<Rightarrow> ((r, None), x)"] by blast
  obtain synced x2 where sync: "WaitForCacheSync env x1 = (synced, x2)" by fastforce
  obtain q x3 where list: "listNodes env ComponentVNode (vc_env c) x2 = (q, x3)" by fastforce
  have started: "\<exists>c'. startUp env b (c, x) = Returns (True, c', x3) \<and>
      GetVNode (vNodeStore c) \<subseteq>\<^sub>m GetVNode (vNodeStore c') \<and>
      dom (GetVNode (vNodeStore c')) = dom (GetVNode (vNodeStore c)) \<union> (n_Name ` set nodes - {[]})"
    if "synced" "q = Inr nodes" for nodes
  proof -
    have name: "m_Name (Metadata (ConvertNodeToNodeInfo n)) = n_Name n" for n
      by (simp add: ConvertNodeToNodeInfo_def split: prod.split)
    obtain c' where c': "startAll b (map ConvertNodeToNodeInfo nodes) c = Returns c'"
      "GetVNode (vNodeStore c) \<subseteq>\<^sub>m GetVNode (vNodeStore c')"
      "list_all (\<lambda>d. m_Name (Metadata d) \<noteq> [] \<longrightarrow> GetVNode (vNodeStore c') (m_Name (Metadata d)) \<noteq> None)
         (map ConvertNodeToNodeInfo nodes)"
      using startAll_gets by blast
    have "n_Name ` set nodes - {[]} \<subseteq> dom (GetVNode (vNodeStore c'))"
      using c'(3) by (auto simp: list_all_iff name)
    moreover have "dom (GetVNode (vNodeStore c')) \<subseteq> dom (GetVNode (vNodeStore c)) \<union> (n_Name ` set nodes - {[]})"
      using startAll_only [OF c'(1)] by (simp add: image_image name)
    moreover have "dom (GetVNode (vNodeStore c)) \<subseteq> dom (GetVNode (vNodeStore c'))"
      using c'(2) by (rule map_le_implies_dom_le)
    moreover have "startUp env b (c, x) = Returns (True, c', x3)"
      using that c'(1) by (simp add: startUp_def poll sync list discoverPreviousNodes_def)
    ultimately show ?thesis using c'(2) by (intro exI [of _ c'] conjI equalityI) simp_all
  qed
  have "case WaitForCacheSync env x1 of
       (False, x2) \<Rightarrow> startUp env b (c, x) = Returns (False, c, x2)
     | (True, x2) \<Rightarrow>
         (case listNodes env ComponentVNode (vc_env c) x2 of
            (Inl err, x3) \<Rightarrow> startUp env b (c, x) = Returns (False, c, x3)
          | (Inr nodes, x3) \<Rightarrow> (\<exists>c'. startUp env b (c, x) = Returns (True, c', x3) \<and>
              GetVNode (vNodeStore c) \<subseteq>\<^sub>m GetVNode (vNodeStore c') \<and>
              dom (GetVNode (vNodeStore c')) = dom (GetVNode (vNodeStore c)) \<union> (n_Name ` set nodes - {[]})))"
  proof (cases synced)
    case True
    show ?thesis
    proof (cases q)
      case (Inl err)
      with True show ?thesis by (simp add: startUp_def poll sync list)
    next
      case (Inr nodes)
      from started [OF True Inr] True Inr show ?thesis by (simp add: sync list)
    qed
  qed (simp add: startUp_def poll sync)
  with poll show "\<exists>r x1. CheckAndFinallyCall (\<lambda>x. case tunnelReady env x of (r, x) \<Rightarrow> ((r, None), x))
      (tunnelPollsEnd env) Some (\<lambda>x. x) 0 x = Some (r, x1) \<and>
    (case WaitForCacheSync env x1 of
       (False, x2) \<Rightarrow> startUp env b (c, x) = Returns (False, c, x2)
     | (True, x2) \<Rightarrow>
         (case listNodes env ComponentVNode (vc_env c) x2 of
            (Inl err, x3) \<Rightarrow> startUp env b (c, x) = Returns (False, c, x3)
          | (Inr nodes, x3) \<Rightarrow> (\<exists>c'. startUp env b (c, x) = Returns (True, c', x3) \<and>
              GetVNode (vNodeStore c) \<subseteq>\<^sub>m GetVNode (vNodeStore c') \<and>
              dom (GetVNode (vNodeStore c')) = dom (GetVNode (vNodeStore c)) \<union> (n_Name ` set nodes - {[]}))))"
    by (intro exI [of _ r] exI [of _ x1] conjI)
qed (auto simp: podHandler_def split: watchEvent.split)

definition demoSetup :: "bool \<Rightarrow> unit setupEnv" where
  "demoSetup synced = \<lparr>tunnelReady = (\<lambda>x. (False, x)), tunnelPollsEnd = (\<lambda>n. n = 60),
      WaitForCacheSync = (\<lambda>x. (synced, x)),
      listNodes = (\<lambda>_ _ x. (Inr [plainNode\<lparr>n_Name := ''vnode.b.test''\<rparr>, plainNode\<lparr>n_Name := []\<rparr>], x))\<rparr>"

lemma restart_recovers_nodes_witness:
  "(\<exists>c'. startUp (demoSetup True) demoBuild (demoController, ()) = Returns (True, c', ()) \<and>
      dom (GetVNode (vNodeStore c')) = {''vnode.a.test'', ''vnode.b.test''}) \<and>
   startUp (demoSetup False) demoBuild (demoController, ()) = Returns (False, demoController, ())"
proof -
  let ?c = "demoController :: (unit, unit) VNodeController"
  have ends: "tunnelPollsEnd (demoSetup s) 60" for s by (simp add: demoSetup_def)
  note good = restart_recovers_nodes [OF ends [of True], where x = "()" and b = demoBuild and c = demoController, THEN conjunct1]
  note bad = restart_recovers_nodes [OF ends [of False], where x = "()" and b = demoBuild and c = demoController, THEN conjunct1]
  have sync: "WaitForCacheSync (demoSetup s) x = (s, x)"
    "listNodes (demoSetup s) k e x = (Inr [plainNode\<lparr>n_Name := ''vnode.b.test''\<rparr>, plainNode\<lparr>n_Name := []\<rparr>], x)" for s x k e
    by (simp_all add: demoSetup_def)
  have "dom (GetVNode (vNodeStore ?c)) = {''vnode.a.test''}"
    by (auto simp: GetVNode_def demoController_def split: if_splits)
  moreover obtain c' x1 where "startUp (demoSetup True) demoBuild (demoController, ()) = Returns (True, c', x1)"
    "dom (GetVNode (vNodeStore c')) = dom (GetVNode (vNodeStore ?c)) \<union>
      (n_Name ` set [plainNode\<lparr>n_Name := ''vnode.b.test''\<rparr>, plainNode\<lparr>n_Name := []\<rparr>] - {[]})"
    using good unfolding sync prod.case bool.case sum.case by (elim exE conjE) (rule that)
  moreover obtain x2 where "startUp (demoSetup False) demoBuild (demoController, ()) = Returns (False, demoController, x2)"
    using bad unfolding sync prod.case bool.case by (elim exE conjE) (rule that)
  ultimately show ?thesis by (intro conjI exI [of _ c']) (simp_all add: insert_commute)
qed

text \<open>The node object that a new virtual node registers.\<close>

lemma NewVNode_object:
  assumes "NewVNode MP pl cpu dflt cfg = Ok (v, cm)"
  shows "serverNode (nc cm) = Some (buildNode MP cfg ((cfgNode (defaultNodeConfig cpu (bc_NodeName cfg)))
      \<lparr>n_Status := (n_Status (cfgNode (defaultNodeConfig cpu (bc_NodeName cfg))))\<lparr>ns_rest := pl\<rparr>\<rparr>))"
    and "localIP (world (podController v)) = BaseIP cfg" "bc_NodeName cfg \<noteq> []"
  using assms
  by (auto simp: NewVNode_def NewNode_def vnodeOpts_def WithClient_def WithCache_def NewNodeController_def
      NewPodController_def NewVPodProvider_def split: if_splits prod.splits)

lemma overlay_get: "mapGet (overlay old new) k = (case mapGet new k of Some l \<Rightarrow> Some l | None \<Rightarrow> mapGet old k)"
  by (cases old; cases new) (auto simp: overlay_def map_add_def split: option.split)

definition ownLabels :: "BuildVNodeConfig \<Rightarrow> string \<rightharpoonup> string" where
  "ownLabels cfg = [LabelKeyOfBaseName \<mapsto> bc_BaseName cfg, LabelKeyOfBaseClusterName \<mapsto> bc_ClusterName cfg,
     LabelKeyOfComponent \<mapsto> ComponentVNode, LabelKeyOfEnv \<mapsto> bc_Env cfg,
     LabelKeyOfBaseVersion \<mapsto> NodeVersion cfg, LabelHostname \<mapsto> BaseHostName cfg,
     LabelKeyOfBaseHostName \<mapsto> BaseHostName cfg]"

lemma ownLabels_same: "ownLabels cfg k = None \<longleftrightarrow> ownLabels cfg' k = None"
  unfolding ownLabels_def by simp

lemma buildNode_maps:
  "mapGet (n_Labels (buildNode MP cfg node)) k =
     (case mapGet (bc_CustomLabels cfg) k of Some l \<Rightarrow> Some l | None \<Rightarrow>
        (case ownLabels cfg k of Some l \<Rightarrow> Some l | None \<Rightarrow> mapGet (n_Labels node) k))"
  "mapGet (n_Annotations (buildNode MP cfg node)) k =
     (case mapGet (bc_CustomAnnotations cfg) k of Some l \<Rightarrow> Some l | None \<Rightarrow> mapGet (n_Annotations node) k)"
  unfolding buildNode_def Let_def ownLabels_def [symmetric] by (simp_all add: overlay_get split: option.split)

lemma buildNode_rest:
  "n_Name (buildNode MP cfg node) = n_Name node"
  "elems (n_Taints (buildNode MP cfg node)) =
     [\<lparr>taint_Key = TaintKeyOfVnode, taint_Value = ''True'', taint_Effect = TaintEffectNoExecute\<rparr>,
      \<lparr>taint_Key = TaintKeyOfEnv, taint_Value = bc_Env cfg, taint_Effect = TaintEffectNoExecute\<rparr>] @
     elems (bc_CustomTaints cfg)"
  "BaseHostName cfg = BaseHostName cfg' \<Longrightarrow>
   OrElse [] (bc_NodeIP cfg) (BaseIP cfg) = OrElse [] (bc_NodeIP cfg') (BaseIP cfg') \<Longrightarrow>
   n_Status (buildNode MP cfg node) = n_Status (buildNode MP cfg' node')"
  by (simp_all add: buildNode_def Let_def)

text \<open>C13. A restart rebuilds the node from its listed object. Take the object that a new virtual node
  registers, and a listed object of the same name, labels, taints and addresses, whatever has become of
  its annotations and of the rest of its status. The virtual node that the start-up makes of the listed
  object, under the same settings, registers an object of the listed name, labels and annotations,
  whatever custom labels, taints and annotations the tunnel had set, with the status of the object
  first registered: what was patched since, such as the capacity, is gone. Two more things do not
  survive. The program's own taints come twice, once from the object and once anew, though a node's
  taints must differ in key or effect; and the address of the base is replaced by the pseudo address of
  the node, where one is configured, in the status of every pod.\<close>

theorem restart_rebuilds_node:
  fixes c c' :: "('r, 'x) VNodeController" and v :: "('r, 'x) VNode"
  assumes old: "NewVNode (MustParse b) (platform b) (numCPU b) (dfltLimiter b) (vnodeConfig c d) = Ok (v, cm)"
    and built: "serverNode (nc cm) = Some node0"
    and listed: "n_Name node = n_Name node0" "n_Labels node = n_Labels node0" "n_Taints node = n_Taints node0"
      "ns_Addresses (n_Status node) = ns_Addresses (n_Status node0)"
    and same: "pseudoNodeIP c' = pseudoNodeIP c" "vc_env c' = vc_env c"
  shows "\<exists>(v' :: ('r, 'x) VNode) cm' node'. NewVNode (MustParse b) (platform b) (numCPU b) (dfltLimiter b)
      (vnodeConfig c' (ConvertNodeToNodeInfo node)) = Ok (v', cm') \<and> serverNode (nc cm') = Some node' \<and>
    n_Name node' = n_Name node \<and> mapGet (n_Labels node') = mapGet (n_Labels node) \<and>
    mapGet (n_Annotations node') = mapGet (n_Annotations node) \<and> n_Status node' = n_Status node0 \<and>
    elems (n_Taints node') = take 2 (elems (n_Taints node)) @ elems (n_Taints node) \<and>
    localIP (world (podController v')) =
      (if pseudoNodeIP c = [] then localIP (world (podController v)) else pseudoNodeIP c)"
proof -
  let ?cfg = "vnodeConfig c d" and ?cfg' = "vnodeConfig c' (ConvertNodeToNodeInfo node)"
  let ?fresh = "\<lambda>n. (cfgNode (defaultNodeConfig (numCPU b) n))
      \<lparr>n_Status := (n_Status (cfgNode (defaultNodeConfig (numCPU b) n)))\<lparr>ns_rest := platform b\<rparr>\<rparr>"
  note object = NewVNode_object [OF old]
  have n: "node0 = buildNode (MustParse b) ?cfg (?fresh (bc_NodeName ?cfg))" using built object(1) by simp
  have ip: "BaseIP ?cfg \<noteq> []" by (simp add: vnodeConfig_def)
  have cfg': "bc_NodeName ?cfg' = bc_NodeName ?cfg" "bc_Env ?cfg' = bc_Env ?cfg" "bc_NodeIP ?cfg' = bc_NodeIP ?cfg"
    "BaseIP ?cfg' = OrElse [] (bc_NodeIP ?cfg) (BaseIP ?cfg)" "BaseHostName ?cfg' = BaseHostName ?cfg"
    "bc_CustomLabels ?cfg' = n_Labels node0" "bc_CustomAnnotations ?cfg' = n_Annotations node"
    "bc_CustomTaints ?cfg' = n_Taints node0" "bcHasClient ?cfg'" "bcHasCache ?cfg'"
    using ip same listed
    by (simp_all add: n buildNode_def Let_def ConvertNodeToNodeInfo_def nodeAddresses_def vnodeConfig_def OrElse_def
        defaultNodeConfig_def node_const_defs)
  obtain v' :: "('r, 'x) VNode" and cm' where new: "NewVNode (MustParse b) (platform b) (numCPU b) (dfltLimiter b) ?cfg' = Ok (v', cm')"
    using NewVNode_ok [OF _ cfg'(9,10)] object(3) cfg'(1) by metis
  note object' = NewVNode_object [OF new]
  let ?node' = "buildNode (MustParse b) ?cfg' (?fresh (bc_NodeName ?cfg))"
  have "mapGet (n_Labels ?node') l = mapGet (n_Labels node) l" for l
    using ownLabels_same [of ?cfg l ?cfg'] buildNode_maps(1) [of "MustParse b" ?cfg "?fresh (bc_NodeName ?cfg)" l]
    unfolding n [symmetric] buildNode_maps cfg' listed by (simp split: option.splits)
  moreover have "mapGet (n_Annotations ?node') l = mapGet (n_Annotations node) l" for l
    unfolding buildNode_maps cfg' by (simp add: defaultNodeConfig_def split: option.splits)
  moreover have "n_Status ?node' = n_Status node0"
    by (subst n, rule buildNode_rest(3)) (simp_all add: cfg' OrElse_def)
  moreover have "elems (n_Taints ?node') = take 2 (elems (n_Taints node)) @ elems (n_Taints node)"
    using arg_cong [OF n, of "\<lambda>m. elems (n_Taints m)"] unfolding buildNode_rest cfg' listed by (simp add: numeral_2_eq_2)
  moreover have "n_Name ?node' = n_Name node"
    using arg_cong [OF n, of n_Name] unfolding buildNode_rest listed by simp
  moreover have "localIP (world (podController v')) =
      (if pseudoNodeIP c = [] then localIP (world (podController v)) else pseudoNodeIP c)"
    unfolding object(2) object'(2) cfg'(4) by (simp add: OrElse_def vnodeConfig_def)
  ultimately show ?thesis using new object'(1) unfolding cfg'(1) by (intro exI conjI ext) (rule new, assumption+)
qed

text \<open>A node whose capacity was patched and that was annotated since: both taints of the program come
  back twice, and the capacity is gone.\<close>

lemma restart_rebuilds_node_witness:
  "\<exists>(v' :: (unit, unit) VNode) cm' node node'. ns_Capacity (n_Status node) = None \<and>
    NewVNode (MustParse demoBuild) (platform demoBuild) (numCPU demoBuild) (dfltLimiter demoBuild)
      (vnodeConfig (demoController :: (unit, unit) VNodeController) (ConvertNodeToNodeInfo node)) = Ok (v', cm') \<and>
    serverNode (nc cm') = Some node' \<and> mapGet (n_Labels node') = mapGet (n_Labels node) \<and>
    mapGet (n_Annotations node') ''owner'' = Some ''me'' \<and> ns_Capacity (n_Status node') \<noteq> None \<and>
    \<not> distinct (elems (n_Taints node'))"
proof -
  let ?cfg = "vnodeConfig (demoController :: (unit, unit) VNodeController) demoInfo"
  have cfg: "bc_NodeName ?cfg \<noteq> []" "bcHasClient ?cfg" "bcHasCache ?cfg"
    by (simp_all add: vnodeConfig_def demoInfo_def)
  obtain v :: "(unit, unit) VNode" and cm where v: "NewVNode (MustParse demoBuild) (platform demoBuild) (numCPU demoBuild)
      (dfltLimiter demoBuild) ?cfg = Ok (v, cm)"
    using NewVNode_ok [OF cfg] by blast
  obtain node0 where node0: "serverNode (nc cm) = Some node0" "take 2 (elems (n_Taints node0)) \<noteq> []"
    "ns_Capacity (n_Status node0) \<noteq> None"
    using NewVNode_object(1) [OF v] by (simp add: buildNode_rest) (simp add: buildNode_def Let_def)
  define node where "node = node0\<lparr>n_Annotations := Some [''owner'' \<mapsto> ''me''],
      n_Status := (n_Status node0)\<lparr>ns_Capacity := None\<rparr>\<rparr>"
  have listed: "n_Name node = n_Name node0" "n_Labels node = n_Labels node0" "n_Taints node = n_Taints node0"
    "ns_Addresses (n_Status node) = ns_Addresses (n_Status node0)" "ns_Capacity (n_Status node) = None"
    "mapGet (n_Annotations node) ''owner'' = Some ''me''"
    by (simp_all add: node_def)
  obtain v' :: "(unit, unit) VNode" and cm' node' where "NewVNode (MustParse demoBuild) (platform demoBuild) (numCPU demoBuild)
      (dfltLimiter demoBuild) (vnodeConfig (demoController :: (unit, unit) VNodeController) (ConvertNodeToNodeInfo node)) = Ok (v', cm')"
    "serverNode (nc cm') = Some node'" "mapGet (n_Labels node') = mapGet (n_Labels node)"
    "mapGet (n_Annotations node') = mapGet (n_Annotations node)" "n_Status node' = n_Status node0"
    and taints: "elems (n_Taints node') = take 2 (elems (n_Taints node)) @ elems (n_Taints node)"
    using restart_rebuilds_node [OF v node0(1) listed(1-4), of demoController] by blast
  moreover have "\<not> distinct (elems (n_Taints node'))"
    using node0(2) unfolding taints listed by (cases "elems (n_Taints node0)") (auto simp: numeral_2_eq_2)
  ultimately show ?thesis using listed(5,6) node0(3) by metis
qed

end
