(* ===== verification/Delivery.thy ===== *)
theory Delivery
  imports VNodeController_Spec
begin

text \<open>
  The components together: a pod event goes through the controller of the virtual nodes into the
  queue of the node's pod controller, a worker takes its key, and the sync handler brings the pod into
  the provider; and every reachable state keeps the kubelets of all nodes consistent meanwhile.
\<close>

section \<open>The pods of a node\<close>

text \<open>What the provider of the node at an address holds under a key.\<close>

definition nodePods :: "('r, 'x) vcState \<Rightarrow> addr \<Rightarrow> string \<Rightarrow> Pod option" where
  "nodePods s a = GetPodByKey (vPodStore (world (podController (nodeAt s a))))"

lemma enter_simps [simp]:
  "syncPodsFromKubernetes (enter p x) = syncPodsFromKubernetes p" "knownPods (enter p x) = knownPods p"
  "kpHeap (enter p x) = kpHeap p" "storedPods (enter p x) = GetPodByKey (vPodStore (world p))"
  "outer (world (enter p x)) = x" "vprovider (world (enter p x)) = world p"
  by (simp_all add: enter_def storedPods_def)

lemma leave_simps:
  assumes "leave p = (q, x)"
  shows "syncPodsFromKubernetes q = syncPodsFromKubernetes p" "GetPodByKey (vPodStore (world q)) = storedPods p"
  using assms by (auto simp: leave_def storedPods_def)

text \<open>Work of a kubelet inside the controller, which is a sequence of its steps.\<close>

lemma work_lifted:
  assumes work: "f (enter (podController (nodeAt s a)) (snd s)) = Returns p"
    and steps: "(kubeletStep o')\<^sup>*\<^sup>* (enter (podController (nodeAt s a)) (snd s)) p"
    and reach: "vcReachable s"
  shows "\<exists>s'. runVNodeOp a (onKubelet f) s = Returns s' \<and> nodePods s' a = storedPods p \<and>
    podController (nodeAt s' a) = fst (leave p) \<and> snd s' = outer (world p) \<and> vcReachable s'"
proof -
  obtain u x where u: "leave p = (u, x)" by fastforce
  obtain c y where s: "s = (c, y)" by (cases s)
  let ?s' = "(c\<lparr>vNodeStore := setVNode a ((vnHeap (vNodeStore c) a)\<lparr>podController := u\<rparr>) (vNodeStore c)\<rparr>, x)"
  have run: "runVNodeOp a (onKubelet f) s = Returns ?s'"
    using work u s by (simp add: runVNodeOp_def onKubelet_def)
  have at: "podController (nodeAt ?s' a) = u" by (simp add: setVNode_def)
  then have "nodePods ?s' a = storedPods p" unfolding nodePods_def by (simp only: leave_simps [OF u])
  moreover have "snd ?s' = outer (world p)" using u by (simp add: leave_def)
  moreover have "vcReachable ?s'" using vcReachable_work [OF _ _ u] steps reach by (simp add: s)
  ultimately show ?thesis using run at u by (intro exI [of _ ?s']) (simp only: fst_conv)
qed

lemma syncWork_lifted:
  assumes work: "syncWork (kubeletEnv o') t until later (enter (podController (nodeAt s a)) (snd s)) = Returns p"
    and reach: "vcReachable s"
  shows "\<exists>s'. runVNodeOp a (onKubelet (syncWork (kubeletEnv o') t until later)) s = Returns s' \<and>
    nodePods s' a = storedPods p \<and> syncOwed s' a = owed (syncPodsFromKubernetes p) \<and>
    L (snd s') = tunnelCalls L p \<and> vcReachable s'"
proof -
  obtain s' where "runVNodeOp a (onKubelet (syncWork (kubeletEnv o') t until later)) s = Returns s'"
    "nodePods s' a = storedPods p" "podController (nodeAt s' a) = fst (leave p)" "snd s' = outer (world p)" "vcReachable s'"
    using work_lifted [where f = "syncWork (kubeletEnv o') t until later", OF work syncWork_steps [OF work] reach] by blast
  then show ?thesis by (intro exI [of _ s']) (simp add: syncOwed_def leave_def tunnelCalls_def)
qed

section \<open>From a pod event to the provider\<close>

text \<open>The handler of a new pod on the client that leads the node.\<close>

lemma podAdd_new:
  assumes "GetVNodeByNodeName (vNodeStore (fst s)) (NodeName pod) = Some a"
    "IsLeader (clientID (fst s)) (oNow o' (snd s)) (nodeAt s a) = Ok True" "mayAct o' s a"
    "VNodeGetKnownPod (nodeAt s a) (GetPodKey (Some pod)) = None"
  shows "podAddHandler o' pod s =
    Returns (onVNode a (VNodeSyncEnqueue o' (GetPodKey (Some pod))) (onVNode a (AddKnowPod pod) s))"
proof -
  have known: "knowPod a pod s = onVNode a (AddKnowPod pod) s" using assms(4) by (simp add: knowPod_def)
  let ?f = "onVNode a (VNodeSyncEnqueue o' (GetPodKey (Some pod)))"
  obtain t where "asLeader o' a (ifValid o' a ?f) (knowPod a pod s) = Returns (if True \<and> mayAct o' (knowPod a pod s) a
      then ?f (knowPod a pod s) else t)"
    using gated [of "knowPod a pod s" o' a True ?f] assms(2) by (auto simp: knowPod_IsLeader)
  then show ?thesis
    using assms(1,3) knowPod_mayAct [of o' a pod s a] by (simp add: podAddHandler_def Let_def known)
qed

text \<open>C1. A new pod reaches its base end to end, in the provider's store and in the calls to the tunnel. Take
  any reachable state of the controller in which this client leads the pod's node, which is ready and
  whose base was heard of lately, and in which the node does not know the pod, no key waits in its sync
  queue, the pod's key is not being processed and the clock does not read zero. Let the cache have the
  pod, in the form p, neither marked for deletion nor failed nor succeeded, and let retries and polls
  come to an end. Then the event of the pod returns, and the next round of a worker of that queue, once
  the rate limiter's delay is over, returns as well, whatever the tunnel answers, and ends with the
  node's provider holding a pod equal to p and all its other pods. The calls that it makes to the
  tunnel are: if the provider held no pod under the key, starts of every container of p, each at least
  once, one after the other in the order of the spec, under the key and the name of the node; if it held
  an equal pod, none; else those of an update, which first stops what changed. The key is no longer owed
  and the state is reachable again.\<close>

theorem pod_event_reaches_provider:
  fixes s :: "('r, 'x) vcState" and pod :: Pod and a :: addr
  defines "k \<equiv> GetPodKey (Some pod)"
  defines "q \<equiv> syncPodsFromKubernetes (podController (nodeAt s a))"
  defines "b \<equiv> world (podController (nodeAt s a))"
  assumes reach: "vcReachable s"
    and node: "GetVNodeByNodeName (vNodeStore (fst s)) (NodeName pod) = Some a"
    and led: "IsLeader (clientID (fst s)) (oNow o' (snd s)) (nodeAt s a) = Ok True" "mayAct o' s a"
    and new: "VNodeGetKnownPod (nodeAt s a) k = None"
    and idle: "items q = []" "itemsBeingProcessed q k = None" "\<not> IsZero (oNow o' (snd s))"
    and due: "startTime (fst (oLimiters o')) (oNow o' (snd s)) k True None (limiter q) \<le> t"
    and key: "SplitMetaNamespaceKey k = Ok (ns, n)"
    and cached: "oCacheGet o' ns n (snd s) = (Inr p, x)" "GetPodKey (Some p) = k"
    and live: "DeletionTimestamp p = None" "Phase (Status p) \<noteq> PodFailed" "Phase (Status p) \<noteq> PodSucceeded"
    and obs: "observable L o'"
  shows "\<exists>s1 s2 r tr. podAddHandler o' pod s = Returns s1 \<and>
    runVNodeOp a (onKubelet (syncWork (kubeletEnv o') t until later)) s1 = Returns s2 \<and>
    nodePods s2 a k = Some r \<and> PodsEqual r p \<and> (\<forall>j. j \<noteq> k \<longrightarrow> nodePods s2 a j = nodePods s a j) \<and>
    L (snd s2) = L (snd s) @ tr \<and>
    (case nodePods s a k of
       None \<Rightarrow> repeats (map (CStart (nodeName b) k) (elems (Containers p))) tr
     | Some old \<Rightarrow> if PodsEqual old p then tr = [] else updateCalls (oOrder o') (nodeName b) old p tr) \<and>
    syncOwed s2 a = syncOwed s a - {k} \<and> vcReachable s2"
proof -
  let ?s0 = "onVNode a (AddKnowPod pod) s"
  let ?s1 = "onVNode a (VNodeSyncEnqueue o' k) ?s0"
  let ?p = "enter (podController (nodeAt ?s1 a)) (snd ?s1)"
  have run: "podAddHandler o' pod s = Returns ?s1"
    using podAdd_new [OF node led] new by (simp add: k_def)
  then have reach1: "vcReachable ?s1" by (rule vcNext [OF reach PodAdd])
  have inv: "queue_inv q"
    using reachable_pods [OF reach node] by (simp add: pods_ok_def q_def)
  have world: "snd ?s1 = snd s" "snd ?s0 = snd s"
    by (simp_all add: onVNode_rest(3) VNodeSyncEnqueue_eq known_ops_eq)
  have queue: "syncPodsFromKubernetes ?p = Enqueue (fst (oLimiters o')) (oNow o' (snd s)) k q"
    by (simp add: onVNode_at VNodeSyncEnqueue_eq known_ops_eq AddKnownPod_def world q_def)
  have prov: "vprovider (world ?p) = b" and pods: "storedPods ?p = nodePods s a"
    by (simp_all add: onVNode_at VNodeSyncEnqueue_eq known_ops_eq AddKnownPod_def nodePods_def b_def)
  have calls: "tunnelCalls L ?p = L (snd s)" by (simp add: tunnelCalls_def world)
  have known: "knownPods ?p k = Some (kpFresh (podController (nodeAt s a)))"
    "lastPodUsed (kpHeap ?p (kpFresh (podController (nodeAt s a)))) = None"
    by (simp_all add: onVNode_at VNodeSyncEnqueue_eq known_ops_eq AddKnownPod_def k_def)
  obtain i q1 where take: "getNextItem t (syncPodsFromKubernetes ?p) = (Take i, q1)" "key (heap q1 i) = k"
    using first_taken [OF inv idle(1,2) due] unfolding queue by blast
  have inv1: "queue_inv (syncPodsFromKubernetes ?p)" unfolding queue by (rule rated.enq_ok [OF inv])
  have cached1: "oCacheGet o' ns n (outer (world ?p)) = (Inr p, x)" by (simp add: world cached)
  obtain p2 r tr where p2: "syncWork (kubeletEnv o') t until later ?p = Returns p2"
    "storedPods p2 k = Some r" "PodsEqual r p" "\<forall>j. j \<noteq> k \<longrightarrow> storedPods p2 j = storedPods ?p j"
    "owed (syncPodsFromKubernetes p2) = owed (syncPodsFromKubernetes ?p) - {k}"
    "tunnelCalls L p2 = tunnelCalls L ?p @ tr" and tr: "syncsBy o' b p tr"
    using syncWork_live [OF inv1 obs take key cached1 live known, of until later] unfolding cached(2) prov by blast
  obtain s2 where s2: "runVNodeOp a (onKubelet (syncWork (kubeletEnv o') t until later)) ?s1 = Returns s2"
    "nodePods s2 a = storedPods p2" "syncOwed s2 a = owed (syncPodsFromKubernetes p2)"
    "L (snd s2) = tunnelCalls L p2" "vcReachable s2"
    using syncWork_lifted [where L = L, OF p2(1) reach1] by blast
  have "owed (syncPodsFromKubernetes ?p) = Set.insert k (syncOwed s a)"
    unfolding queue syncOwed_def q_def [symmetric]
    by (rule rated.enq_due [OF inv]) (use idle(3) in simp)
  moreover have "case nodePods s a k of
       None \<Rightarrow> repeats (map (CStart (nodeName b) k) (elems (Containers p))) tr
     | Some old \<Rightarrow> if PodsEqual old p then tr = [] else updateCalls (oOrder o') (nodeName b) old p tr"
    using tr unfolding syncCalls_def nodePods_def b_def cached(2) .
  ultimately show ?thesis using run s2 p2(2-6) pods calls
    by (intro exI [of _ ?s1] exI [of _ s2] exI [of _ r] exI [of _ tr]) simp
qed

text \<open>In the witness every start fails, so that the one container of the pod is started several times.\<close>

lemma pod_event_reaches_provider_witness:
  "\<exists>s s1 s2 r. vcReachable s \<and> snd s = [] \<and>
     podAddHandler (recordingOutside (Inr samplePod)) (samplePod\<lparr>NodeName := ''vnode.b.test''\<rparr>) s = Returns s1 \<and>
     runVNodeOp 0 (onKubelet (syncWork (kubeletEnv (recordingOutside (Inr samplePod))) (GoTime 5) (GoTime 6) (GoTime 7))) s1 =
       Returns s2 \<and> nodePods s2 0 ''default/p'' = Some r \<and> PodsEqual r samplePod \<and>
     set (snd s2) = {CStart ''vnode.b.test'' ''default/p'' \<lparr>c_Name = ''biz'', c_Image = ''biz.jar'', c_Env = None, c_rest = 0\<rparr>}"
proof -
  let ?o = "recordingOutside (Inr samplePod)" and ?pod = "samplePod\<lparr>NodeName := ''vnode.b.test''\<rparr>"
  have now: "oNow ?o x = GoTime 1" for x by (simp add: recordingOutside_def)
  obtain s :: "(unit, providerCall list) vcState" where s: "vcReachable s" "demoLed s" "snd s = []"
    using demoLed_reachable_at [OF now] by blast
  have key: "GetPodKey (Some ?pod) = ''default/p''" using sample_pod(1) by (simp add: GetPodKey_def)
  have held: "nodePods s 0 ''default/p'' = None" "nodeName (world (podController (nodeAt s 0))) = ''vnode.b.test''"
    using s(2) by (simp_all add: demoLed_def Let_def nodePods_def NewVPodStore_def GetPodByKey_def)
  have pod: "elems (Containers samplePod) = [\<lparr>c_Name = ''biz'', c_Image = ''biz.jar'', c_Env = None, c_rest = 0\<rparr>]"
    by (simp add: samplePod_def)
  have hyp: "GetVNodeByNodeName (vNodeStore (fst s)) (NodeName ?pod) = Some 0"
    "IsLeader (clientID (fst s)) (oNow ?o (snd s)) (nodeAt s 0) = Ok True" "mayAct ?o s 0"
    "VNodeGetKnownPod (nodeAt s 0) (GetPodKey (Some ?pod)) = None"
    "items (syncPodsFromKubernetes (podController (nodeAt s 0))) = []"
    "itemsBeingProcessed (syncPodsFromKubernetes (podController (nodeAt s 0))) (GetPodKey (Some ?pod)) = None"
    "\<not> IsZero (oNow ?o (snd s))"
    using s(2) by (simp_all add: demoLed_def Let_def mayAct_def now VNodeGetKnownPod_def GetKnownPod_def New_def
        GetVNode_def GetVNodeByNodeName_def go_defs)
  have due: "startTime (fst (oLimiters ?o)) (oNow ?o (snd s)) (GetPodKey (Some ?pod)) True None
      (limiter (syncPodsFromKubernetes (podController (nodeAt s 0)))) \<le> GoTime 5"
    by (simp add: startTime_cases now recordingOutside_def quietLimiter_def Add_def gotime_order)
  have split: "SplitMetaNamespaceKey (GetPodKey (Some ?pod)) = Ok (''default'', ''p'')"
    using sample_key by (simp add: key)
  have cached: "oCacheGet ?o ''default'' ''p'' (snd s) = (Inr samplePod, snd s)"
    by (simp add: recordingOutside_def)
  have same: "GetPodKey (Some samplePod) = GetPodKey (Some ?pod)" by (simp add: key sample_pod)
  have live: "DeletionTimestamp samplePod = None" "Phase (Status samplePod) \<noteq> PodFailed"
    "Phase (Status samplePod) \<noteq> PodSucceeded"
    by (simp_all add: sample_pod phase_defs)
  obtain s1 s2 r tr where run: "podAddHandler ?o ?pod s = Returns s1"
    "runVNodeOp 0 (onKubelet (syncWork (kubeletEnv ?o) (GoTime 5) (GoTime 6) (GoTime 7))) s1 = Returns s2"
    "nodePods s2 0 (GetPodKey (Some ?pod)) = Some r" "PodsEqual r samplePod" "snd s2 = snd s @ tr"
    and tr: "case nodePods s 0 (GetPodKey (Some ?pod)) of
       None \<Rightarrow> repeats (map (CStart (nodeName (world (podController (nodeAt s 0)))) (GetPodKey (Some ?pod)))
         (elems (Containers samplePod))) tr
     | Some old \<Rightarrow> if PodsEqual old samplePod then tr = []
         else updateCalls (oOrder ?o) (nodeName (world (podController (nodeAt s 0)))) old samplePod tr"
    using pod_event_reaches_provider [OF s(1) hyp due split cached same live recordingOutside_observable,
        where until = "GoTime 6" and later = "GoTime 7"] by (elim exE conjE) (rule that)
  have "set tr = {CStart ''vnode.b.test'' ''default/p'' \<lparr>c_Name = ''biz'', c_Image = ''biz.jar'', c_Env = None, c_rest = 0\<rparr>}"
    using tr repeats_set unfolding key held option.case pod by fastforce
  with run s show ?thesis
    by (intro exI [of _ s] exI [of _ s1] exI [of _ s2] exI [of _ r]) (simp add: key)
qed

section \<open>From the deletion of a pod to the provider\<close>

text \<open>The handler of a deleted pod on the client that leads the node.\<close>

lemma podDelete_led:
  assumes "GetVNodeByNodeName (vNodeStore (fst s)) (NodeName pod) = Some a"
    "IsLeader (clientID (fst s)) (oNow o' (snd s)) (nodeAt s a) = Ok True" "mayAct o' s a"
  shows "podDeleteHandler o' pod s =
    Returns (onVNode a (VNodeDeleteForget (deletionKey (GetPodKey (Some pod)) pod))
      (onVNode a (VNodeSyncEnqueue o' (GetPodKey (Some pod))) (onVNode a (VNodeDeleteKnownPod (GetPodKey (Some pod))) s)))"
proof -
  let ?f = "\<lambda>s. onVNode a (VNodeDeleteForget (deletionKey (GetPodKey (Some pod)) pod))
      (onVNode a (VNodeSyncEnqueue o' (GetPodKey (Some pod))) (onVNode a (VNodeDeleteKnownPod (GetPodKey (Some pod))) s))"
  obtain t where "asLeader o' a (ifValid o' a ?f) s = Returns (if True \<and> mayAct o' s a then ?f s else t)"
    using gated [of s o' a True ?f] assms(2) by blast
  then show ?thesis using assms(1,3) by (simp add: podDeleteHandler_def Let_def)
qed

text \<open>C2. A pod that is gone from the cluster leaves its base end to end, from the provider's store and by the
  calls to the tunnel. Take any reachable state of the controller in which this client leads the pod's
  node, which is ready and whose base was heard of lately, and in which no key waits in the node's sync
  queue, the pod's key is not being processed and the clock does not read zero. Let the cache no longer
  have the pod, and let retries come to an end. Then the event of the deletion returns, and the next
  round of a worker of that queue, once the rate limiter's delay is over, returns as well, whatever the
  tunnel answers, and ends with the node's provider holding no pod under the key and all its other
  pods. The calls that it makes to the tunnel stop every container of the pod that the provider held
  under the key, each at least once, one after the other in the order of the spec, and if it held none
  there is no call. The key is no longer owed and the state is reachable again.\<close>

theorem pod_deletion_reaches_provider:
  fixes s :: "('r, 'x) vcState" and pod :: Pod and a :: addr
  defines "k \<equiv> GetPodKey (Some pod)"
  defines "q \<equiv> syncPodsFromKubernetes (podController (nodeAt s a))"
  defines "b \<equiv> world (podController (nodeAt s a))"
  assumes reach: "vcReachable s"
    and node: "GetVNodeByNodeName (vNodeStore (fst s)) (NodeName pod) = Some a"
    and led: "IsLeader (clientID (fst s)) (oNow o' (snd s)) (nodeAt s a) = Ok True" "mayAct o' s a"
    and idle: "items q = []" "itemsBeingProcessed q k = None" "\<not> IsZero (oNow o' (snd s))"
    and due: "startTime (fst (oLimiters o')) (oNow o' (snd s)) k True None (limiter q) \<le> t"
    and key: "SplitMetaNamespaceKey k = Ok (Namespace pod, Name pod)"
    and gone: "oCacheGet o' (Namespace pod) (Name pod) (snd s) = (Inl e, x)" "IsNotFound e"
    and obs: "observable L o'"
  shows "\<exists>s1 s2 tr. podDeleteHandler o' pod s = Returns s1 \<and>
    runVNodeOp a (onKubelet (syncWork (kubeletEnv o') t until later)) s1 = Returns s2 \<and>
    nodePods s2 a = (nodePods s a)(k := None) \<and> L (snd s2) = L (snd s) @ tr \<and>
    (case nodePods s a k of
       None \<Rightarrow> tr = []
     | Some old \<Rightarrow> repeats (map (CStop (nodeName b) (stopKey old)) (elems (Containers old))) tr) \<and>
    syncOwed s2 a = syncOwed s a - {k} \<and> vcReachable s2"
proof -
  let ?s0 = "onVNode a (VNodeDeleteKnownPod k) s"
  let ?s1 = "onVNode a (VNodeDeleteForget (deletionKey k pod)) (onVNode a (VNodeSyncEnqueue o' k) ?s0)"
  let ?p = "enter (podController (nodeAt ?s1 a)) (snd ?s1)"
  note ops = VNodeSyncEnqueue_eq known_ops_eq DeleteKnownPod_def DeletePodsFromKubernetesForget_def
  have run: "podDeleteHandler o' pod s = Returns ?s1" using podDelete_led [OF node led] by (simp add: k_def)
  then have reach1: "vcReachable ?s1" by (rule vcNext [OF reach PodDelete])
  have inv: "queue_inv q" using reachable_pods [OF reach node] by (simp add: pods_ok_def q_def)
  have world: "snd ?s1 = snd s" "snd ?s0 = snd s" by (simp_all add: onVNode_rest(3) ops)
  have queue: "syncPodsFromKubernetes ?p = Enqueue (fst (oLimiters o')) (oNow o' (snd s)) k q"
    by (simp add: onVNode_at ops world q_def)
  have prov: "vprovider (world ?p) = b" and pods: "storedPods ?p = nodePods s a"
    by (simp_all add: onVNode_at ops nodePods_def b_def)
  have calls: "tunnelCalls L ?p = L (snd s)" by (simp add: tunnelCalls_def world)
  have "nodeNameToVNode (vNodeStore (fst ?s1)) = nodeNameToVNode (vNodeStore (fst s))" by (simp only: onVNode_rest)
  then have "GetVNodeByNodeName (vNodeStore (fst ?s1)) (NodeName pod) = Some a"
    using node by (simp add: GetVNodeByNodeName_def)
  then have ok: "kubelet_ok ?p" using reachable_pods [OF reach1] by simp
  obtain i q1 where take: "getNextItem t (syncPodsFromKubernetes ?p) = (Take i, q1)" "key (heap q1 i) = k"
    using first_taken [OF inv idle(1,2) due] unfolding queue by blast
  have gone1: "oCacheGet o' (Namespace pod) (Name pod) (outer (world ?p)) = (Inl e, x)" by (simp add: world gone)
  have split: "Namespace pod @ ''/'' @ Name pod = k" by (simp add: k_def GetPodKey_def)
  obtain p2 tr where p2: "syncWork (kubeletEnv o') t until later ?p = Returns p2"
    "storedPods p2 = (storedPods ?p)(k := None)"
    "owed (syncPodsFromKubernetes p2) = owed (syncPodsFromKubernetes ?p) - {k}"
    "tunnelCalls L p2 = tunnelCalls L ?p @ tr" and tr: "stopsBy b k tr"
    using syncWork_missing [OF ok obs take key split gone1 gone(2), of until later] unfolding prov by blast
  obtain s2 where s2: "runVNodeOp a (onKubelet (syncWork (kubeletEnv o') t until later)) ?s1 = Returns s2"
    "nodePods s2 a = storedPods p2" "syncOwed s2 a = owed (syncPodsFromKubernetes p2)"
    "L (snd s2) = tunnelCalls L p2" "vcReachable s2"
    using syncWork_lifted [where L = L, OF p2(1) reach1] by blast
  have "owed (syncPodsFromKubernetes ?p) = Set.insert k (syncOwed s a)"
    unfolding queue syncOwed_def q_def [symmetric]
    by (rule rated.enq_due [OF inv]) (use idle(3) in simp)
  moreover have "case nodePods s a k of
       None \<Rightarrow> tr = []
     | Some old \<Rightarrow> repeats (map (CStop (nodeName b) (stopKey old)) (elems (Containers old))) tr"
    using tr unfolding stopCalls_def nodePods_def b_def .
  ultimately show ?thesis using run s2 p2(2-4) pods calls
    by (intro exI [of _ ?s1] exI [of _ s2] exI [of _ tr]) simp
qed

lemma pod_deletion_reaches_provider_witness:
  "\<exists>s s1 s2. vcReachable s \<and> snd s = [] \<and>
     podDeleteHandler (recordingOutside (Inl (ErrAPI NotFound))) (samplePod\<lparr>NodeName := ''vnode.b.test''\<rparr>) s = Returns s1 \<and>
     runVNodeOp 0 (onKubelet (syncWork (kubeletEnv (recordingOutside (Inl (ErrAPI NotFound)))) (GoTime 5) (GoTime 6) (GoTime 7))) s1 =
       Returns s2 \<and> nodePods s2 0 ''default/p'' = None \<and> snd s2 = []"
proof -
  let ?o = "recordingOutside (Inl (ErrAPI NotFound))" and ?pod = "samplePod\<lparr>NodeName := ''vnode.b.test''\<rparr>"
  have now: "oNow ?o x = GoTime 1" for x by (simp add: recordingOutside_def)
  obtain s :: "(unit, providerCall list) vcState" where s: "vcReachable s" "demoLed s" "snd s = []"
    using demoLed_reachable_at [OF now] by blast
  have names: "Namespace ?pod = ''default''" "Name ?pod = ''p''" by (simp_all add: samplePod_def)
  then have key: "GetPodKey (Some ?pod) = ''default/p''" by (simp add: GetPodKey_def)
  have held: "nodePods s 0 ''default/p'' = None"
    using s(2) by (simp add: demoLed_def Let_def nodePods_def NewVPodStore_def GetPodByKey_def)
  have hyp: "GetVNodeByNodeName (vNodeStore (fst s)) (NodeName ?pod) = Some 0"
    "IsLeader (clientID (fst s)) (oNow ?o (snd s)) (nodeAt s 0) = Ok True" "mayAct ?o s 0"
    "items (syncPodsFromKubernetes (podController (nodeAt s 0))) = []"
    "itemsBeingProcessed (syncPodsFromKubernetes (podController (nodeAt s 0))) (GetPodKey (Some ?pod)) = None"
    "\<not> IsZero (oNow ?o (snd s))"
    using s(2) by (simp_all add: demoLed_def Let_def mayAct_def now New_def GetVNode_def GetVNodeByNodeName_def go_defs)
  have due: "startTime (fst (oLimiters ?o)) (oNow ?o (snd s)) (GetPodKey (Some ?pod)) True None
      (limiter (syncPodsFromKubernetes (podController (nodeAt s 0)))) \<le> GoTime 5"
    by (simp add: startTime_cases now recordingOutside_def quietLimiter_def Add_def gotime_order)
  have split: "SplitMetaNamespaceKey (GetPodKey (Some ?pod)) = Ok (Namespace ?pod, Name ?pod)"
    using sample_key by (simp add: key names)
  have cached: "oCacheGet ?o (Namespace ?pod) (Name ?pod) (snd s) = (Inl (ErrAPI NotFound), snd s)"
    by (simp add: recordingOutside_def)
  have gone: "IsNotFound (ErrAPI NotFound)" by simp
  obtain s1 s2 tr where run: "podDeleteHandler ?o ?pod s = Returns s1"
    "runVNodeOp 0 (onKubelet (syncWork (kubeletEnv ?o) (GoTime 5) (GoTime 6) (GoTime 7))) s1 = Returns s2"
    "nodePods s2 0 = (nodePods s 0)(GetPodKey (Some ?pod) := None)" "snd s2 = snd s @ tr"
    and tr: "case nodePods s 0 (GetPodKey (Some ?pod)) of
       None \<Rightarrow> tr = []
     | Some old \<Rightarrow> repeats (map (CStop (nodeName (world (podController (nodeAt s 0)))) (stopKey old)) (elems (Containers old))) tr"
    using pod_deletion_reaches_provider [OF s(1) hyp due split cached gone recordingOutside_observable,
        where until = "GoTime 6" and later = "GoTime 7"] by (elim exE conjE) (rule that)
  have "tr = []" using tr unfolding key held option.case .
  with run s show ?thesis by (intro exI [of _ s] exI [of _ s1] exI [of _ s2]) (simp add: key)
qed

section \<open>From a report to the bizs that no pod runs\<close>

lemma syncEach_node: "syncEach env clk ds (b, w) = Ok (b', w') \<Longrightarrow> nodeName b' = nodeName b"
proof (induction ds arbitrary: clk b w)
  case (Cons d ds)
  then obtain b1 w1 where 1: "syncBizStatusToKube env (clk 0) (clk 1) d (b, w) = Ok (b1, w1)"
    "syncEach env (\<lambda>n. clk (n + 2)) ds (b1, w1) = Ok (b', w')" by (auto split: outcome.splits)
  have "nodeName b1 = nodeName b"
    using 1(1) by (auto simp: syncBizStatusToKube_def Let_def split: option.splits outcome.splits)
  with Cons.IH [OF 1(2)] show ?case by simp
qed simp

text \<open>A batch of reports: the pods keep all but their status, and only what is to be deleted is stopped.\<close>

lemma syncBatch_stops:
  assumes rec: "records L env" and ends: "ctxEnds (ctxWait env)" and filed: "vpods.filed (vPodStore b)"
  shows "\<exists>b' w' tr. syncBatch env order now clk us ds (b, w) = Returns (b', w') \<and> L w' = L w @ tr \<and>
    set tr = (\<lambda>d. CStop (nodeName b) '''' (bizContainer d)) ` set ds \<and>
    (\<forall>k. k \<noteq> ''default/not-exist-pod'' \<longrightarrow> map_option (\<lambda>p. p\<lparr>Status := zeroPodStatus\<rparr>) (GetPodByKey (vPodStore b') k) =
       map_option (\<lambda>p. p\<lparr>Status := zeroPodStatus\<rparr>) (GetPodByKey (vPodStore b) k))"
proof -
  obtain l w0 where l: "collectUpdates env now us (sortedPods order (vPodStore b)) w = (l, w0)" by fastforce
  obtain b1 w1 where 1: "syncEach env clk l (b, w0) = Ok (b1, w1)" "sameSpecs (vPodStore b) (vPodStore b1)"
    using sync_each [OF filed, of env clk l w0] by blast
  then have all: "SyncAllBizStatusToKube env order now clk us (b, w) = Ok (b1, w1)"
    by (simp add: SyncAllBizStatusToKube_def l)
  then have "L w1 = L w" using SyncAll_calls [OF rec all] by simp
  moreover obtain b' w' tr where "syncNotExistBizPodToProvider env ds (b1, w1) = Returns (b', w')" "L w' = L w1 @ tr"
    "\<forall>k. k \<noteq> ''default/not-exist-pod'' \<longrightarrow> GetPodByKey (vPodStore b') k = GetPodByKey (vPodStore b1) k"
    "set tr = (\<lambda>d. CStop (nodeName b1) '''' (bizContainer d)) ` set ds"
    using stop_unlisted [OF rec ends, of ds b1 w1] by (elim exE conjE) (rule that)
  ultimately show ?thesis using 1(2) syncEach_node [OF 1(1)] all
    by (intro exI [of _ b'] exI [of _ w'] exI [of _ tr]) (simp add: syncBatch_def runOf_def sameSpecs_def)
qed


definition looseReport :: BizStatusData where
  "looseReport = \<lparr>b_Key = ''biz:1'', b_Name = ''biz'', PodKey = '''', b_State = BizStateActivated,
     ChangeTime = GoTime 1, b_Reason = '''', b_Message = ''''\<rparr>"


section \<open>The kubelets of all nodes\<close>

text \<open>C12. In every reachable state of the controller, whatever handlers, workers, polls and callbacks ran
  in which order, the kubelet of every node is consistent: in each of its three queues the waiting
  keys are in the order of their starts and free of repetitions and the counting operations do not
  panic; every pod that its provider holds is filed under its own key; and no two keys share a known
  pod.\<close>

theorem reachable_kubelets_consistent:
  assumes "vcReachable s" "GetVNodeByNodeName (vNodeStore (fst s)) n = Some a"
  shows "let p = podController (nodeAt s a) in
    list_all (\<lambda>q. sorted (map (planned q) (items q)) \<and> distinct (items q) \<and>
        UnprocessedLen q = Ok (length (items q)) \<and> Len q = Ok (length (items q) + ItemsBeingProcessedLen q))
      [syncPodsFromKubernetes p, deletePodsFromKubernetes p, syncPodStatusFromProvider p] \<and>
    (\<forall>k. case nodePods s a k of None \<Rightarrow> True | Some pod \<Rightarrow> GetPodKey (Some pod) = k) \<and>
    (\<forall>j k. j = k \<or> knownPods p j = None \<or> knownPods p j \<noteq> knownPods p k)"
proof -
  have ok: "pods_ok (podController (nodeAt s a))" by (rule reachable_pods [OF assms])
  let ?p = "podController (nodeAt s a)"
  let ?good = "\<lambda>q. sorted (map (planned q) (items q)) \<and> distinct (items q) \<and>
        UnprocessedLen q = Ok (length (items q)) \<and> Len q = Ok (length (items q) + ItemsBeingProcessedLen q)"
  have "?good q" if "queue_inv q" for q :: "'a queue"
    using that by (simp add: inv_sorted inv_distinct Len_inv ItemsBeingProcessedLen_def)
  then have queues: "list_all ?good [syncPodsFromKubernetes ?p, deletePodsFromKubernetes ?p, syncPodStatusFromProvider ?p]"
    using ok unfolding pods_ok_def list.pred_inject by (intro conjI TrueI) auto
  have known: "\<forall>j k. j = k \<or> knownPods ?p j = None \<or> knownPods ?p j \<noteq> knownPods ?p k"
    using ok unfolding pods_ok_def known_ok_def by (metis not_None_eq)
  have filed: "\<forall>k. case nodePods s a k of None \<Rightarrow> True | Some pod \<Rightarrow> GetPodKey (Some pod) = k"
    using ok by (auto simp: pods_ok_def nodePods_def vpods.filed_def split: option.split)
  show ?thesis unfolding Let_def by (rule conjI [OF queues conjI [OF filed known]])
qed

lemma reachable_kubelets_consistent_witness:
  "\<exists>s :: (unit, unit) vcState. vcReachable s \<and> Len (syncPodsFromKubernetes (podController (nodeAt s 0))) = Ok 0"
proof -
  obtain s :: "(unit, unit) vcState" where s: "vcReachable s" "demoLed s" using demoLed_reachable by blast
  then have "GetVNodeByNodeName (vNodeStore (fst s)) ''vnode.b.test'' = Some 0"
    "items (syncPodsFromKubernetes (podController (nodeAt s 0))) = []"
    "ItemsBeingProcessedLen (syncPodsFromKubernetes (podController (nodeAt s 0))) = 0"
    by (simp_all add: demoLed_def GetVNode_def GetVNodeByNodeName_def New_def Let_def ItemsBeingProcessedLen_def map_len_def)
  with reachable_kubelets_consistent [OF s(1) this(1)] s(1) show ?thesis by (intro exI [of _ s]) (simp add: Let_def)
qed

end
