(* ===== verification/StatusDelivery.thy ===== *)
theory StatusDelivery
  imports Delivery
begin

text \<open>
  The way back: the report of a biz goes through the controller of the virtual nodes into the provider,
  which takes the status over; the pod controller owes it to the cluster, and a round of a worker of the
  status queue delivers it.
\<close>

section \<open>The handler of a report\<close>

text \<open>The keys whose status a node owes to the cluster.\<close>

definition statusOwed :: "('r, 'x) vcState \<Rightarrow> addr \<Rightarrow> string set" where
  "statusOwed s a = owed (syncPodStatusFromProvider (podController (nodeAt s a)))"

text \<open>The handler of a report on the client that leads the node, for a report of a known pod.\<close>

lemma single_report:
  assumes "GetVNode (vNodeStore (fst s)) n = Some a"
    "IsLeader (clientID (fst s)) (oNow o' (snd s)) (nodeAt s a) = Ok True"
    "cacheListPods env n (snd s) = ((pods, e), x)" "FillPodKey pods [data] = ([d], [])"
    "SyncBizStatusToKube (providerEnvOf o') (clockNext env 0) (clockNext env 1) d
       (world (podController (nodeAt s a)), enter (podController (nodeAt s a)) x) = Ok (b, p)"
    "leave (setProvider b p) = (u, y)"
  shows "onSingleBizStatusArrived o' env n data s =
    Returns ((fst s)\<lparr>vNodeStore := setVNode a ((nodeAt s a)\<lparr>podController := u\<rparr>) (vNodeStore (fst s))\<rparr>, y)"
  using assms by (cases s) (simp add: onSingleBizStatusArrived_def asLeader_def listPodFromKube_def runVNodeOp_def
      SyncOneNodeBizStatusToKube_def onProvider_def Let_def runOf_def)

section \<open>From a report to the cluster\<close>

text \<open>C3. The report of a biz reaches the cluster end to end. Take any reachable state of the controller in which
  this client leads the node, and the report of one biz to which the listing of the node's pods gives a
  pod key. Let the provider hold a pod under this key, not marked for deletion; let the cache have the
  pod, with a container status that the report is due to replace; let the node know the pod, with a
  status last received from the provider that differs from the one computed from the report; let no key
  wait in the node's status queue, the pod's key not be in process and the clock not read zero. Then the
  handler of the report returns. If the API server then answers with a pod whose status updates are not to be
  skipped, and takes the patch, the next round of a worker of the status queue, once the rate limiter's
  delay is over, returns right after that patch, which gives the pod of the API server exactly the
  status computed from the report. The provider holds the pod with that status, its other pods stay, the
  key is no longer owed, and the state is reachable again.\<close>

theorem status_report_reaches_cluster:
  fixes s :: "('r, 'x) vcState" and a :: addr
  defines "w \<equiv> podController (nodeAt s a)"
  assumes reach: "vcReachable s"
    and node: "GetVNode (vNodeStore (fst s)) n = Some a"
    and led: "IsLeader (clientID (fst s)) (oNow o' (snd s)) (nodeAt s a) = Ok True"
    and listed: "cacheListPods env n (snd s) = ((pods, e), x0)" "FillPodKey pods [data] = ([d], [])"
    and stored: "nodePods s a (PodKey d) = Some pod" "DeletionTimestamp pod = None"
    and cached: "GetNameSpaceAndNameFromPodKey (PodKey d) = (ns, m)" "oCacheGet o' ns m x0 = (Inr c, x1)"
      "CheckContainerStatusNeedSync c d"
    and st: "GetPodStatus (clockNext env 0) (clockNext env 1) pod d (world w) = Ok st"
    and known: "oMetaKey o' (pod\<lparr>Status := st\<rparr>) = Inr (PodKey d)" "knownPods w (PodKey d) = Some b" "oPolls o' \<noteq> 0"
      "lastPodStatusReceivedFromProvider (kpHeap w b) \<noteq> pod\<lparr>Status := st\<rparr>"
    and idle: "items (syncPodStatusFromProvider w) = []"
      "itemsBeingProcessed (syncPodStatusFromProvider w) (PodKey d) = None" "\<not> IsZero (oNow o' x1)"
    and due: "startTime (snd (snd (oLimiters o'))) (oNow o' x1) (PodKey d) True None
        (limiter (syncPodStatusFromProvider w)) \<le> t"
    and api: "oSplitKey o' (PodKey d) = Inr (ns', m')" "oApiGet o' ns' m' x1 = (Inr k8s, x2)"
      "\<not> shouldSkipPodStatusUpdate k8s"
    and patch: "oStatusPatch o' (k8s\<lparr>Status := st\<rparr>) k8s x2 = (None, x3)"
  shows "\<exists>s1 s2. onSingleBizStatusArrived o' env n data s = Returns s1 \<and>
    runVNodeOp a (onKubelet (statusWork (kubeletEnv o') t until later)) s1 = Returns s2 \<and> snd s2 = x3 \<and>
    nodePods s2 a = (nodePods s a)(PodKey d \<mapsto> pod\<lparr>Status := st\<rparr>) \<and>
    statusOwed s2 a = statusOwed s a - {PodKey d} \<and> vcReachable s2"
proof -
  let ?p = "enter w x0" and ?pod = "pod\<lparr>Status := st\<rparr>" and ?k = "PodKey d"
  have ok: "pods_ok w" unfolding w_def
    by (rule reachable_pods [OF reach, of n]) (use node in \<open>simp add: GetVNode_def GetVNodeByNodeName_def\<close>)
  have "GetPodKey (Some pod) = ?k" using ok stored by (simp add: pods_ok_def vpods.filed_def nodePods_def w_def)
  then have key: "GetPodKey (Some ?pod) = ?k" by (simp add: GetPodKey_def)
  let ?b = "(world w)\<lparr>vPodStore := PutPod ?pod (vPodStore (world w))\<rparr>"
  let ?p1 = "enqueueStatus (baseEnv o') ?k (setKnown b (\<lambda>kp. kp\<lparr>lastPodStatusUpdateSkipped := False,
         lastPodStatusReceivedFromProvider := ?pod\<rparr>) (?p\<lparr>world := (world ?p)\<lparr>outer := x1\<rparr>\<rparr>))"
  have base: "rlStatus (baseEnv o') = snd (snd (oLimiters o'))" "pcNow (baseEnv o') p = oNow o' (outer (world p))" for p
    by (simp_all add: baseEnv_def)
  have at: "storedPods ?p ?k = Some pod" using stored(1) by (simp add: nodePods_def w_def)
  have "oCacheGet o' ns m (outer (world ?p)) = (Inr c, x1)"
    "GetPodStatus (clockNext env 0) (clockNext env 1) pod d (vprovider (world ?p)) = Ok st"
    "knownPods ?p ?k = Some b" "lastPodStatusReceivedFromProvider (kpHeap ?p b) \<noteq> ?pod"
    using cached(2) st known(2,4) by simp_all
  note sync = report_owed [OF at cached(1) this(1) cached(3) this(2) known(1) this(3) known(3) this(4), unfolded enter_simps(6)]
  obtain u y where u: "leave (setProvider ?b ?p1) = (u, y)" by fastforce
  obtain s1 where s1: "onSingleBizStatusArrived o' env n data s = Returns s1"
    "podController (nodeAt s1 a) = u" "snd s1 = y"
    using single_report [OF node led listed sync [unfolded w_def] u [unfolded w_def]] by (auto simp: w_def setVNode_def)
  have reach1: "vcReachable s1" by (rule vcNext [OF reach OneBiz [OF s1(1)]])
  let ?e = "enter (podController (nodeAt s1 a)) (snd s1)"
  have e: "?e = setProvider ?b ?p1" using enter_leave [OF u] by (simp add: s1)
  have queue: "syncPodStatusFromProvider ?e =
      Enqueue (snd (snd (oLimiters o'))) (oNow o' x1) ?k (syncPodStatusFromProvider w)"
    unfolding e by (simp add: setProvider_def enqueueStatus_def base setKnown_def enter_def)
  have inv: "queue_inv (syncPodStatusFromProvider w)" using ok by (simp add: pods_ok_def)
  obtain i q1 where take: "getNextItem t (syncPodStatusFromProvider ?e) = (Take i, q1)" "key (heap q1 i) = ?k"
    using first_taken [OF inv idle(1,2) due] unfolding queue by blast
  have inv1: "queue_inv (syncPodStatusFromProvider ?e)" unfolding queue by (rule rated.enq_ok [OF inv])
  have world1: "world ?e = \<lparr>vprovider = ?b, outer = x1\<rparr>"
    unfolding e by (simp add: setProvider_def enqueueStatus_def setKnown_def enter_def)
  have known1: "knownPods ?e ?k = Some b" "lastPodStatusReceivedFromProvider (kpHeap ?e b) = ?pod" "DeletionTimestamp ?pod = None"
    unfolding e using known(2) stored(2) by (simp_all add: setProvider_def enqueueStatus_def setKnown_def enter_def)
  have api1: "oApiGet o' ns' m' (outer (world ?e)) = (Inr k8s, x2)"
    and patch1: "oStatusPatch o' (k8s\<lparr>Status := Status ?pod\<rparr>) k8s x2 = (None, x3)"
    using api(2) patch by (simp_all add: world1)
  obtain p2 where p2: "statusWork (kubeletEnv o') t until later ?e = Returns p2" "world p2 = (world ?e)\<lparr>outer := x3\<rparr>"
    "owed (syncPodStatusFromProvider p2) = owed (syncPodStatusFromProvider ?e) - {?k}"
    using statusWork_delivers [OF inv1 take api(1) api1 api(3) known1 patch1, of until later] by blast
  obtain s2 where s2: "runVNodeOp a (onKubelet (statusWork (kubeletEnv o') t until later)) s1 = Returns s2"
    "nodePods s2 a = storedPods p2" "podController (nodeAt s2 a) = fst (leave p2)" "snd s2 = outer (world p2)" "vcReachable s2"
    using work_lifted [where f = "statusWork (kubeletEnv o') t until later", OF p2(1) statusWork_steps [OF p2(1)] reach1] by blast
  have "owed (syncPodStatusFromProvider ?e) = Set.insert ?k (statusOwed s a)"
    unfolding queue statusOwed_def w_def [symmetric] by (rule rated.enq_due [OF inv]) (use idle(3) in simp)
  then have "statusOwed s2 a = statusOwed s a - {?k}"
    using p2(3) by (simp add: statusOwed_def s2(3) leave_def)
  moreover have "nodePods s2 a = (nodePods s a)(?k \<mapsto> ?pod)"
    unfolding s2(2) using key by (simp add: storedPods_def p2(2) world1 fun_eq_iff vpods.get_put nodePods_def w_def)
  ultimately show ?thesis using s1(1) s2(1,4,5) p2(2) by (intro exI [of _ s1] exI [of _ s2]) simp
qed

section \<open>A reachable state with a pod\<close>

text \<open>The run to a led node goes on: a pod event comes in and its key is synced, with a tunnel that starts
  the biz.\<close>

definition demoPod :: Pod where
  "demoPod = samplePod\<lparr>NodeName := ''vnode.b.test''\<rparr>"

definition demoCluster :: "(unit, unit) outside" where
  "demoCluster = (quietOutside (Inr demoPod))\<lparr>oStart := (\<lambda>_ _ _ x. (None, x)),
     oSplitKey := (\<lambda>_. Inr (''default'', ''p''))\<rparr>"

lemma demoPod_simps [simp]:
  "Namespace demoPod = ''default''" "Name demoPod = ''p''" "DeletionTimestamp demoPod = None"
  "Status demoPod = zeroPodStatus" "NodeName demoPod = ''vnode.b.test''" "GetPodKey (Some demoPod) = ''default/p''"
  "Containers demoPod = Some [\<lparr>c_Name = ''biz'', c_Image = ''biz.jar'', c_Env = None, c_rest = 0\<rparr>]"
  by (simp_all add: demoPod_def samplePod_def zeroPod_def GetPodKey_def)

lemma demoCluster_simps [simp]:
  "oStart demoCluster n k c = (\<lambda>x. (None, x))" "oCacheGet demoCluster ns n = (\<lambda>x. (Inr demoPod, x))"
  "oApiGet demoCluster ns n = (\<lambda>x. (Inr demoPod, x))" "oStatusPatch demoCluster p p' = (\<lambda>x. (None, x))"
  "oEvent demoCluster p ty r = (\<lambda>x. x)" "oNow demoCluster x = GoTime 1" "oRecord demoCluster d = (\<lambda>x. x)"
  "oReport demoCluster d = (\<lambda>x. x)" "oMetaKey demoCluster p = Inr (GetPodKey (Some p))"
  "oSplitKey demoCluster k = Inr (''default'', ''p'')" "oPolls demoCluster = 2"
  "oLimiters demoCluster = (quietLimiter, quietLimiter, quietLimiter)"
  by (simp_all add: demoCluster_def quietOutside_def)

lemma updOuter_unit [simp]: "updOuter (f :: unit \<Rightarrow> unit) p = p"
  by (simp add: updOuter_def)

lemma onOuter_pure [simp]: "onOuter (\<lambda>x. (r, x)) p = (r, p)"
  by (simp add: onOuter_def)

lemma start_once:
  assumes "\<And>c w. StartBiz env (nodeName b) (GetPodKey (Some pod)) c w = (None, w)" "\<And>d w. recordEvent (trk env) d w = w"
    "\<And>d w. report (trk env) d w = w"
  shows "handleBizBatchStart env b pod cs w = Some w"
proof -
  have "retryTunnel env (StartBiz env (nodeName b) (GetPodKey (Some pod)) c) code w = Some ((None, CodeSuccess), w)" for c code w
    by (simp add: retryTunnel_once assms)
  then have track: "map_option snd (FuncTrack (trk env) tid sc ev lbl
      (retryTunnel env (StartBiz env (nodeName b) (GetPodKey (Some pod)) c) code) w) = Some w" for tid sc ev lbl c code w
    by (simp add: FuncTrack_def Let_def assms)
  show ?thesis unfolding handleBizBatchStart_def Let_def by (induction cs) (simp_all only: foldOpt.simps track option.case)
qed

definition demoStored :: "(unit, unit) vcState \<Rightarrow> bool" where
  "demoStored s \<longleftrightarrow>
     clientID (fst s) = ''a'' \<and> GetVNode (vNodeStore (fst s)) ''vnode.b.test'' = Some 0 \<and>
     IsLeader ''a'' (GoTime 1) (nodeAt s 0) = Ok True \<and>
     (let w = podController (nodeAt s 0)
      in \<exists>b. knownPods w ''default/p'' = Some b \<and> lastPodStatusReceivedFromProvider (kpHeap w b) = demoPod \<and>
         GetPodByKey (vPodStore (world w)) ''default/p'' = Some demoPod \<and> syncPodStatusFromProvider w = New ())"

lemma demo_handler:
  assumes "knownPods p ''default/p'' = Some b" "kpHeap p b = \<lparr>lastPodStatusReceivedFromProvider = demoPod,
      lastPodUsed = None, lastPodStatusUpdateSkipped = False\<rparr>"
    "vPodStore (vprovider (world p)) = NewVPodStore"
  shows "\<exists>p'. syncPodsFromKubernetesHandler (kubeletEnv demoCluster) ''default/p'' p = Returns (None, p') \<and>
    knownPods p' ''default/p'' = Some b \<and> lastPodStatusReceivedFromProvider (kpHeap p' b) = demoPod \<and>
    storedPods p' ''default/p'' = Some demoPod \<and> syncPodStatusFromProvider p' = syncPodStatusFromProvider p"
proof -
  let ?pp = "(vprovider (world p))\<lparr>vPodStore := PutPod demoPod (vPodStore (vprovider (world p)))\<rparr>"
  let ?e = "providerEnvOf demoCluster :: (unit, unit vworld) pcState providerEnv"
  have start: "handleBizBatchStart ?e ?pp demoPod cs p = Some p" for cs
    by (rule start_once) (simp_all add: providerEnvOf_def)
  have notify: "notify ?e demoPod p = setKnown b (\<lambda>k. k\<lparr>lastPodStatusUpdateSkipped := True\<rparr>) p"
    using assms(1,2) by (simp add: providerEnvOf_def enqueuePodStatusUpdate_def baseEnv_def eval_nat_numeral)
  have create: "provCreate (kubeletEnv demoCluster) demoPod p =
      Some (None, setProvider ?pp (setKnown b (\<lambda>k. k\<lparr>lastPodStatusUpdateSkipped := True\<rparr>) p))"
    using start notify by (simp add: kubeletEnv_def CreatePod_def withProvider_def Let_def)
  have get: "provGetPod (kubeletEnv demoCluster) ''default'' ''p'' p = ((None, None), p)"
    using assms(3) by (simp add: kubeletEnv_def GetPod_def GetPodByKey_def NewVPodStore_def)
  have event: "recorderEvent (kubeletEnv demoCluster) q ty r p' = p'" for q ty r p'
    by (simp add: kubeletEnv_def baseEnv_def)
  have cache: "cacheGet (kubeletEnv demoCluster) ns n p = (Inr demoPod, p)" for ns n
    by (simp add: kubeletEnv_def baseEnv_def)
  have "syncPodsFromKubernetesHandler (kubeletEnv demoCluster) ''default/p'' p =
     Returns (None, setKnown b (\<lambda>k. k\<lparr>lastPodUsed := Some demoPod\<rparr>)
       (setProvider ?pp (setKnown b (\<lambda>k. k\<lparr>lastPodStatusUpdateSkipped := True\<rparr>) p)))"
    using assms(1,2) sample_key
    by (simp add: syncPodsFromKubernetesHandler_def cache syncPodInProvider_def syncBody_def createOrUpdatePod_def get create
      event zeroPodStatus_def phase_defs)
  then show ?thesis
    using assms(1,2)
    by (simp add: setKnown_def setProvider_def storedPods_def vpods.get_put)
qed


lemma demoStored_reachable: "\<exists>s. vcReachable s \<and> demoStored s"
proof -
  obtain s :: "(unit, unit) vcState" where s: "vcReachable s" "demoLed s" using demoLed_reachable by blast
  let ?k = "''default/p''"
  have led: "GetVNodeByNodeName (vNodeStore (fst s)) (NodeName demoPod) = Some 0"
    "IsLeader (clientID (fst s)) (oNow demoCluster (snd s)) (nodeAt s 0) = Ok True" "mayAct demoCluster s 0"
    "VNodeGetKnownPod (nodeAt s 0) (GetPodKey (Some demoPod)) = None"
    using s(2) by (simp_all add: demoLed_def Let_def mayAct_def VNodeGetKnownPod_def GetKnownPod_def
        GetVNode_def GetVNodeByNodeName_def)
  let ?s1 = "onVNode 0 (VNodeSyncEnqueue demoCluster ?k) (onVNode 0 (AddKnowPod demoPod) s)"
  have "podAddHandler demoCluster demoPod s = Returns ?s1" using podAdd_new [OF led] by simp
  then have reach: "vcReachable ?s1" by (rule vcNext [OF s(1) PodAdd])
  let ?w = "podController (nodeAt s 0)" and ?p = "enter (podController (nodeAt ?s1 0)) ()"
  have "knownPods ?p ?k = Some (kpFresh ?w)"
    "kpHeap ?p (kpFresh ?w) = \<lparr>lastPodStatusReceivedFromProvider = demoPod, lastPodUsed = None, lastPodStatusUpdateSkipped = False\<rparr>"
    "vPodStore (vprovider (world ?p)) = NewVPodStore" "syncPodStatusFromProvider ?p = New ()"
    using s(2) by (simp_all add: demoLed_def Let_def onVNode_at VNodeSyncEnqueue_eq known_ops_eq AddKnownPod_def enter_def)
  note state = this
  then obtain p where p: "syncPodsFromKubernetesHandler (kubeletEnv demoCluster) ?k ?p = Returns (None, p)"
    "knownPods p ?k = Some (kpFresh ?w)" "lastPodStatusReceivedFromProvider (kpHeap p (kpFresh ?w)) = demoPod"
    "storedPods p ?k = Some demoPod" "syncPodStatusFromProvider p = New ()"
    using demo_handler [OF state(1-3)] by auto
  let ?q = "fst (leave p)" and ?c = "fst ?s1"
  let ?s2 = "(?c\<lparr>vNodeStore := setVNode 0 ((vnHeap (vNodeStore ?c) 0)\<lparr>podController := ?q\<rparr>) (vNodeStore ?c)\<rparr>, ())"
  have "vcStep (?c, ()) ?s2" by (rule Work [OF SyncHandle [OF p(1)], of _ "()"]) (simp add: prod_eq_iff)
  moreover have "vcReachable (?c, ())" using reach by (metis old.unit.exhaust prod.collapse)
  ultimately have "vcReachable ?s2" by (metis vcNext)
  moreover have "demoStored ?s2"
    using s(2) p(2-5) by (simp add: demoStored_def demoLed_def Let_def setVNode_def leave_def storedPods_def onVNode_rest
       onVNode_at VNodeSyncEnqueue_eq known_ops_eq GetVNode_def IsLeader_def)
  ultimately show ?thesis by blast
qed


definition demoReport :: BizStatusData where
  "demoReport = \<lparr>b_Key = ''biz:'', b_Name = ''biz'', PodKey = '''', b_State = BizStateActivated,
     ChangeTime = GoTime second, b_Reason = '''', b_Message = ''''\<rparr>"

definition demoTunnelEnv :: "unit tunnelEnv" where
  "demoTunnelEnv = \<lparr>cacheNode = (\<lambda>_ x. (Inl (ErrAPI NotFound), x)), cacheListPods = (\<lambda>_ x. (([demoPod], None), x)),
     rangeConditions = [], rangePods = [], clockNow = GoTime 1, clockNext = (\<lambda>_. GoTime 1)\<rparr>"

lemma status_report_reaches_cluster_witness:
  "\<exists>s s1 s2 pod. vcReachable s \<and>
     onSingleBizStatusArrived demoCluster demoTunnelEnv ''vnode.b.test'' demoReport s = Returns s1 \<and>
     runVNodeOp 0 (onKubelet (statusWork (kubeletEnv demoCluster) (GoTime 5) (GoTime 6) (GoTime 7))) s1 = Returns s2 \<and>
     nodePods s2 0 ''default/p'' = Some pod \<and> Phase (Status pod) = PodRunning"
proof -
  let ?d = "demoReport\<lparr>PodKey := ''default/p''\<rparr>" and ?n = "''vnode.b.test''"
  obtain s where s: "vcReachable s" "demoStored s" using demoStored_reachable by blast
  let ?w = "podController (nodeAt s 0)"
  obtain b where b: "knownPods ?w ''default/p'' = Some b" "lastPodStatusReceivedFromProvider (kpHeap ?w b) = demoPod"
    "GetPodByKey (vPodStore (world ?w)) ''default/p'' = Some demoPod" "syncPodStatusFromProvider ?w = New ()"
    using s(2) by (auto simp: demoStored_def Let_def)
  obtain st where st: "GetPodStatus (GoTime 1) (GoTime 1) demoPod ?d (world ?w) = Ok st" "Phase st = PodRunning"
    by (simp add: GetPodStatus_def statusMap_def zeroPodStatus_def demoReport_def ConvertBizStatusToContainerStatus_def
      countStatus_def zeroCounts_def phaseOf_def pendingContainerStatus_def EqualFold_def Let_def prefix_def)
  have "\<exists>s1 s2. onSingleBizStatusArrived demoCluster demoTunnelEnv ?n demoReport s = Returns s1 \<and>
    runVNodeOp 0 (onKubelet (statusWork (kubeletEnv demoCluster) (GoTime 5) (GoTime 6) (GoTime 7))) s1 = Returns s2 \<and>
    snd s2 = () \<and> nodePods s2 0 = (nodePods s 0)(PodKey ?d \<mapsto> demoPod\<lparr>Status := st\<rparr>) \<and>
    statusOwed s2 0 = statusOwed s 0 - {PodKey ?d} \<and> vcReachable s2"
  proof (rule status_report_reaches_cluster [OF s(1), where b = b and k8s = demoPod and c = demoPod and ns = "''default''"
        and m = "''p''" and ns' = "''default''" and m' = "''p''" and ?x0.0 = "()" and ?x1.0 = "()" and ?x2.0 = "()" and e = None
        and pods = "[demoPod]"])
    show "GetVNode (vNodeStore (fst s)) ?n = Some 0"
      "IsLeader (clientID (fst s)) (oNow demoCluster (snd s)) (nodeAt s 0) = Ok True"
      using s(2) by (simp_all add: demoStored_def)
    show "cacheListPods demoTunnelEnv ?n (snd s) = (([demoPod], None), ())" by (simp add: demoTunnelEnv_def)
    show "FillPodKey [demoPod] [demoReport] = ([?d], [])"
      by (simp add: FillPodKey_def bizKeyToPodKey_def fillOne_def demoReport_def GetBizUniqueKey_def getBizIdentity_def
        getBizVersionFromContainer_def prefix_def)
    show "CheckContainerStatusNeedSync demoPod ?d"
      by (simp add: CheckContainerStatusNeedSync_def oldChangeTime_def matchedContainer_def matchedStatus_def zeroPodStatus_def
         demoReport_def go_defs)
    show "lastPodStatusReceivedFromProvider (kpHeap ?w b) \<noteq> demoPod\<lparr>Status := st\<rparr>"
    proof
      assume "lastPodStatusReceivedFromProvider (kpHeap ?w b) = demoPod\<lparr>Status := st\<rparr>"
      then have "Status (lastPodStatusReceivedFromProvider (kpHeap ?w b)) = st" by simp
      then have "st = Status demoPod" by (simp only: b(2))
      then show False using st(2) by (simp add: zeroPodStatus_def phase_defs)
    qed
  qed (use b st in \<open>simp_all add: nodePods_def demoReport_def demoTunnelEnv_def GetNameSpaceAndNameFromPodKey_def New_def
      go_defs startTime_cases quietLimiter_def shouldSkipPodStatusUpdate_def zeroPodStatus_def phase_defs GetPodKey_def
      gotime_order\<close>)
  then obtain s1 s2 where "onSingleBizStatusArrived demoCluster demoTunnelEnv ?n demoReport s = Returns s1"
    "runVNodeOp 0 (onKubelet (statusWork (kubeletEnv demoCluster) (GoTime 5) (GoTime 6) (GoTime 7))) s1 = Returns s2"
    "nodePods s2 0 ''default/p'' = Some (demoPod\<lparr>Status := st\<rparr>)" by auto
  with s(1) st(2) show ?thesis
    by (intro exI [of _ s] exI [of _ s1] exI [of _ s2] exI [of _ "demoPod\<lparr>Status := st\<rparr>"]) simp
qed

end
