(* ===== verification/HealthyNode.thy ===== *)
theory HealthyNode
  imports VNodeController_Spec
begin

text \<open>
  The timers of a node that is led, all together: the election, the health fetch, the query of
  the bizs, the look whether the node is dead, the reports of the base, and the pod events. As long
  as they run on time and the calls of the API and the tunnel are quick, the client goes on leading the
  node, the node stays reachable, and nothing shuts it down.
\<close>

section \<open>A quick world\<close>

text \<open>The world tells the lease and its clock. A step of it that leaves the lease alone and takes at
  most some time:\<close>

definition within :: "('x \<Rightarrow> Lease option) \<Rightarrow> ('x \<Rightarrow> int) \<Rightarrow> duration \<Rightarrow> 'x \<Rightarrow> 'x \<Rightarrow> bool" where
  "within cur clk e x x' \<longleftrightarrow> cur x' = cur x \<and> clk x \<le> clk x' \<and> clk x' \<le> clk x + e"

record ('r, 'x) surroundings =
  theOutside :: "('r, 'x) outside"
  theLeases :: "'x leaseEnv"
  theTunnel :: "'x tunnelEnv"
  theFetches :: "'x connectEnv"
  passes :: "duration \<Rightarrow> 'x \<Rightarrow> 'x"

text \<open>
  Calls of the lease API, of the cache and of the tunnel, and the callback for the status of the node,
  take at most \<open>d\<close> each; the controller reads the clock of the world; and time passes.
\<close>

definition quick ::
  "('r, 'x) surroundings \<Rightarrow> (Node \<Rightarrow> 'x \<Rightarrow> 'x) \<Rightarrow> ('x \<Rightarrow> Lease option) \<Rightarrow> ('x \<Rightarrow> int) \<Rightarrow> duration \<Rightarrow> bool" where
  "quick u cb cur clk d \<longleftrightarrow>
     0 \<le> d \<and> prompt_api (theLeases u) cur clk d \<and>
     (\<forall>x. oNow (theOutside u) x = GoTime (clk x)) \<and>
     (\<forall>n x. within cur clk d x (snd (cacheNode (theTunnel u) n x))) \<and>
     (\<forall>node x. within cur clk d x (cb node x)) \<and>
     (\<forall>n x. within cur clk d x (snd (tunnelFetchHealthData (theFetches u) n x))) \<and>
     (\<forall>n x. within cur clk d x (snd (tunnelQueryAllBizStatusData (theFetches u) n x))) \<and>
     (\<forall>p x. 0 \<le> p \<longrightarrow> within cur clk p x (passes u p x))"

lemma quickD:
  assumes "quick u cb cur clk d"
  shows "0 \<le> d" "prompt_api (theLeases u) cur clk d" "oNow (theOutside u) x = GoTime (clk x)"
    "within cur clk d x (snd (cacheNode (theTunnel u) n x))" "within cur clk d x (cb node x)"
    "within cur clk d x (snd (tunnelFetchHealthData (theFetches u) n x))"
    "within cur clk d x (snd (tunnelQueryAllBizStatusData (theFetches u) n x))"
    "0 \<le> p \<Longrightarrow> within cur clk p x (passes u p x)"
  using assms unfolding quick_def by blast+

lemma within_trans: "within cur clk e x y \<Longrightarrow> within cur clk e' y z \<Longrightarrow> within cur clk (e + e') x z"
  by (simp add: within_def)

section \<open>What happens to a node\<close>

datatype duty =
    Elect | FetchHealth | QueryBizs | LookIfDead | Report NodeStatusData | PodEvent "Pod watchEvent"

text \<open>The timed tasks are those that the controller starts, the others its callbacks.\<close>

fun perform :: "('r, 'x) surroundings \<Rightarrow> string \<Rightarrow> addr \<Rightarrow> duty \<Rightarrow> ('r, 'x) vcState \<Rightarrow> ('r, 'x) vcState run" where
  "perform u n a Elect s = taskBody (startLeaderElection (theLeases u) a) s"
| "perform u n a FetchHealth s = taskBody (connectWithInterval (theOutside u) (theFetches u) a s ! 0) s"
| "perform u n a QueryBizs s = taskBody (connectWithInterval (theOutside u) (theFetches u) a s ! 1) s"
| "perform u n a LookIfDead s = taskBody (connectWithInterval (theOutside u) (theFetches u) a s ! 2) s"
| "perform u n a (Report data) s = onBaseStatusArrived (theOutside u) (theTunnel u) n data s"
| "perform u n a (PodEvent e) s = podHandler (\<lambda>_. True) True (theOutside u) e s"

text \<open>A schedule: each duty comes some time after the one before is done.\<close>

fun happen ::
  "('r, 'x) surroundings \<Rightarrow> string \<Rightarrow> addr \<Rightarrow> (duration \<times> duty) list \<Rightarrow> ('r, 'x) vcState \<Rightarrow> ('r, 'x) vcState run" where
  "happen u n a [] s = Returns s"
| "happen u n a ((p, e) # ds) (c, x) =
     (case perform u n a e (c, passes u p x) of
        Returns s \<Rightarrow> happen u n a ds s
      | Panics \<Rightarrow> Panics
      | Diverges \<Rightarrow> Diverges)"

text \<open>
  A schedule is on time, \<open>r\<close> after the end of the last election and \<open>h\<close> after the last report: when
  anything happens, the last election is at most the update period back, and the last report is not
  as old as makes a node unreachable. The durations of the duties count.
\<close>

abbreviation electionPeriod :: duration where
  "electionPeriod \<equiv> second * NodeLeaseUpdatePeriodSeconds"

fun eventPod :: "Pod watchEvent \<Rightarrow> Pod" where
  "eventPod (Created pod) = pod"
| "eventPod (Updated oldPod newPod) = newPod"
| "eventPod (Deleted pod) = pod"
| "eventPod (Generic pod) = pod"

fun onTime :: "duration \<Rightarrow> string \<Rightarrow> duration \<Rightarrow> duration \<Rightarrow> (duration \<times> duty) list \<Rightarrow> bool" where
  "onTime d n r h [] \<longleftrightarrow> r \<le> electionPeriod \<and> h \<le> NodeToUnreachableMaxSeconds * second"
| "onTime d n r h ((p, e) # ds) \<longleftrightarrow>
     0 \<le> p \<and> r + p \<le> electionPeriod \<and> h + p \<le> NodeToUnreachableMaxSeconds * second \<and>
     (case e of
        Elect \<Rightarrow> onTime d n 0 (h + p + 6 * d) ds
      | FetchHealth \<Rightarrow> onTime d n (r + p + d) (h + p + d) ds
      | QueryBizs \<Rightarrow> onTime d n (r + p + d) (h + p + d) ds
      | LookIfDead \<Rightarrow> onTime d n (r + p) (h + p) ds
      | Report data \<Rightarrow>
          if NodeState data = '''' then onTime d n (r + p + 2 * d) (h + p + 2 * d) ds
          else EqualFold (NodeState data) NodeStateActivated \<and> onTime d n (r + p + 2 * d) 0 ds
      | PodEvent e \<Rightarrow> NodeName (eventPod e) = n \<and> onTime d n (r + p) (h + p) ds)"

section \<open>The state of a healthy node\<close>

text \<open>What the duties leave alone, or set anew.\<close>

definition healthy ::
  "('x \<Rightarrow> Lease option) \<Rightarrow> ('x \<Rightarrow> int) \<Rightarrow> duration \<Rightarrow> (Node \<Rightarrow> 'x \<Rightarrow> 'x) \<Rightarrow> string \<Rightarrow> string \<Rightarrow> addr \<Rightarrow> bool \<Rightarrow> bool \<Rightarrow>
   duration \<Rightarrow> duration \<Rightarrow> ('r, 'x) vcState \<Rightarrow> bool" where
  "healthy cur clk d cb c n a ready exited r h s \<longleftrightarrow>
     nodeNameToVNode (vNodeStore (fst s)) n = Some a \<and> clientID (fst s) = c \<and>
     renewed c (clk (snd s)) (electionPeriod + 8 * d + r) (lease (nodeAt s a)) \<and>
     renewed c (clk (snd s)) (2 * d + r) (cur (snd s)) \<and>
     \<not> isClose (liveness (nodeAt s a)) \<and> clk (snd s) \<le> nanos (LatestHeartBeatTime (liveness (nodeAt s a))) + h \<and>
     notifyNode (nodeProvider (nodeAt s a)) = Some cb \<and> IsReady (nodeAt s a) = ready \<and>
     exitClosed (nodeAt s a) = exited"

text \<open>A step of the world ages the lease and the last report, whatever it does to the pods of the node.\<close>

definition sameHealth :: "addr \<Rightarrow> ('r, 'x) vcState \<Rightarrow> ('r, 'x) vcState \<Rightarrow> bool" where
  "sameHealth a s s' \<longleftrightarrow>
     nodeNameToVNode (vNodeStore (fst s')) = nodeNameToVNode (vNodeStore (fst s)) \<and> clientID (fst s') = clientID (fst s) \<and>
     lease (nodeAt s' a) = lease (nodeAt s a) \<and> liveness (nodeAt s' a) = liveness (nodeAt s a) \<and>
     nodeProvider (nodeAt s' a) = nodeProvider (nodeAt s a) \<and> readyClosed (nodeAt s' a) = readyClosed (nodeAt s a) \<and>
     exitClosed (nodeAt s' a) = exitClosed (nodeAt s a)"

lemma sameHealth_refl [simp]: "sameHealth a s s"
  by (simp add: sameHealth_def)

lemma sameHealth_trans: "sameHealth a s t \<Longrightarrow> sameHealth a t u \<Longrightarrow> sameHealth a s u"
  by (simp add: sameHealth_def)

lemma healthy_later:
  assumes "healthy cur clk d cb c n a ready exited r h s" "sameHealth a s s'" "within cur clk e (snd s) (snd s')"
  shows "healthy cur clk d cb c n a ready exited (r + e) (h + e) s'"
proof -
  have "renewed c (clk (snd s')) (electionPeriod + 8 * d + (r + e)) (lease (nodeAt s a))"
    "renewed c (clk (snd s')) (2 * d + (r + e)) (cur (snd s))"
    using assms(1,3) by (auto simp: healthy_def within_def elim!: renewed_mono)
  with assms show ?thesis by (simp add: healthy_def sameHealth_def within_def IsReady_def)
qed

lemma healthy_leads:
  assumes "healthy cur clk d cb c n a ready exited r h s" "c \<noteq> ''''" "8 * d \<le> 20 * second" "r \<le> electionPeriod"
  shows "IsLeader c (GoTime (clk (snd s))) (nodeAt s a) = Ok True"
proof (rule renewed_leads)
  show "renewed c (clk (snd s)) (electionPeriod + 8 * d + r) (lease (nodeAt s a))" using assms(1) by (simp add: healthy_def)
qed (use assms(2-4) in \<open>simp_all add: const_defs second_def\<close>)

lemma healthy_reachable:
  assumes "healthy cur clk d cb c n a ready exited r h s" "h \<le> NodeToUnreachableMaxSeconds * second"
  shows "IsReachable (GoTime (clk (snd s))) (liveness (nodeAt s a))"
  using assms by (simp add: healthy_def IsReachable_def go_defs const_defs)

section \<open>The duties of a healthy node\<close>

lemma sameHealth_pod_ops:
  "sameHealth a s (onVNode b (VNodeSyncEnqueue o' k) s)" "snd (onVNode b (VNodeSyncEnqueue o' k) s) = snd s"
  "sameHealth a s (onVNode b (VNodeDeleteForget k) s)" "snd (onVNode b (VNodeDeleteForget k) s) = snd s"
  "sameHealth a s (onVNode b (AddKnowPod pod) s)" "snd (onVNode b (AddKnowPod pod) s) = snd s"
  "sameHealth a s (onVNode b (VNodeDeleteKnownPod k) s)" "snd (onVNode b (VNodeDeleteKnownPod k) s) = snd s"
  by (simp_all add: sameHealth_def onVNode_at onVNode_rest VNodeSyncEnqueue_eq known_ops_eq)

lemma healthy_gate:
  assumes "healthy cur clk d cb c n a ready exited r h s" "quick u cb cur clk d" "c \<noteq> ''''" "8 * d \<le> 20 * second"
    "r \<le> electionPeriod"
  shows "asLeader (theOutside u) a f s = f s"
proof -
  have "IsLeader (clientID (fst s)) (oNow (theOutside u) (snd s)) (nodeAt s a) = Ok True"
    using healthy_leads [OF assms(1,3-5)] assms(1) quickD(3) [OF assms(2)] by (simp add: healthy_def)
  then show ?thesis by (simp add: asLeader_def)
qed

lemma healthy_valid:
  assumes "healthy cur clk d cb c n a ready exited r h s" "quick u cb cur clk d" "h \<le> NodeToUnreachableMaxSeconds * second"
  shows "ifValid (theOutside u) a f s = Returns (if IsReady (nodeAt s a) then f s else s)"
  using healthy_reachable [OF assms(1,3)] quickD(3) [OF assms(2)]
  by (simp add: ifValid_def isValidStatus_def Let_def IsReachable_not_dead)

lemma healthy_same:
  "healthy cur clk d cb c n a ready exited r h s \<Longrightarrow> sameHealth a s s' \<Longrightarrow> snd s' = snd s \<Longrightarrow>
   healthy cur clk d cb c n a ready exited r h s'"
  using healthy_later [of cur clk d cb c n a ready exited r h s s' 0] by (simp add: within_def)

lemma sameHealth_knowPod: "sameHealth a s (knowPod b pod s)" "snd (knowPod b pod s) = snd s"
  by (simp_all add: knowPod_def sameHealth_pod_ops)

lemma pod_event_keeps_health:
  assumes s: "healthy cur clk d cb c n a ready exited r h s" and u: "quick u cb cur clk d"
    and b: "c \<noteq> ''''" "8 * d \<le> 20 * second" "r \<le> electionPeriod" "h \<le> NodeToUnreachableMaxSeconds * second"
    and e: "NodeName (eventPod e) = n"
  shows "\<exists>s'. podHandler (\<lambda>_. True) True (theOutside u) e s = Returns s' \<and> sameHealth a s s' \<and> snd s' = snd s"
proof -
  have at: "nodeNameToVNode (vNodeStore (fst s)) n = Some a" using s by (simp add: healthy_def)
  have know: "healthy cur clk d cb c n a ready exited r h (knowPod a pod s)" for pod
    by (rule healthy_same [OF s sameHealth_knowPod])
  note gates = healthy_gate [OF s u b(1-3)] healthy_gate [OF know u b(1-3)]
    healthy_valid [OF s u b(4)] healthy_valid [OF know u b(4)]
  note same = sameHealth_pod_ops sameHealth_knowPod sameHealth_trans [OF sameHealth_knowPod(1) sameHealth_pod_ops(1)]
    sameHealth_trans [OF sameHealth_pod_ops(7) sameHealth_trans [OF sameHealth_pod_ops(1) sameHealth_pod_ops(3)]]
  show ?thesis
  proof (cases e)
    case (Created pod)
    with e at show ?thesis by (simp add: podHandler_def podAddHandler_def GetVNodeByNodeName_def Let_def gates same del: split_paired_Ex)
  next
    case (Updated old pod)
    with e at show ?thesis by (simp add: podHandler_def podUpdateHandler_def GetVNodeByNodeName_def Let_def gates same del: split_paired_Ex)
  next
    case (Deleted pod)
    with e at show ?thesis by (simp add: podHandler_def podDeleteHandler_def GetVNodeByNodeName_def Let_def gates same del: split_paired_Ex)
  qed (simp add: podHandler_def del: split_paired_Ex)
qed

lemma election_keeps_health:
  assumes s: "healthy cur clk d cb c n a ready exited r h s" and u: "quick u cb cur clk d"
    and b: "c \<noteq> ''''" "18 * d \<le> 20 * second" "r \<le> electionPeriod"
  shows "\<exists>s'. perform u n a Elect s = Returns s' \<and> healthy cur clk d cb c n a ready exited 0 (h + 6 * d) s'"
proof -
  obtain k x where k: "s = (k, x)" by (cases s)
  let ?v = "vnHeap (vNodeStore k) a"
  have v: "renewed c (clk x) (electionPeriod + 8 * d + r) (lease ?v)" and x: "renewed c (clk x) (2 * d + r) (cur x)"
    and id: "clientID k = c" using s by (simp_all add: healthy_def k)
  have bounds: "electionPeriod + 8 * d + r + 3 * d \<le> second * NodeLeaseDurationSeconds"
    "2 * d + r + 4 * d \<le> second * NodeLeaseDurationSeconds"
    using b(2,3) quickD(1) [OF u] by (simp_all add: const_defs second_def)
  obtain v' x' where 1: "createOrRetryUpdateLease (theLeases u) c (?v, x) = Returns (v', x')" "clk x \<le> clk x'" "clk x' \<le> clk x + 6 * d"
    "renewed c (clk x') (2 * d + r + 6 * d) (lease v')" "renewed c (clk x') (2 * d) (cur x')"
    using run_renews [OF quickD(2) [OF u] b(1) quickD(1) [OF u] v bounds(1) x bounds(2)] by blast
  have "elected ?v v'" using 1(1) unfolding createOrRetryUpdateLease_def by (rule leaseLoop_elected)
  note rest = electedD [OF this]
  have "renewed c (clk x') (electionPeriod + 8 * d) (lease v')" by (rule renewed_mono [OF 1(4)]) (use b(3) in simp)
  then have "healthy cur clk d cb c n a ready exited 0 (h + 6 * d) (k\<lparr>vNodeStore := setVNode a v' (vNodeStore k)\<rparr>, x')"
    using s 1(3,5) rest by (simp add: healthy_def k setVNode_def IsReady_def)
  then show ?thesis using 1(1) by (simp add: startLeaderElection_def runVNodeOp_def k id)
qed

lemma report_keeps_health:
  assumes s: "healthy cur clk d cb c n a ready exited r h s" and u: "quick u cb cur clk d"
    and b: "c \<noteq> ''''" "8 * d \<le> 20 * second" "r \<le> electionPeriod"
    and up: "NodeState data = '''' \<or> EqualFold (NodeState data) NodeStateActivated"
  shows "\<exists>s'. perform u n a (Report data) s = Returns s' \<and>
    healthy cur clk d cb c n a ready exited (r + 2 * d) (if NodeState data = '''' then h + 2 * d else 0) s'"
proof -
  obtain k x where k: "s = (k, x)" by (cases s)
  let ?v = "vnHeap (vNodeStore k) a" and ?p = "nodeProvider (vnHeap (vNodeStore k) a)"
  have at: "nodeNameToVNode (vNodeStore k) n = Some a" and cb: "notifyNode ?p = Some cb"
    using s by (simp_all add: healthy_def k)
  obtain g x1 where g: "cacheNode (theTunnel u) (bc_NodeName (nodeConfig ?p)) x = (g, x1)" by fastforce
  have x1: "within cur clk d x x1" using quickD(4) [OF u, of x] g by (metis snd_conv)
  define x2 where "x2 = (case g of Inl _ \<Rightarrow> x1 | Inr node \<Rightarrow> cb (MergeNodeFromProvider (rangeConditions (theTunnel u)) node data) x1)"
  have "within cur clk d x1 x2"
    using quickD(1,5) [OF u] by (cases g) (simp_all add: x2_def, simp add: within_def)
  from within_trans [OF x1 this] have x2: "within cur clk (2 * d) x x2" by simp
  have sync: "runVNodeOp a (SyncNodeStatus (cacheNode (theTunnel u)) (rangeConditions (theTunnel u)) data) s = Returns (k\<lparr>vNodeStore := setVNode a ?v (vNodeStore k)\<rparr>, x2)"
    using g cb by (cases g) (simp_all add: k runVNodeOp_def SyncNodeStatus_def Notify_def x2_def Let_def)
  let ?s = "(k\<lparr>vNodeStore := setVNode a ?v (vNodeStore k)\<rparr>, x2)"
  let ?t = "(k\<lparr>vNodeStore := setVNode a (?v\<lparr>liveness := UpdateHeartBeatTime (GoTime (clk x2)) (liveness ?v)\<rparr>) (vNodeStore k)\<rparr>, x2)"
  have "sameHealth a s ?s" by (simp add: sameHealth_def setVNode_def k)
  from healthy_later [OF s this] x2 k
  have later: "healthy cur clk d cb c n a ready exited (r + 2 * d) (h + 2 * d) ?s" by simp
  show ?thesis
  proof (cases "NodeState data = ''''")
    case True
    then have "perform u n a (Report data) s = Returns ?s"
      using at sync healthy_gate [OF s u b] by (simp add: onBaseStatusArrived_def GetVNode_def k)
    with later True show ?thesis by (simp del: split_paired_Ex)
  next
    case False
    with up have active: "EqualFold (NodeState data) NodeStateActivated" by simp
    have "perform u n a (Report data) s = Returns ?t"
      using at False active sync quickD(3) [OF u, of x2] healthy_gate [OF s u b]
      by (simp add: onBaseStatusArrived_def GetVNode_def k onStore_def UpdateNodeStateOnProviderArrived_def setVNode_def Let_def)
    moreover have "healthy cur clk d cb c n a ready exited (r + 2 * d) 0 ?t"
      using later by (simp add: healthy_def setVNode_def UpdateHeartBeatTime_def IsReady_def)
    ultimately show ?thesis using False by (simp del: split_paired_Ex)
  qed
qed

lemma timers_keep_health:
  assumes s: "healthy cur clk d cb c n a ready exited r h s" and u: "quick u cb cur clk d"
  shows "e \<in> {FetchHealth, QueryBizs} \<Longrightarrow>
      \<exists>s'. perform u n a e s = Returns s' \<and> healthy cur clk d cb c n a ready exited (r + d) (h + d) s'"
    and "h \<le> NodeToUnreachableMaxSeconds * second \<Longrightarrow> perform u n a LookIfDead s = Returns s"
proof -
  obtain k x where k: "s = (k, x)" by (cases s)
  have "healthy cur clk d cb c n a ready exited (r + d) (h + d) (k, x')" if "within cur clk d x x'" for x'
    by (rule healthy_later [OF s]) (use that in \<open>simp_all add: k sameHealth_def\<close>)
  then show "\<exists>s'. perform u n a e s = Returns s' \<and> healthy cur clk d cb c n a ready exited (r + d) (h + d) s'"
    if "e \<in> {FetchHealth, QueryBizs}"
    using that quickD(6,7) [OF u] by (auto simp: connectWithInterval_def Let_def k)
  show "perform u n a LookIfDead s = Returns s" if "h \<le> NodeToUnreachableMaxSeconds * second"
    using healthy_reachable [OF s that] quickD(3) [OF u]
    by (simp add: connectWithInterval_def checkDead_def Let_def IsReachable_not_dead)
qed

section \<open>A healthy node stays healthy\<close>

lemma happen_healthy:
  assumes u: "quick u cb cur clk d" and b: "c \<noteq> ''''" "18 * d \<le> 20 * second"
    and "healthy cur clk d cb c n a ready exited r h s" "onTime d n r h ds"
  shows "\<exists>r' h' s'. happen u n a ds s = Returns s' \<and> healthy cur clk d cb c n a ready exited r' h' s' \<and>
    r' \<le> electionPeriod \<and> h' \<le> NodeToUnreachableMaxSeconds * second"
  using assms(4,5)
proof (induction ds arbitrary: r h s)
  case Nil
  then show ?case by auto
next
  case (Cons pe ds)
  obtain p e where pe: "pe = (p, e)" by (cases pe)
  obtain k x where k: "s = (k, x)" by (cases s)
  let ?s = "(k, passes u p x)"
  note time = Cons.prems(2) [unfolded pe, simplified]
  have s: "healthy cur clk d cb c n a ready exited (r + p) (h + p) ?s"
    by (rule healthy_later [OF Cons.prems(1)]) (use time quickD(8) [OF u] k in \<open>simp_all add: sameHealth_def\<close>)
  have d: "8 * d \<le> 20 * second" using b(2) quickD(1) [OF u] by simp
  have go: ?case if "perform u n a e ?s = Returns s'" "healthy cur clk d cb c n a ready exited r' h' s'" "onTime d n r' h' ds"
    for r' h' s'
    using Cons.IH [OF that(2,3)] that(1) by (simp add: pe k)
  have fetch: ?case if e: "e \<in> {FetchHealth, QueryBizs}"
  proof -
    obtain s' where s': "perform u n a e ?s = Returns s'" "healthy cur clk d cb c n a ready exited (r + p + d) (h + p + d) s'"
      using timers_keep_health(1) [OF s u e] by blast
    show ?case by (rule go [OF s']) (use time e in auto)
  qed
  show ?case
  proof (cases e)
    case Elect
    with election_keeps_health [OF s u b] time go show ?thesis by auto
  next
    case (Report data)
    with time have up: "NodeState data = '''' \<or> EqualFold (NodeState data) NodeStateActivated" by (simp split: if_splits)
    obtain s' where s': "perform u n a e ?s = Returns s'"
      "healthy cur clk d cb c n a ready exited (r + p + 2 * d) (if NodeState data = '''' then h + p + 2 * d else 0) s'"
      using report_keeps_health [OF s u b(1) d _ up] time Report by blast
    show ?thesis by (rule go [OF s']) (use time Report in \<open>simp split: if_splits\<close>)
  next
    case (PodEvent e')
    with time have here: "NodeName (eventPod e') = n" by simp
    obtain s' where "perform u n a e ?s = Returns s'" "healthy cur clk d cb c n a ready exited (r + p) (h + p) s'"
      using pod_event_keeps_health [OF s u b(1) d _ _ here] healthy_same [OF s] time PodEvent by fastforce
    with go time PodEvent show ?thesis by simp
  next
    case LookIfDead
    with timers_keep_health(2) [OF s u] s time go show ?thesis by auto
  qed (use fetch in simp_all)
qed

text \<open>C4. A healthy node stays healthy, whatever else its timers and messages do: from a state in which the
  client has just renewed the lease of a node and heard of its base, and in which the callback that
  reports the node's status is registered, run any schedule of the duties of the node in any order: its
  election, the fetches from the tunnel, the look whether it is dead, reports of its base that bear no
  state or that of an activated base, in upper or lower case, and events of its pods. Let its pauses
  make an election end at most the update period before anything that happens, and a report of an
  activated base arrive before the node counts as unreachable. If no call, that of the callback
  included, takes longer than a given time, eighteen of which fit into twenty seconds, and the lease API
  does not fail, then no duty blocks or panics, and at the end the client still leads the node, the node
  is reachable and not dead, is stored under its name, acts on the events of pods exactly if it was
  ready, and its exit was not signalled unless it was before.\<close>

theorem healthy_node_stays_healthy:
  assumes "quick u cb cur clk d" "18 * d \<le> 20 * second" "clientID (fst s) = c" "c \<noteq> ''''"
    "GetVNode (vNodeStore (fst s)) n = Some a" "notifyNode (nodeProvider (nodeAt s a)) = Some cb"
    "lease (nodeAt s a) = Some l" "cur (snd s) = Some l" "l_HolderIdentity l = Some c"
    "l_RenewTime l = Some (GoTime (clk (snd s)))"
    "liveness (nodeAt s a) = UpdateHeartBeatTime (GoTime (clk (snd s))) before"
    "onTime d n 0 0 ds"
  shows "\<exists>s'. happen u n a ds s = Returns s' \<and> GetVNode (vNodeStore (fst s')) n = Some a \<and>
    IsLeader c (oNow (theOutside u) (snd s')) (nodeAt s' a) = Ok True \<and>
    livenessOf (oNow (theOutside u) (snd s')) (liveness (nodeAt s' a)) = Reachable \<and>
    mayAct (theOutside u) s' a = IsReady (nodeAt s a) \<and>
    exitClosed (nodeAt s' a) = exitClosed (nodeAt s a)"
proof -
  have "healthy cur clk d cb c n a (IsReady (nodeAt s a)) (exitClosed (nodeAt s a)) 0 0 s"
    using assms(3,5-11) quickD(1) [OF assms(1)]
    by (simp add: healthy_def renewed_def GetVNode_def UpdateHeartBeatTime_def const_defs second_def)
  from happen_healthy [OF assms(1,4,2) this assms(12)] obtain r h s'
    where run: "happen u n a ds s = Returns s'"
      and s': "healthy cur clk d cb c n a (IsReady (nodeAt s a)) (exitClosed (nodeAt s a)) r h s'"
      and bounds: "r \<le> electionPeriod" "h \<le> NodeToUnreachableMaxSeconds * second" by blast
  have "8 * d \<le> 20 * second" using assms(2) quickD(1) [OF assms(1)] by simp
  note led = healthy_leads [OF s' assms(4) this bounds(1)] and reach = healthy_reachable [OF s' bounds(2)]
  from run s' led reach quickD(3) [OF assms(1)] show ?thesis
    by (intro exI [of _ s'])
      (simp add: healthy_def GetVNode_def mayAct_def livenessOf_def IsReachable_not_dead)
qed

text \<open>A node on a base that answers, in a world of one second per call.\<close>

definition timedOutside :: "(unit, Lease option \<times> gotime) outside" where
  "timedOutside =
     \<lparr>oStart = (\<lambda>_ _ _ x. (None, x)), oStop = (\<lambda>_ _ _ x. (None, x)),
      oCacheGet = (\<lambda>_ _ x. (Inl (ErrAPI NotFound), x)), oApiGet = (\<lambda>_ _ x. (Inl (ErrAPI NotFound), x)),
      oDelete = (\<lambda>_ _ _ x. (None, x)), oStatusUpdate = (\<lambda>_ x. (None, x)), oStatusPatch = (\<lambda>_ _ x. (None, x)),
      oEvent = (\<lambda>_ _ _ x. x), oNow = snd, oElapse = (\<lambda>x. ([], x)),
      oTrackerConfig = \<lparr>LogDir = '''', ReportLevel = ''error'', ReportLinks = None\<rparr>,
      oRecord = (\<lambda>_ x. x), oReport = (\<lambda>_ x. x), oCtxWait = sampleWait, oTimedOut = (\<lambda>n. n = 60),
      oMetaKey = (\<lambda>p. Inr (GetPodKey (Some p))), oSplitKey = (\<lambda>_. Inr ('''', '''')),
      oErrorText = (\<lambda>_. ''''), oLimiters = (quietLimiter, quietLimiter, quietLimiter),
      oOrder = (\<lambda>_. []), oPodOrder = (\<lambda>_. []), oPolls = 2\<rparr>"

definition answeringBase :: "(unit, Lease option \<times> gotime) surroundings" where
  "answeringBase =
     \<lparr>theOutside = timedOutside, theLeases = demoLeaseEnv,
      theTunnel = \<lparr>cacheNode = (\<lambda>_ (l, t). (Inl (ErrAPI NotFound), l, Add t second)), cacheListPods = (\<lambda>_ x. (([], None), x)),
        rangeConditions = [], rangePods = [], clockNow = GoTime 0, clockNext = (\<lambda>_. GoTime 0)\<rparr>,
      theFetches = \<lparr>tunnelFetchHealthData = (\<lambda>_ (l, t). (None, l, Add t second)),
        tunnelQueryAllBizStatusData = (\<lambda>_ (l, t). (None, l, Add t second))\<rparr>,
      passes = (\<lambda>p (l, t). (l, Add t p))\<rparr>"

lemma answeringBase_quick:
  "quick answeringBase (\<lambda>_ (l, t). (l, Add t second)) fst (\<lambda>x. nanos (snd x)) second"
  using demoLeaseEnv_prompt
  by (auto simp: quick_def answeringBase_def timedOutside_def within_def second_def)

definition ledState :: "(unit, Lease option \<times> gotime) vcState" where
  "ledState =
     (\<lparr>clientID = ''a'', vc_env = ''test'', vPodType = ''module'', isCluster = False, workloadMaxLevel = 0,
       vNodeWorkerNum = 1, pseudoNodeIP = '''',
       vNodeStore = \<lparr>nodeNameToVNode = [''vnode.a.test'' \<mapsto> 0], vnHeap = (\<lambda>_. demoVNode\<lparr>readyClosed := True,
           lease := Some freshDemoLease, liveness := UpdateHeartBeatTime (GoTime 0) \<lparr>isClose = False, LatestHeartBeatTime = zeroTime\<rparr>,
           nodeProvider := (nodeProvider (demoVNode :: (unit, Lease option \<times> gotime) VNode))\<lparr>notifyNode := Some (\<lambda>_ (l, t). (l, Add t second))\<rparr>\<rparr>),
         vnFresh = 1\<rparr>\<rparr>, Some freshDemoLease, GoTime 0)"

definition activated :: NodeStatusData where
  "activated = \<lparr>Resources = None, CustomConditions = None, NodeState = NodeStateActivated\<rparr>"

definition demoDay :: "(duration \<times> duty) list" where
  "demoDay =
     [(3 * second, FetchHealth), (second, Report activated), (0, Report (activated\<lparr>NodeState := ''''\<rparr>)), (second, Elect), (second, LookIfDead),
      (2 * second, PodEvent (Created (zeroPod\<lparr>NodeName := ''vnode.a.test''\<rparr>))), (5 * second, Elect), (second, QueryBizs)]"

lemma healthy_node_stays_healthy_witness:
  "\<exists>s'. happen answeringBase ''vnode.a.test'' 0 demoDay ledState = Returns s' \<and>
    GetVNode (vNodeStore (fst s')) ''vnode.a.test'' = Some 0 \<and>
    IsLeader ''a'' (snd (snd s')) (nodeAt s' 0) = Ok True \<and> mayAct timedOutside s' 0"
proof -
  have lease: "l_HolderIdentity freshDemoLease = Some ''a''" "l_RenewTime freshDemoLease = Some (GoTime 0)"
    by (simp_all add: freshDemoLease_def NewLease_def)
  have timed: "onTime second ''vnode.a.test'' 0 0 demoDay"
    by (simp add: demoDay_def activated_def EqualFold_def const_defs second_def)
  have env: "theOutside answeringBase = timedOutside" "oNow timedOutside x = snd x" for x
    by (simp_all add: answeringBase_def timedOutside_def)
  have at: "clientID (fst ledState) = ''a''" "GetVNode (vNodeStore (fst ledState)) ''vnode.a.test'' = Some 0"
    "notifyNode (nodeProvider (nodeAt ledState 0)) = Some (\<lambda>_ (l, t). (l, Add t second))"
    "lease (nodeAt ledState 0) = Some freshDemoLease" "snd ledState = (Some freshDemoLease, GoTime 0)"
    "liveness (nodeAt ledState 0) = UpdateHeartBeatTime (GoTime 0) \<lparr>isClose = False, LatestHeartBeatTime = zeroTime\<rparr>"
    "IsReady (nodeAt ledState 0)"
    by (simp_all add: ledState_def GetVNode_def IsReady_def)
  from healthy_node_stays_healthy [where before = "\<lparr>isClose = False, LatestHeartBeatTime = zeroTime\<rparr>", OF answeringBase_quick _ at(1) _ at(2,3,4) _ lease(1) _ _ timed]
  show ?thesis by (auto simp: at lease env second_def)
qed

end
