(* ===== verification/Handover.thy ===== *)
theory Handover
  imports HealthyNode
begin

text \<open>
  What becomes of a node when another client takes its lease. The client that ran the node learns of it
  in its next election and is told to release the node; from then on it acts on nothing that concerns the
  node. The signal is sent once and is not kept: when nobody waits for it, it is lost, and the node is never
  released.
\<close>

section \<open>A lease that another client holds\<close>

definition heldBy :: "string \<Rightarrow> Lease option \<Rightarrow> bool" where
  "heldBy h l \<longleftrightarrow> (\<exists>a. l = Some a \<and> l_HolderIdentity a = Some h)"

lemma heldBy_IsLeader: "heldBy h (lease v) \<Longrightarrow> h \<noteq> c \<Longrightarrow> IsLeader c t v = Ok False"
  by (auto simp: heldBy_def IsLeader_def)

lemma election_told:
  assumes "leaseGet env (vn_name v) NamespaceNodeLease (leaseSleep env x) = (Inr l, x1)"
    "leaseNow env x1 = (t1, x2)" "leaseNow env x2 = (t2, x3)"
    "l_HolderIdentity l = Some h" "h \<noteq> c" "IsLeader c t1 v = Ok True"
  shows "createOrRetryUpdateLease env c (v, x) = Returns (LeaderAcquiredByOthers (SetLease (Some l) v), x3)"
proof -
  have "IsLeader c t2 (SetLease (Some l) v) = Ok False"
    by (rule heldBy_IsLeader) (use assms(4,5) in \<open>simp_all add: heldBy_def\<close>)
  with assms show ?thesis
    by (simp add: createOrRetryUpdateLease_def NodeLeaseMaxRetryTimes_def eval_nat_numeral leaseRound_def useLease_def Let_def)
qed

text \<open>An event of a pod of a node that the client does not lead changes no queue.\<close>

lemma event_without_leadership:
  assumes "nodeNameToVNode (vNodeStore (fst s)) n = Some a" "NodeName (eventPod e) = n"
    "\<And>t. IsLeader (clientID (fst s)) t (nodeAt s a) = Ok False"
  shows "\<exists>s'. podHandler M True o' e s = Returns s' \<and> sameSync s s'"
proof -
  have same: "sameSync s s" by (simp add: sameSync_def)
  have know: "sameSync s (knowPod a pod s)" for pod
    by (rule sameSync_known)
  have led: "asLeader o' a f s = Returns s" "asLeader o' a f (knowPod a pod s) = Returns (knowPod a pod s)" for f pod
    using assms(3) know [of pod] by (simp_all add: asLeader_def sameSync_def IsLeader_def)
  from assms(1,2) same know show ?thesis
    by (cases e) (simp_all add: podHandler_def podAddHandler_def podUpdateHandler_def podDeleteHandler_def
        GetVNodeByNodeName_def Let_def led del: split_paired_Ex)
qed

section \<open>The handover\<close>

text \<open>C6. A handover is complete: when a client that runs a node, and leads it as far as it knows, reads in its
  next election that another client holds the lease, then the election returns, the take-over is told,
  and the client no longer leads the node, at whatever time it looks; releasing the node then
  makes it not ready and not taken over, unregisters it from the tunnel, and leaves every other node
  alone. From then on the reports of the base and of its bizs change nothing, and no event of a
  pod of the node reaches the queue of a node.\<close>

theorem handover_releases_node:
  fixes s :: "('r, 'x) vcState" and a :: addr
  assumes "GetVNode (vNodeStore (fst s)) n = Some a" "vn_name (nodeAt s a) = n" "clientID (fst s) = c"
    "awaitsOthers (nodeAt s a)"
    "leaseGet env n NamespaceNodeLease (leaseSleep env (snd s)) = (Inr l, x1)"
    "leaseNow env x1 = (t1, x2)" "leaseNow env x2 = (t2, x3)"
    "l_HolderIdentity l = Some h" "h \<noteq> c" "IsLeader c t1 (nodeAt s a) = Ok True"
  shows "\<exists>s1 s2. taskBody (startLeaderElection env a) s = Returns s1 \<and> othersCame (nodeAt s1 a) \<and>
    s2 = onVNode a (releaseVNode renv) s1 \<and> snd s2 = UnRegisterNode renv n x3 \<and>
    \<not> IsReady (nodeAt s2 a) \<and> \<not> TakeOvered (nodeAt s2 a) \<and> (\<forall>t. IsLeader c t (nodeAt s2 a) = Ok False) \<and>
    (\<forall>b. b \<noteq> a \<longrightarrow> nodeAt s2 b = nodeAt s b) \<and>
    (\<forall>o' tenv status bizs biz.
       onBaseStatusArrived o' tenv n status s2 = Returns s2 \<and> onAllBizStatusArrived o' tenv n bizs s2 = Returns s2 \<and>
       onSingleBizStatusArrived o' tenv n biz s2 = Returns s2) \<and>
    (\<forall>M o' e. NodeName (eventPod e) = n \<longrightarrow>
       (\<exists>s3. podHandler M True o' e s2 = Returns s3 \<and> syncOwed s3 = syncOwed s2))"
proof -
  obtain k x where k: "s = (k, x)" by (cases s)
  let ?v = "vnHeap (vNodeStore k) a"
  let ?v1 = "LeaderAcquiredByOthers (SetLease (Some l) ?v)"
  let ?v2 = "(resetActivationStatus ?v1)\<lparr>TakeOvered := False, awaitsOthers := False, othersCame := False\<rparr>"
  let ?s1 = "(k\<lparr>vNodeStore := setVNode a ?v1 (vNodeStore k)\<rparr>, x3)"
  let ?s2 = "onVNode a (releaseVNode renv) ?s1"
  have at: "vn_name ?v = n" "clientID k = c" "awaitsOthers ?v" "nodeNameToVNode (vNodeStore k) n = Some a"
    using assms(1-4) by (simp_all add: k GetVNode_def)
  have 1: "taskBody (startLeaderElection env a) s = Returns ?s1"
    using election_told [of env ?v x l x1 t1 x2 t2 x3 h c] assms(5-10) at
    by (simp add: startLeaderElection_def runVNodeOp_def k)
  have 2: "?s2 = (k\<lparr>vNodeStore := setVNode a ?v2 (setVNode a ?v1 (vNodeStore k))\<rparr>, UnRegisterNode renv n x3)"
    using at(1) by (simp add: onVNode_def releaseVNode_def cleanUp_def setVNode_def resetActivationStatus_def)
  have not_led: "IsLeader c t (nodeAt ?s2 a) = Ok False" for t
    unfolding 2 by (rule heldBy_IsLeader [OF _ assms(9)])
      (simp add: setVNode_def resetActivationStatus_def heldBy_def assms(8))
  have here: "nodeNameToVNode (vNodeStore (fst ?s2)) n = Some a" "clientID (fst ?s2) = c"
    unfolding 2 using at by (simp_all add: setVNode_def)
  have silent: "asLeader o' a f ?s2 = Returns ?s2" for o' f
    using not_led here(2) by (simp add: asLeader_def)
  have events: "\<exists>s3. podHandler M True o' e ?s2 = Returns s3 \<and> syncOwed s3 = syncOwed ?s2"
    if "NodeName (eventPod e) = n" for M o' e
  proof -
    have "IsLeader (clientID (fst ?s2)) t (nodeAt ?s2 a) = Ok False" for t unfolding here(2) by (rule not_led)
    from event_without_leadership [OF here(1) that this] obtain s3 where "podHandler M True o' e ?s2 = Returns s3"
      "sameSync ?s2 s3" by blast
    with sameSync_owed [OF this(2)] show ?thesis by blast
  qed
  have told: "othersCame (nodeAt ?s1 a)" using at(3) by (simp add: setVNode_def LeaderAcquiredByOthers_def SetLease_def)
  have quiet: "onBaseStatusArrived o' tenv n status ?s2 = Returns ?s2" "onAllBizStatusArrived o' tenv n bizs ?s2 = Returns ?s2"
    "onSingleBizStatusArrived o' tenv n biz ?s2 = Returns ?s2" for o' tenv status bizs biz
    using here(1) by (simp_all add: onBaseStatusArrived_def onAllBizStatusArrived_def onSingleBizStatusArrived_def GetVNode_def silent)
  have rest: "\<not> IsReady (nodeAt ?s2 a)" "\<not> TakeOvered (nodeAt ?s2 a)" "b \<noteq> a \<Longrightarrow> nodeAt ?s2 b = nodeAt s b"
    "snd ?s2 = UnRegisterNode renv n x3" for b
    unfolding 2 by (simp_all add: setVNode_def resetActivationStatus_def IsReady_def k)
  show ?thesis
    by (rule exI [of _ ?s1], rule exI [of _ ?s2]) (intro conjI allI impI refl 1 told rest not_led quiet events; assumption)
qed

text \<open>A node that client \<open>a\<close> runs, and whose lease client \<open>b\<close> has taken.\<close>

definition lostLease :: Lease where
  "lostLease = NewLease (GoTime 1) ''b'' (demoVNode :: (unit, unit) VNode)"

definition contested :: "(unit, Lease option \<times> gotime) vcState" where
  "contested = (fst (onVNode 0 (\<lambda>(v, x). (v\<lparr>awaitsOthers := True, TakeOvered := True\<rparr>, x)) ledState), Some lostLease, GoTime 2)"

lemma contested_simps:
  "GetVNode (vNodeStore (fst contested)) ''vnode.a.test'' = Some 0" "vn_name (nodeAt contested 0) = ''vnode.a.test''"
  "clientID (fst contested) = ''a''" "awaitsOthers (nodeAt contested 0)" "TakeOvered (nodeAt contested 0)"
  "IsReady (nodeAt contested 0)" "lease (nodeAt contested 0) = Some freshDemoLease" "snd contested = (Some lostLease, GoTime 2)"
  by (simp_all add: contested_def onVNode_def setVNode_def ledState_def GetVNode_def IsReady_def demoVNode_def)

lemma lostLease_holder: "l_HolderIdentity lostLease = Some ''b''"
  by (simp add: lostLease_def NewLease_def)

lemma freshDemoLease_leads:
  "lease v = Some freshDemoLease \<Longrightarrow> nanos t \<le> 40 * second \<Longrightarrow> IsLeader ''a'' t v = Ok True"
  by (rule renewed_leads [of _ "nanos t" "40 * second", simplified])
    (simp_all add: renewed_def freshDemoLease_def NewLease_def const_defs)

definition demoRelease :: "(Lease option \<times> gotime) runEnv" where
  "demoRelease = \<lparr>runNode = Some, nodeReady = WaitReady', nodeError = None, cacheHasNode = (\<lambda>_ x. (None, x)),
     pollsEnd = (\<lambda>_. False), RegisterNode = (\<lambda>_ x. (None, x)), UnRegisterNode = (\<lambda>_ (l, t). (l, Add t second)),
     listPods = (\<lambda>_ _ x. (Inr [], x))\<rparr>"

lemma handover_releases_node_witness:
  "IsReady (nodeAt contested 0) \<and> TakeOvered (nodeAt contested 0) \<and>
   (\<exists>s1 s2. taskBody (startLeaderElection demoLeaseEnv 0) contested = Returns s1 \<and>
      s2 = onVNode 0 (releaseVNode demoRelease) s1 \<and> \<not> IsReady (nodeAt s2 0) \<and> \<not> TakeOvered (nodeAt s2 0) \<and>
      (\<forall>t. IsLeader ''a'' t (nodeAt s2 0) = Ok False))"
proof -
  let ?x = "\<lambda>n. (Some lostLease, GoTime (2 + n * second))"
  have get: "leaseGet demoLeaseEnv n ns (leaseSleep demoLeaseEnv (snd contested)) = (Inr lostLease, ?x 2)" for n ns
    by (simp add: demoLeaseEnv_def contested_simps Add_def)
  have now: "leaseNow demoLeaseEnv (?x 2) = (GoTime (2 + 2 * second), ?x 3)"
    "leaseNow demoLeaseEnv (?x 3) = (GoTime (2 + 3 * second), ?x 4)"
    by (simp_all add: demoLeaseEnv_def Add_def algebra_simps)
  have led: "IsLeader ''a'' (GoTime (2 + 2 * second)) (nodeAt contested 0) = Ok True"
    by (rule freshDemoLease_leads) (simp_all add: contested_simps second_def)
  from handover_releases_node [OF contested_simps(1-4) get now lostLease_holder _ led, of demoRelease]
  show ?thesis by (auto simp: contested_simps simp del: split_paired_Ex)
qed

section \<open>A missed handover\<close>

text \<open>
  Another client holds the lease and goes on holding it: time passes, and a read finds its lease or
  fails for another reason than that there is none.
\<close>

definition otherHolds :: "'x leaseEnv \<Rightarrow> ('x \<Rightarrow> Lease option) \<Rightarrow> string \<Rightarrow> bool" where
  "otherHolds env cur h \<longleftrightarrow>
     (\<forall>x. heldBy h (cur x) \<longrightarrow> heldBy h (cur (leaseSleep env x))) \<and>
     (\<forall>x t x'. heldBy h (cur x) \<longrightarrow> leaseNow env x = (t, x') \<longrightarrow> heldBy h (cur x')) \<and>
     (\<forall>n ns x r x'. heldBy h (cur x) \<longrightarrow> leaseGet env n ns x = (r, x') \<longrightarrow>
        heldBy h (cur x') \<and> (case r of Inr l \<Rightarrow> l_HolderIdentity l = Some h | Inl e \<Rightarrow> \<not> IsNotFound e))"

lemma otherHoldsD:
  assumes "otherHolds env cur h" "heldBy h (cur x)"
  shows "heldBy h (cur (leaseSleep env x))" "leaseNow env x = (t, x') \<Longrightarrow> heldBy h (cur x')"
    "leaseGet env n ns x = (r, x') \<Longrightarrow> heldBy h (cur x')"
    "leaseGet env n ns x = (Inr l, x') \<Longrightarrow> l_HolderIdentity l = Some h"
    "leaseGet env n ns x = (Inl e, x') \<Longrightarrow> \<not> IsNotFound e"
proof -
  note all = assms(1) [unfolded otherHolds_def]
  note get = all [THEN conjunct2, THEN conjunct2, rule_format, OF assms(2)]
  show "heldBy h (cur (leaseSleep env x))" by (rule all [THEN conjunct1, rule_format, OF assms(2)])
  show "leaseNow env x = (t, x') \<Longrightarrow> heldBy h (cur x')"
    by (rule all [THEN conjunct2, THEN conjunct1, rule_format, OF assms(2)])
  show "leaseGet env n ns x = (r, x') \<Longrightarrow> heldBy h (cur x')" by (drule get) (erule conjunct1)
  show "leaseGet env n ns x = (Inr l, x') \<Longrightarrow> l_HolderIdentity l = Some h" by (drule get) simp
  show "leaseGet env n ns x = (Inl e, x') \<Longrightarrow> \<not> IsNotFound e" by (drule get) simp
qed

text \<open>
  A round of the election changes nothing of the node but what it remembers of the lease, unless it told
  the take-over. The client's own view of the lease has to be readable.
\<close>

definition deaf :: "string \<Rightarrow> string \<Rightarrow> ('r, 'x) VNode \<Rightarrow> bool" where
  "deaf h c v \<longleftrightarrow> (\<forall>t. \<exists>b. IsLeader c t v = Ok b) \<and> (awaitsOthers v \<longrightarrow> (\<forall>t. IsLeader c t v = Ok False))"

lemma deaf_round:
  assumes env: "otherHolds env cur h" and x: "heldBy h (cur x)" and v: "deaf h c v" and h: "h \<noteq> c"
  shows "\<exists>x' l. leaseRound env c v x \<in> {Done (SetLease (Some l) v, x'), Again (v, x')} \<and> heldBy h (cur x') \<and>
    l_HolderIdentity l = Some h"
proof -
  note x0 = otherHoldsD(1) [OF env x]
  obtain r x1 where g: "leaseGet env (vn_name v) NamespaceNodeLease (leaseSleep env x) = (r, x1)" by fastforce
  note x1 = otherHoldsD(3) [OF env x0 g]
  show ?thesis
  proof (cases r)
    case (Inl e)
    with otherHoldsD(5) [OF env x0] g have "leaseRound env c v x = Again (v, x1)" by (simp add: leaseRound_def)
    moreover obtain l :: Lease where "l_HolderIdentity l = Some h" using x by (auto simp: heldBy_def)
    ultimately show ?thesis using x1 by blast
  next
    case (Inr l)
    have l: "l_HolderIdentity l = Some h" using otherHoldsD(4) [OF env x0] g Inr by simp
    obtain t2 x2 where t2: "leaseNow env x1 = (t2, x2)" by fastforce
    obtain t3 x3 where t3: "leaseNow env x2 = (t3, x3)" by fastforce
    have x3: "heldBy h (cur x3)" by (rule otherHoldsD(2) [OF env otherHoldsD(2) [OF env x1 t2] t3])
    have now: "IsLeader c t3 (SetLease (Some l) v) = Ok False"
      by (rule heldBy_IsLeader [OF _ h]) (simp add: heldBy_def l)
    obtain b where b: "IsLeader c t2 v = Ok b" using v by (auto simp: deaf_def)
    have "\<not> (b \<and> awaitsOthers v)" using b v by (auto simp: deaf_def)
    then have "leaseRound env c v x = Done (SetLease (Some l) v, x3)"
      using g Inr t2 t3 b now
      by (auto simp: leaseRound_def useLease_def Let_def LeaderAcquiredByOthers_def SetLease_def)
    with x3 l show ?thesis by blast
  qed
qed

lemma SetLease_deaf:
  assumes "l_HolderIdentity l = Some h" "h \<noteq> c"
  shows "deaf h c (SetLease (Some l) v)"
proof -
  have "IsLeader c t (SetLease (Some l) v) = Ok False" for t
    by (rule heldBy_IsLeader [OF _ assms(2)]) (simp add: heldBy_def assms(1))
  then show ?thesis unfolding deaf_def by blast
qed

lemma deaf_loop:
  assumes env: "otherHolds env cur h" and "heldBy h (cur x)" "deaf h c v" and h: "h \<noteq> c"
  shows "\<exists>x' r. leaseLoop env c k (v, x) = Returns (v\<lparr>lease := r\<rparr>, x') \<and> heldBy h (cur x') \<and> (r = lease v \<or> heldBy h r)"
  using assms(2,3)
proof (induction k arbitrary: x)
  case (Suc k)
  obtain x1 l where 1: "leaseRound env c v x \<in> {Done (SetLease (Some l) v, x1), Again (v, x1)}" "heldBy h (cur x1)"
    "l_HolderIdentity l = Some h"
    using deaf_round [OF env Suc.prems h] by blast
  consider (stop) "leaseRound env c v x = Done (SetLease (Some l) v, x1)" | (again) "leaseRound env c v x = Again (v, x1)"
    using 1(1) by blast
  then show ?case
  proof cases
    case stop
    show ?thesis by (rule exI [of _ x1], rule exI [of _ "Some l"]) (use 1 stop in \<open>simp add: SetLease_def heldBy_def\<close>)
  next
    case again
    with Suc.IH [OF 1(2) Suc.prems(2)] show ?thesis by simp
  qed
qed (auto intro: exI [of _ "lease v"])

lemma deaf_renewals:
  assumes env: "otherHolds env cur h" and "heldBy h (cur x)" "deaf h c v" and h: "h \<noteq> c"
    and ps: "\<forall>pause\<in>set ps. \<forall>x. heldBy h (cur x) \<longrightarrow> heldBy h (cur (pause x))"
  shows "\<exists>x' r. renewals env c ps (v, x) = Returns (v\<lparr>lease := r\<rparr>, x') \<and> heldBy h (cur x') \<and> (r = lease v \<or> heldBy h r)"
  using assms(2,3) ps
proof (induction ps arbitrary: v x)
  case (Cons pause ps)
  have "heldBy h (cur (pause x))" using Cons.prems by simp
  from deaf_loop [OF env this Cons.prems(2) h, of NodeLeaseMaxRetryTimes] obtain x1 r where
    1: "createOrRetryUpdateLease env c (v, pause x) = Returns (v\<lparr>lease := r\<rparr>, x1)" "heldBy h (cur x1)" "r = lease v \<or> heldBy h r"
    unfolding createOrRetryUpdateLease_def by blast
  have "deaf h c (v\<lparr>lease := r\<rparr>)"
  proof (cases "r = lease v")
    case True
    then show ?thesis using Cons.prems(2) by simp
  next
    case False
    then show ?thesis using 1(3) SetLease_deaf [of _ h c v] h by (auto simp: heldBy_def SetLease_def)
  qed
  from Cons.IH [OF 1(2) this] Cons.prems(3) obtain x' r' where
    "renewals env c ps (v\<lparr>lease := r\<rparr>, x1) = Returns (v\<lparr>lease := r'\<rparr>, x')" "heldBy h (cur x')" "r' = r \<or> heldBy h r'"
    by auto
  with 1 show ?case by (intro exI [of _ x'] exI [of _ r']) auto
next
  case Nil
  show ?case by (rule exI [of _ x], rule exI [of _ "lease v"]) (use Nil in simp)
qed

text \<open>C7. A missed handover is final: when a client reads in its election that another client holds the
  lease while its take-over of the node is not waiting for the signal, as while the node starts, or after
  its own view of the lease had expired, then nothing is told. When the take-over then waits, and the
  other client goes on holding the lease, then after any number of further elections, with any pauses, the node is
  as it was but for the lease that it remembers: it is still taken over and waiting, it was told nothing, and
  its client does not lead it.\<close>

theorem missed_handover_is_final:
  fixes v :: "('r, 'x) VNode"
  assumes "leaseGet env (vn_name v) NamespaceNodeLease (leaseSleep env x) = (Inr l, x1)"
    "leaseNow env x1 = (t1, x2)" "leaseNow env x2 = (t2, x3)" "l_HolderIdentity l = Some h" "h \<noteq> c"
    "IsLeader c t1 v = Ok led" "\<not> (led \<and> awaitsOthers v)"
    "otherHolds env cur h" "heldBy h (cur x3)" "\<forall>pause\<in>set ps. \<forall>x. heldBy h (cur x) \<longrightarrow> heldBy h (cur (pause x))"
  shows "createOrRetryUpdateLease env c (v, x) = Returns (v\<lparr>lease := Some l\<rparr>, x3) \<and>
    (\<exists>x' r. renewals env c ps (v\<lparr>awaitsOthers := True, lease := Some l\<rparr>, x3) =
         Returns (v\<lparr>awaitsOthers := True, lease := r\<rparr>, x') \<and>
       (\<forall>t. IsLeader c t (v\<lparr>awaitsOthers := True, lease := r\<rparr>) = Ok False))"
proof
  have now: "IsLeader c t2 (SetLease (Some l) v) = Ok False"
    by (rule heldBy_IsLeader [OF _ assms(5)]) (simp add: heldBy_def assms(4))
  from assms(7) show "createOrRetryUpdateLease env c (v, x) = Returns (v\<lparr>lease := Some l\<rparr>, x3)"
    by (auto simp: createOrRetryUpdateLease_def NodeLeaseMaxRetryTimes_def eval_nat_numeral leaseRound_def useLease_def
        Let_def assms(1-3,6) now [unfolded SetLease_def] LeaderAcquiredByOthers_def SetLease_def)
next
  let ?v = "v\<lparr>awaitsOthers := True, lease := Some l\<rparr>"
  have "deaf h c (SetLease (Some l) (v\<lparr>awaitsOthers := True\<rparr>))" by (rule SetLease_deaf [OF assms(4,5)])
  then have deaf: "deaf h c ?v" by (simp add: SetLease_def)
  have l: "heldBy h (lease ?v)" using assms(4) by (simp add: heldBy_def)
  obtain x' r where r: "renewals env c ps (?v, x3) = Returns (?v\<lparr>lease := r\<rparr>, x')" "r = lease ?v \<or> heldBy h r"
    using deaf_renewals [OF assms(8,9) deaf assms(5,10)] by blast
  have "heldBy h r" using r(2) l by auto
  then have "IsLeader c t (?v\<lparr>lease := r\<rparr>) = Ok False" for t by (intro heldBy_IsLeader [OF _ assms(5)]) simp
  with r(1) show "\<exists>x' r. renewals env c ps (?v, x3) = Returns (v\<lparr>awaitsOthers := True, lease := r\<rparr>, x') \<and>
       (\<forall>t. IsLeader c t (v\<lparr>awaitsOthers := True, lease := r\<rparr>) = Ok False)"
    by (intro exI [of _ x'] exI [of _ r]) simp
qed

lemma demoLeaseEnv_other: "otherHolds demoLeaseEnv fst ''b''"
  by (auto simp: otherHolds_def demoLeaseEnv_def heldBy_def split: option.splits)

lemma missed_handover_is_final_witness:
  "\<exists>x' r x3. createOrRetryUpdateLease demoLeaseEnv ''a'' (demoVNode\<lparr>lease := Some freshDemoLease\<rparr>, Some lostLease, GoTime 2) =
       Returns (demoVNode\<lparr>lease := Some lostLease\<rparr>, x3) \<and>
     renewals demoLeaseEnv ''a'' [demoPause 10, demoPause 10] (demoVNode\<lparr>awaitsOthers := True, lease := Some lostLease\<rparr>, x3) =
       Returns (demoVNode\<lparr>awaitsOthers := True, lease := r\<rparr>, x') \<and>
     (\<forall>t. IsLeader ''a'' t ((demoVNode :: (unit, Lease option \<times> gotime) VNode)\<lparr>awaitsOthers := True, lease := r\<rparr>) = Ok False)"
proof -
  let ?v = "demoVNode\<lparr>lease := Some freshDemoLease\<rparr> :: (unit, Lease option \<times> gotime) VNode"
  let ?x = "\<lambda>n. (Some lostLease, GoTime (2 + n * second))"
  have get: "leaseGet demoLeaseEnv n ns (leaseSleep demoLeaseEnv (Some lostLease, GoTime 2)) = (Inr lostLease, ?x 2)" for n ns
    by (simp add: demoLeaseEnv_def Add_def)
  have now: "leaseNow demoLeaseEnv (?x 2) = (GoTime (2 + 2 * second), ?x 3)"
    "leaseNow demoLeaseEnv (?x 3) = (GoTime (2 + 3 * second), ?x 4)"
    by (simp_all add: demoLeaseEnv_def Add_def algebra_simps)
  have led: "IsLeader ''a'' (GoTime (2 + 2 * second)) ?v = Ok True"
    by (rule freshDemoLease_leads) (simp_all add: second_def)
  have pauses: "\<forall>pause\<in>set [demoPause 10, demoPause 10]. \<forall>x. heldBy ''b'' (fst x) \<longrightarrow> heldBy ''b'' (fst (pause x))"
    by (simp add: demoPause_def)
  have held: "heldBy ''b'' (fst (?x 4))" by (simp add: heldBy_def lostLease_holder)
  have "\<not> (True \<and> awaitsOthers ?v)" by (simp add: demoVNode_def)
  from missed_handover_is_final [OF get now lostLease_holder _ led this demoLeaseEnv_other held pauses]
  show ?thesis by (simp del: renewals.simps split_paired_Ex)
qed

end
