(* ===== verification/NodeController_Spec.thy ===== *)
theory NodeController_Spec
  imports NodeController PodController_Spec
begin

text \<open>
  The controller of the node object: what registers the node, what the control loop publishes, for
  any answers of the API server, and what a second run of a node does.
\<close>

section \<open>A node runs once\<close>

lemma PodControllerRun_again:
  assumes "pcReady ch" "deleteDanglingPods env arrange p \<noteq> None"
  shows "PodControllerRun env arrange untilDone m (ch, p) = Panics"
  using assms by (auto simp: PodControllerRun_def split: outcome.split)

lemma PodControllerRun_ready:
  "PodControllerRun env arrange untilDone m s = Returns (ch, p) \<Longrightarrow> pcReady ch \<and> pcDone ch"
  by (auto simp: PodControllerRun_def Let_def split: prod.splits option.splits outcome.splits if_splits)

text \<open>C9. A node runs at most once: after a run that ended, whatever it ended with, another run of the same
  node object ends the process, because the pod controller closes its ready channel again; only a
  provider that does not return keeps that from happening. The virtual node reuses its node object
  for every take-over.\<close>

theorem node_runs_once:
  assumes "KubeletRun s1 s2 s3 e (PodControllerRun env arrange untilDone) runNode n = Returns (err, n')"
    "deleteDanglingPods env' arrange' (pc n') \<noteq> None"
  shows "kn_done n' \<and> NodeErr n' = err \<and>
    KubeletRun t1 t2 t3 e' (PodControllerRun env' arrange' untilDone') runNode' n' = Panics"
proof -
  obtain ch p c where run: "PodControllerRun env arrange untilDone (workers n) (pcCh n, pc n) = Returns (ch, p)"
    and n': "kn_done n'" "kn_err n' = err" "pcCh n' = ch" "pc n' = p"
    using assms(1) by (auto simp: KubeletRun_def Let_def split: run.splits prod.splits if_splits)
  from PodControllerRun_again [of ch env' arrange' p untilDone' "workers n'"] PodControllerRun_ready [OF run]
    assms(2) n'
  have "PodControllerRun env' arrange' untilDone' (workers n') (pcCh n', pc n') = Panics" by simp
  with n' show ?thesis by (simp add: KubeletRun_def NodeErr_def)
qed

section \<open>The retry helper of client-go\<close>

text \<open>\<open>RetryOnConflict\<close> repeats the call while it ends in a conflict, and returns its last result.\<close>

fun conflictRuns :: "nat \<Rightarrow> ('s \<Rightarrow> goerror option \<times> 's) \<Rightarrow> 's \<Rightarrow> goerror option \<times> 's" where
  "conflictRuns 0 f s = f s"
| "conflictRuns (Suc n) f s =
     (case f s of
        (None, s) \<Rightarrow> (None, s)
      | (Some e, s) \<Rightarrow> if IsConflict e then conflictRuns n f s else (Some e, s))"

definition retriesConflicts :: "'w nodeEnv \<Rightarrow> bool" where
  "retriesConflicts env \<longleftrightarrow> (\<forall>f s. \<exists>n. RetryOnConflict env f s = conflictRuns n f s)"

lemma conflictRuns_patch:
  assumes "conflictRuns n (patchOnce env p) (u, w) = (r, u', w')"
  shows "case r of None \<Rightarrow> (\<exists>q old w1 w2. nodeStatusPatch env p old w1 = (Inr q, w2) \<and> u' = Some q) | Some e \<Rightarrow> True"
  using assms
proof (induction n arbitrary: u w)
  case 0
  then show ?case by (fastforce simp: patchOnce_def split: prod.splits sum.splits option.splits)
next
  case (Suc n)
  obtain e u1 w1 where f: "patchOnce env p (u, w) = (e, u1, w1)" by (metis surj_pair)
  show ?case
  proof (cases e)
    case None
    with Suc.prems f have "r = None" "u' = u1" by simp_all
    with f None show ?thesis
      by (fastforce simp: patchOnce_def split: prod.splits sum.splits option.splits)
  next
    case (Some e')
    then show ?thesis using Suc f by (cases "IsConflict e'") auto
  qed
qed

lemma updateNodeStatus_result:
  assumes "retriesConflicts env"
  obtains (Updated) q old w1 w2 w' where "updateNodeStatus env p w = (Ok q, w')" "nodeStatusPatch env p old w1 = (Inr q, w2)"
  | (Failed) e w' where "updateNodeStatus env p w = (Err e, w')"
proof -
  obtain n where n: "RetryOnConflict env (patchOnce env p) (None, w) = conflictRuns n (patchOnce env p) (None, w)"
    using assms unfolding retriesConflicts_def by blast
  obtain r u' w' where run: "conflictRuns n (patchOnce env p) (None, w) = (r, u', w')" by (metis surj_pair)
  show thesis
  proof (cases r)
    case None
    with conflictRuns_patch [OF run] obtain q old w1 w2 where "nodeStatusPatch env p old w1 = (Inr q, w2)" "u' = Some q"
      by auto
    with None run n show thesis by (intro Updated) (auto simp: updateNodeStatus_def)
  next
    case (Some e)
    with run n show thesis by (intro Failed) (auto simp: updateNodeStatus_def)
  qed
qed

text \<open>An update of the status returns; it keeps what the server answered to a patch of the provider's
  node, or leaves the server's node as it was.\<close>

definition patchedOr :: "'w nodeEnv \<Rightarrow> Node \<Rightarrow> 'w NodeController \<Rightarrow> 'w NodeController \<Rightarrow> bool" where
  "patchedOr env p n n' \<longleftrightarrow> n' = n \<or>
     (\<exists>q old w1 w2. nodeStatusPatch env p old w1 = (Inr q, w2) \<and> n' = setServerNode q n)"

lemma updateStatus_result:
  assumes "retriesConflicts env"
  shows "\<exists>r n' w'. updateStatus env skip (n, p, w) =
      Returns (r, n', updateNodeStatusHeartbeat (nodeNow env w) p, w') \<and>
    patchedOr env (updateNodeStatusHeartbeat (nodeNow env w) p) n n' \<and> (r \<noteq> None \<longrightarrow> n' = n)"
proof -
  let ?p = "updateNodeStatusHeartbeat (nodeNow env w) p"
  from assms show ?thesis
  proof (cases rule: updateNodeStatus_result [where p = ?p and w = w])
    case (Updated q old w1 w2 w')
    then show ?thesis by (auto simp: updateStatus_def Let_def patchedOr_def)
  next
    case (Failed e w')
    show ?thesis
    proof (cases "if skip then None else nodeStatusUpdateErrorHandler n")
      case None
      with Failed show ?thesis by (auto simp: updateStatus_def Let_def patchedOr_def)
    next
      case (Some h)
      obtain r w1 where h: "h e w' = (r, w1)" by fastforce
      from assms show ?thesis
      proof (cases rule: updateNodeStatus_result [where p = ?p and w = w1])
        case (Updated q old w3 w2 w4)
        with Failed Some h show ?thesis
          by (cases r) (auto simp: updateStatus_def Let_def patchedOr_def simp del: if_split)
      next
        case (Failed e' w'')
        with \<open>updateNodeStatus env ?p w = (Err e, w')\<close> Some h show ?thesis
          by (cases r) (auto simp: updateStatus_def Let_def patchedOr_def simp del: if_split)
      qed
    qed
  qed
qed

section \<open>Registering the node\<close>

text \<open>How the calls of a retried update end: with the answer of the last of them. They create nothing.\<close>

definition lastCall :: "'w nodeEnv \<Rightarrow> Node \<Rightarrow> goerror + Node \<Rightarrow> 'w \<Rightarrow> bool" where
  "lastCall env p answer w \<longleftrightarrow>
     (case answer of
        Inr q \<Rightarrow> (\<exists>old w0. nodeStatusPatch env p old w0 = (Inr q, w))
      | Inl e \<Rightarrow> (\<exists>w0. nodeGet env (n_Namespace p) (n_Name p) w0 = (Inl e, w)) \<or>
                 (\<exists>old w0. nodeStatusPatch env p old w0 = (Inl e, w)))"

definition keepsCreated :: "('w \<Rightarrow> Node list) \<Rightarrow> 'w nodeEnv \<Rightarrow> bool" where
  "keepsCreated C env \<longleftrightarrow>
     (\<forall>ns m w. C (snd (nodeGet env ns m w)) = C w) \<and>
     (\<forall>p old w. C (snd (nodeStatusPatch env p old w)) = C w) \<and>
     (\<forall>q w. C (snd (nodeCreate env q w)) = C w @ [q])"

lemma patchOnce_last:
  assumes "patchOnce env p (u, w) = (r, u', w')" "keepsCreated C env"
  shows "C w' = C w \<and> (case r of None \<Rightarrow> (\<exists>q. u' = Some q \<and> lastCall env p (Inr q) w') | Some e \<Rightarrow> lastCall env p (Inl e) w')"
proof -
  obtain g w1 where g: "nodeGet env (n_Namespace p) (n_Name p) w = (g, w1)" by fastforce
  then have C1: "C w1 = C w" using assms(2) unfolding keepsCreated_def by (metis snd_conv)
  show ?thesis
  proof (cases g)
    case (Inl e)
    with assms(1) g C1 show ?thesis by (auto simp: patchOnce_def lastCall_def)
  next
    case (Inr old)
    obtain q w2 where q: "nodeStatusPatch env p old w1 = (q, w2)" by fastforce
    then have "C w2 = C w1" using assms(2) unfolding keepsCreated_def by (metis snd_conv)
    with assms(1) g q C1 Inr show ?thesis by (cases q) (auto simp: patchOnce_def lastCall_def)
  qed
qed

lemma conflictRuns_last:
  assumes "conflictRuns k (patchOnce env p) (u, w) = (r, u', w')" "keepsCreated C env"
  shows "C w' = C w \<and> (case r of None \<Rightarrow> (\<exists>q. u' = Some q \<and> lastCall env p (Inr q) w') | Some e \<Rightarrow> lastCall env p (Inl e) w')"
  using assms(1)
proof (induction k arbitrary: u w)
  case 0
  with patchOnce_last [OF _ assms(2), of p u w r u' w'] show ?case by simp
next
  case (Suc k)
  obtain e u1 w1 where f: "patchOnce env p (u, w) = (e, u1, w1)" by (metis surj_pair)
  note last = patchOnce_last [OF f assms(2)]
  show ?case
  proof (cases "\<exists>e'. e = Some e' \<and> IsConflict e'")
    case True
    with Suc.prems f have "conflictRuns k (patchOnce env p) (u1, w1) = (r, u', w')" by auto
    from Suc.IH [OF this] last show ?thesis by simp
  next
    case False
    with Suc.prems f have "r = e" "u' = u1" "w' = w1" by (auto split: option.splits)
    with last show ?thesis by (simp only:)
  qed
qed

lemma updateNodeStatus_last:
  assumes "retriesConflicts env" "keepsCreated C env"
  shows "\<exists>w'. C w' = C w \<and>
    ((\<exists>q. updateNodeStatus env p w = (Ok q, w') \<and> lastCall env p (Inr q) w') \<or>
     (\<exists>e. updateNodeStatus env p w = (Err e, w') \<and> lastCall env p (Inl e) w'))"
proof -
  obtain k where k: "RetryOnConflict env (patchOnce env p) (None, w) = conflictRuns k (patchOnce env p) (None, w)"
    using assms(1) unfolding retriesConflicts_def by blast
  obtain r u' w' where run: "conflictRuns k (patchOnce env p) (None, w) = (r, u', w')" by (metis surj_pair)
  with k conflictRuns_last [OF run assms(2)] show ?thesis
    by (cases r) (auto simp: updateNodeStatus_def)
qed

lemma IsNotFound_no_conflict: "IsNotFound e \<Longrightarrow> \<not> IsConflict e"
  by (simp add: IsNotFound_def IsConflict_def)

text \<open>C27. A node that the cluster does not know is registered, exactly once and only then. When the first
  look answers that there is no such node, \<open>ensureNode\<close> creates the node object it was built with,
  keeps the server's answer as the server's node, and takes over its name, namespace and UID; a failed
  creation is returned, wrapped, and changes nothing. In every other course, whatever conflicts were
  retried, the last answer of the server decides: the answer to a successful patch is kept as the
  server's node and nothing is created; an error that is not a missing node, of the look or of the
  patch, is returned as it is and nothing is created; a missing node is created once.\<close>

theorem missing_node_is_registered:
  fixes env :: "'w nodeEnv" and n :: "'w NodeController" and p :: Node and w :: 'w
  defines "p' \<equiv> updateNodeStatusHeartbeat (nodeNow env w) p"
  defines "registered \<equiv> \<lambda>sn w1. case nodeCreate env sn w1 of
      (Inl err, w2) \<Rightarrow> Returns (Some (ErrWrap ''error registering node with kubernetes'' err), n, p', w2)
    | (Inr node, w2) \<Rightarrow> Returns (None, setServerNode node n,
        p'\<lparr>n_Name := n_Name node, n_Namespace := n_Namespace node, n_UID := n_UID node\<rparr>, w2)"
  assumes "retriesConflicts env" "keepsCreated C env" "serverNode n = Some sn"
  shows "(\<forall>e w1. nodeGet env (n_Namespace p) (n_Name p) w = (Inl e, w1) \<and> IsNotFound e \<longrightarrow>
      ensureNode env (n, p, w) = registered sn w1) \<and>
    (\<exists>answer w1. lastCall env p' answer w1 \<and> C w1 = C w \<and>
      (case answer of
         Inr q \<Rightarrow> ensureNode env (n, p, w) = Returns (None, setServerNode q n, p', w1)
       | Inl e \<Rightarrow>
           if IsNotFound e
           then ensureNode env (n, p, w) = registered sn w1 \<and> C (snd (nodeCreate env sn w1)) = C w @ [sn]
           else ensureNode env (n, p, w) = Returns (Some e, n, p', w1)))"
proof
  have ensure: "ensureNode env (n, p, w) =
      (case updateNodeStatus env p' w of
         (Panic, w1) \<Rightarrow> Panics
       | (Ok q, w1) \<Rightarrow> Returns (None, setServerNode q n, p', w1)
       | (Err e, w1) \<Rightarrow> if IsNotFound e then registered sn w1 else Returns (Some e, n, p', w1))"
    using assms(5)
    by (auto simp: ensureNode_def updateStatus_def Let_def p'_def registered_def split: outcome.split prod.split sum.split)
  have names: "n_Namespace p' = n_Namespace p" "n_Name p' = n_Name p"
    by (simp_all add: p'_def updateNodeStatusHeartbeat_def)
  show "\<forall>e w1. nodeGet env (n_Namespace p) (n_Name p) w = (Inl e, w1) \<and> IsNotFound e \<longrightarrow>
      ensureNode env (n, p, w) = registered sn w1"
  proof (intro allI impI, elim conjE)
    fix e w1
    assume e: "nodeGet env (n_Namespace p) (n_Name p) w = (Inl e, w1)" "IsNotFound e"
    obtain k where k: "RetryOnConflict env (patchOnce env p') (None, w) = conflictRuns k (patchOnce env p') (None, w)"
      using assms(3) unfolding retriesConflicts_def by blast
    have "conflictRuns k (patchOnce env p') (None, w) = (Some e, None, w1)"
      using e IsNotFound_no_conflict [OF e(2)] by (cases k) (simp_all add: patchOnce_def names)
    with k e(2) show "ensureNode env (n, p, w) = registered sn w1" by (simp add: ensure updateNodeStatus_def)
  qed
  have create: "C (snd (nodeCreate env sn w1)) = C w1 @ [sn]" for w1
    using assms(4) by (simp add: keepsCreated_def)
  obtain w1 where "C w1 = C w"
    "(\<exists>q. updateNodeStatus env p' w = (Ok q, w1) \<and> lastCall env p' (Inr q) w1) \<or>
     (\<exists>e. updateNodeStatus env p' w = (Err e, w1) \<and> lastCall env p' (Inl e) w1)"
    using updateNodeStatus_last [OF assms(3,4)] by blast
  then show "\<exists>answer w1. lastCall env p' answer w1 \<and> C w1 = C w \<and>
      (case answer of
         Inr q \<Rightarrow> ensureNode env (n, p, w) = Returns (None, setServerNode q n, p', w1)
       | Inl e \<Rightarrow>
           if IsNotFound e
           then ensureNode env (n, p, w) = registered sn w1 \<and> C (snd (nodeCreate env sn w1)) = C w @ [sn]
           else ensureNode env (n, p, w) = Returns (Some e, n, p', w1))"
  proof (elim disjE exE conjE)
    fix q assume "updateNodeStatus env p' w = (Ok q, w1)" "lastCall env p' (Inr q) w1" "C w1 = C w"
    then show ?thesis by (intro exI [of _ "Inr q"] exI [of _ w1]) (simp add: ensure)
  next
    fix e assume "updateNodeStatus env p' w = (Err e, w1)" "lastCall env p' (Inl e) w1" "C w1 = C w"
    then show ?thesis by (intro exI [of _ "Inl e"] exI [of _ w1]) (simp add: ensure create)
  qed
qed

section \<open>The control loop\<close>

lemma controlStep_result:
  assumes "retriesConflicts env"
  shows "\<exists>n' p' w'. controlStep env u (n, p, w) = Returns (n', p', w') \<and> patchedOr env p' n n' \<and>
    p' = updateNodeStatusHeartbeat (nodeNow env w)
      (p\<lparr>n_Taints := n_Taints u, n_Status := n_Status u, n_Annotations := n_Annotations u, n_Labels := n_Labels u\<rparr>)"
proof -
  let ?p = "p\<lparr>n_Taints := n_Taints u, n_Status := n_Status u, n_Annotations := n_Annotations u, n_Labels := n_Labels u\<rparr>"
  obtain r n' w' where "updateStatus env False (n, ?p, w) =
      Returns (r, n', updateNodeStatusHeartbeat (nodeNow env w) ?p, w')"
    "patchedOr env (updateNodeStatusHeartbeat (nodeNow env w) ?p) n n'"
    using updateStatus_result [OF assms, of False n ?p w] by auto
  then show ?thesis by (simp add: controlStep_def Let_def)
qed

lemma controlRounds_result:
  assumes "retriesConflicts env"
  shows "\<exists>n' p' w'. controlRounds env us (n, p, w) = Returns (n', p', w') \<and>
    n_Name p' = n_Name p \<and> n_Namespace p' = n_Namespace p \<and> n_UID p' = n_UID p"
proof (induction us arbitrary: n p w)
  case (Cons u us)
  obtain n1 p1 w1 where 1: "controlStep env u (n, p, w) = Returns (n1, p1, w1)"
    "n_Name p1 = n_Name p" "n_Namespace p1 = n_Namespace p" "n_UID p1 = n_UID p"
    using controlStep_result [OF assms, of u n p w] by (auto simp: updateNodeStatusHeartbeat_def)
  with Cons.IH [of n1 p1 w1] show ?case by auto
qed simp

lemma controlRounds_append:
  "controlRounds env (us @ [u]) s =
     (case controlRounds env us s of
        Returns s1 \<Rightarrow> controlStep env u s1 | Panics \<Rightarrow> Panics | Diverges \<Rightarrow> Diverges)"
  by (induction us arbitrary: s) (auto split: run.split)

text \<open>C21. The control loop follows the last update, whatever failed before: for any sequence of updates
  and any answers of the API server, the loop neither panics nor hangs; the node that it then
  publishes has exactly the taints, annotations, labels and status of the last update, with every
  condition's heartbeat set to the time of that round, and the identity of the registered node; and
  what it keeps as the server's node is the server's answer to a patch to that node, or is unchanged
  since the round before.\<close>

theorem control_loop_follows_last_update:
  assumes "retriesConflicts env"
  shows "\<exists>n1 p1 w1 n' p' w'. controlRounds env us (n, p, w) = Returns (n1, p1, w1) \<and>
    controlRounds env (us @ [u]) (n, p, w) = Returns (n', p', w') \<and>
    n_Taints p' = n_Taints u \<and> n_Annotations p' = n_Annotations u \<and> n_Labels p' = n_Labels u \<and>
    n_Status p' = n_Status (updateNodeStatusHeartbeat (nodeNow env w1) u) \<and>
    (n_Name p', n_Namespace p', n_UID p') = (n_Name p, n_Namespace p, n_UID p) \<and> patchedOr env p' n1 n'"
proof -
  obtain n1 p1 w1 where 1: "controlRounds env us (n, p, w) = Returns (n1, p1, w1)"
    "n_Name p1 = n_Name p" "n_Namespace p1 = n_Namespace p" "n_UID p1 = n_UID p"
    using controlRounds_result [OF assms] by blast
  obtain n' p' w' where "controlStep env u (n1, p1, w1) = Returns (n', p', w')" "patchedOr env p' n1 n'"
    "p' = updateNodeStatusHeartbeat (nodeNow env w1)
      (p1\<lparr>n_Taints := n_Taints u, n_Status := n_Status u, n_Annotations := n_Annotations u, n_Labels := n_Labels u\<rparr>)"
    using controlStep_result [OF assms] by blast
  with 1 show ?thesis by (auto simp: controlRounds_append updateNodeStatusHeartbeat_def)
qed

section \<open>Concrete runs\<close>

text \<open>An API server that holds at most one node, and a kubelet with nothing to do.\<close>

definition demoNodeEnv :: "Node option nodeEnv" where
  "demoNodeEnv =
     \<lparr>nodeGet = (\<lambda>ns n s. (case s of None \<Rightarrow> Inl (ErrAPI NotFound) | Some q \<Rightarrow> Inr q, s)),
      nodeStatusPatch = (\<lambda>new old s. (Inr new, Some new)),
      nodeCreate = (\<lambda>q s. (Inr (q\<lparr>n_UID := ''1''\<rparr>), Some (q\<lparr>n_UID := ''1''\<rparr>))),
      RetryOnConflict = conflictRuns 4, nodeNow = (\<lambda>_. GoTime 9)\<rparr>"

lemma demoNodeEnv_retries: "retriesConflicts demoNodeEnv"
  unfolding retriesConflicts_def demoNodeEnv_def by auto

definition demoNodeController :: "'w NodeController" where
  "demoNodeController = \<lparr>serverNode = Some plainNode, pingInterval = 0, statusInterval = 0,
     chStatusUpdate = Some [], nodeStatusUpdateErrorHandler = None, nc_chReady = False,
     nc_chDone = False, nc_err = None\<rparr>"

text \<open>The same server with a list of what was created.\<close>

definition countingNodeEnv :: "(Node option \<times> Node list) nodeEnv" where
  "countingNodeEnv =
     \<lparr>nodeGet = (\<lambda>ns n (s, l). (case s of None \<Rightarrow> Inl (ErrAPI NotFound) | Some q \<Rightarrow> Inr q, s, l)),
      nodeStatusPatch = (\<lambda>new old (s, l). (Inr new, Some new, l)),
      nodeCreate = (\<lambda>q (s, l). (Inr (q\<lparr>n_UID := ''1''\<rparr>), Some (q\<lparr>n_UID := ''1''\<rparr>), l @ [q])),
      RetryOnConflict = conflictRuns 4, nodeNow = (\<lambda>_. GoTime 9)\<rparr>"

lemma missing_node_is_registered_witness:
  "\<exists>n' p'. ensureNode countingNodeEnv (demoNodeController, plainNode, None, []) =
      Returns (None, n', p', Some (plainNode\<lparr>n_UID := ''1''\<rparr>), [plainNode]) \<and>
    serverNode n' = Some (plainNode\<lparr>n_UID := ''1''\<rparr>) \<and> n_UID p' = ''1''"
proof -
  have env: "retriesConflicts countingNodeEnv" "keepsCreated snd countingNodeEnv"
    unfolding retriesConflicts_def keepsCreated_def countingNodeEnv_def by auto
  have "serverNode (demoNodeController :: (Node option \<times> Node list) NodeController) = Some plainNode"
    by (simp add: demoNodeController_def)
  from missing_node_is_registered [OF env this, THEN conjunct1, rule_format,
      of plainNode "(None, [])" "ErrAPI NotFound" "(None, [])"]
  show ?thesis by (simp add: countingNodeEnv_def setServerNode_def)
qed

lemma control_loop_follows_last_update_witness:
  "\<exists>n' p' w'. controlRounds demoNodeEnv [plainNode, plainNode\<lparr>n_Labels := Some [''a'' \<mapsto> ''b'']\<rparr>]
      (demoNodeController, plainNode, Some plainNode) = Returns (n', p', w') \<and> n_Labels p' = Some [''a'' \<mapsto> ''b'']"
  using control_loop_follows_last_update [OF demoNodeEnv_retries, of "[plainNode]" demoNodeController plainNode
      "Some plainNode" "plainNode\<lparr>n_Labels := Some [''a'' \<mapsto> ''b'']\<rparr>"]
  by auto

definition demoKubelet :: "(unit, unit, unit) kubeletNode" where
  "demoKubelet = \<lparr>nc = demoNodeController, pc = freshPc (),
     pcCh = \<lparr>pcReady = False, pcDone = False, pcErr = None\<rparr>, kn_ready = False, kn_done = False,
     kn_err = None, workers = 1\<rparr>"

lemma node_runs_once_witness:
  "\<exists>err n'. KubeletRun PodReady NodeReady' NodeEnds CtxCanceled
      (PodControllerRun (quietPcEnv zeroPod) (\<lambda>ps. ps) (\<lambda>p. p)) Returns demoKubelet = Returns (err, n') \<and>
    KubeletRun Ctx1 NodeReady' NodeEnds CtxCanceled
      (PodControllerRun (quietPcEnv zeroPod) (\<lambda>ps. ps) (\<lambda>p. p)) Returns n' = Panics"
proof -
  have dangling: "deleteDanglingPods (quietPcEnv zeroPod) (\<lambda>ps. ps) p = Some p" for p :: "(unit, unit) pcState"
    by (simp add: deleteDanglingPods_def quietPcEnv_def)
  obtain err n' where run: "KubeletRun PodReady NodeReady' NodeEnds CtxCanceled
      (PodControllerRun (quietPcEnv zeroPod) (\<lambda>ps. ps) (\<lambda>p. p)) Returns demoKubelet = Returns (err, n')"
    by (simp add: KubeletRun_def PodControllerRun_def dangling startQueues_def RunStart_def demoKubelet_def
        freshPc_def New_def NodeRun_def Let_def)
  have "deleteDanglingPods (quietPcEnv zeroPod) (\<lambda>ps. ps) (pc n') \<noteq> None" by (simp add: dangling)
  from node_runs_once [OF run this] run show ?thesis by blast
qed

end
