(* ===== verification/Spec2Isabelle.thy ===== *)
theory Spec2Isabelle
  imports WorkQueue_Workers Utils Tracker MockTunnel StatusDelivery Handover NodeController_Spec
begin

text \<open>
  A verification library for koupleless/virtual-kubelet: a Kubernetes node agent whose nodes are
  base processes that run business modules (bizs) instead of containers.

  The program. A virtual node controller (vnode_controller/vnode_controller.go) learns from a
  tunnel which bases there are, keeps one virtual node per base in a store
  (provider/vnode_store.go), elects one client per node through a Kubernetes lease, and, while it
  leads a node, runs it and hands it the events of pods and the messages of the tunnel. A virtual
  node (provider/vnode.go) runs two controllers (virtual_kubelet/node/nodeutil): one keeps the node
  object of the API server (virtual_kubelet/node/node.go), the other the pods
  (virtual_kubelet/node/podcontroller.go, pod.go). The pod controller has three work queues
  (virtual_kubelet/internal/queue) and acts through a pod provider (provider/vpod_provider.go), which
  starts and stops bizs through the tunnel, keeps the pods in a store (provider/vpod_store.go), turns
  the reported biz states into pod states, and tells the pod controller of changes by a callback.
  The operations of the provider run under a tracker (common/tracker).

  The theories, from the bottom up, with the source that each one models:
  \<^item> VK_Prelude: collections of facts, finite maps and the order of a range over a map.
  \<^item> Go_Runtime: errors, panics, nilable slices and maps, strings, time with a saturating Sub.
  \<^item> Model_Types: model/consts.go, model/models.go, and the fields of the API objects in use.
  \<^item> Utils: common/utils/utils.go. The retry limiter is computed on 64-bit words.
  \<^item> WorkQueue (queue.go), WorkQueue_Spec (the abstract queue that it refines, and the interface
    \<open>work_queue\<close>), WorkQueue_Workers (the pool of workers as a step relation).
  \<^item> Stores: provider/liveness.go, provider/vpod_store.go and the interfaces of stores.
  \<^item> Tracker: common/tracker/default_tracker.go and tracker.go.
  \<^item> PodProvider, PodProvider_Spec: provider/vpod_provider.go.
  \<^item> MockTunnel: tunnel/tunnel.go and tunnel/mock_tunnel.go, and the interface \<open>biz_tunnel\<close> that
    the pod provider needs of a tunnel, which the mock tunnel is shown to satisfy.
  \<^item> PodController, PodController_Spec: podcontroller.go and pod.go.
  \<^item> Kubelet: the pod controller wired to the pod provider as \<open>NewVNode\<close> does it, by the interface
    \<open>pod_lifecycle\<close>, which the provider's model is shown to satisfy.
  \<^item> Kubelet_Inv: the locale \<open>pc_invariant\<close>, by which a property closed under the primitive updates
    carries over to every handler, callback and provider operation; the steps of a kubelet and the
    rounds of its workers (\<open>handleQueueItem\<close> of queue.go with the handlers of podcontroller.go).
  \<^item> Kubelet_Calls: which calls to the tunnel the operations of the provider and the handlers make, by
    the interface \<open>observed_lifecycle\<close>, for any record of the calls that the outside keeps.
  \<^item> NodeController, NodeController_Spec: node.go and nodeutil/controller.go.
  \<^item> VNode, VNode_Spec: provider/vnode.go and provider/vnode_provider.go.
  \<^item> VNodeStore: provider/vnode_store.go, as a \<open>guarded_store\<close>.
  \<^item> VNodeController, Leader_Spec, VNodeController_Inv, VNodeController_Spec: vnode_controller.go and
    the predicates of the watches; the election; the reachable states of the controller with the
    kubelets of all its nodes; what its handlers do there.
  \<^item> Delivery: all components together, from a pod event to the pod in the provider and to the calls to
    the tunnel; StatusDelivery: the way back, from the report of a biz to the status in the API server.
  \<^item> HealthyNode: the timers, reports and pod events of a node that is led, under a clock.
  \<^item> Handover: what becomes of a node when another client takes its lease.

  How state and operations correspond. A struct is a record whose fields bear the source's names
  (with a prefix where two records share one); an object that goroutines share is in an explicit
  heap of addresses; a Go map is a partial function, and a range over it takes the order that the
  runtime chooses as an argument; a channel that is only closed is a flag, a channel with a buffer of
  one a flag or a list. An operation has the source's name and returns the new state. A call that may
  return an error returns it as a value; \<open>outcome\<close> adds the panic, \<open>run\<close> the call that
  never returns, and \<open>option\<close> stands for the latter in the loops defined by
  \<open>partial_function\<close>. The tunnel, the API server, the cache, the clock, the event sink and the
  key functions of client-go are functions on an arbitrary state of the outside, in the environment
  records; what a theorem needs of them it states.

  What the lemmas show. The queue: its invariant, its refinement of a map from keys to start times,
  no key handled twice at a time, no key lost, a due key taken, and the number of retries. The
  provider: the phase of a pod as a function of its containers, which calls an update makes and in
  which order, and that status reports keep the specs. The pod controller: what its handlers converge
  to and what they never touch. The node controller: the registration and the last update. The
  virtual node: the node object that it registers, and what becomes of bizs without a pod. The virtual
  node controller: one leader at a time, a leader that renews goes on leading, the invariant of all
  reachable states, which events are owed to which queue, how a base comes and goes, and what a restart
  recovers. Together: a pod event on the leading client ends, one round of a worker later, with the pod
  in the provider and its bizs started through the tunnel, the event of its deletion with the pod out of
  it and its bizs stopped, where "started" and "stopped" are the calls that the tunnel got and not what
  it answered; the report of all bizs stops those that no pod runs; the report of one biz ends, one round of a worker
  of the status queue later, with the new status patched into the cluster; every reachable state keeps the
  queues, the known pods and the stored pods of every node consistent; and a node whose timers run on time, on a
  base that answers, stays led, reachable and alive; when another client takes its lease, it is
  released, unless the one signal of it is missed. On the mock tunnel, creating a pod starts exactly
  its bizs and deleting it stops exactly them.

  Bounds and fuel. The loops that may run for ever are \<open>partial_function (option)\<close>; a theorem that
  such a call returns proves it. The poll of \<open>enqueuePodStatusUpdate\<close> takes the number of rounds
  that its context allows, and \<open>createOrRetryUpdateLease\<close> has the five rounds of
  \<open>NodeLeaseMaxRetryTimes\<close>. Every other recursion is structural. Instants and counters of lists are
  unbounded integers; durations that the program multiplies and the product in the workload level wrap
  at 64 bits.

  Granularity. Workers of a queue interleave at every access to it, as \<open>step\<close> says. The handlers of
  the virtual node controller, the steps of the kubelets (a key taken, handled or finished,
  \<open>kubeletStep\<close>) and the runs of the election interleave as whole operations
  (\<open>vcStep\<close>, \<open>electionRun\<close>), each with an environment that may have changed meanwhile; calls to the
  API server within an election run may be interleaved with anything that keeps the named
  assumptions. The provider's store is changed by the provider's own operations only.

  Not modelled: what is written to logs and traces, but for the texts and attributes that the program
  computes itself; the timers of \<open>TimedTaskWithInterval\<close>, of which the tasks and their intervals are
  modelled; the format of the tracker's log lines; interfaces, whose operations are fields of the
  environments; the end-to-end tests; and the Kubernetes, controller-runtime and client-go packages. A
  tunnel answers after the call that asked it has returned: calls of the outside do not re-enter the
  controller; only for the mock tunnel, which calls back at once, the callbacks are a table of functions
  of its state. The goroutine in which \<open>VNode.Run\<close> runs the node is a call of the environment at the
  place where it is started, and a panic in it ends the program; what it does is \<open>KubeletRun\<close>. Data
  races on single fields, such as the result that \<open>VNode.Run\<close> shares with this goroutine, are not
  modelled: each field access is atomic and each operation sees its own.
\<close>

end
